(* ===== verification/PgPrelude.thy ===== *)
theory PgPrelude
  imports Main "HOL-Library.Word"
begin

text \<open>
  Shared vocabulary of the development: the base types of the Go program (uuids, times, error
  values, results that may panic), the standard-library string functions the source calls, the
  slice idiom that deletes the element at an index, and a tiny algebra of SQL tables
  (select by key, update where). Every component theory imports this one; the lemma collections
  \<open>tbl_simps\<close> and \<open>str_simps\<close> gather what component proofs use.
\<close>

named_theorems tbl_simps \<open>rewriting selects and updates on SQL tables\<close>
named_theorems str_simps \<open>rewriting the Go string functions\<close>

section \<open>Base types\<close>

text \<open>
  A \<open>uuid.UUID\<close> is an array of 16 bytes; \<open>uuid.Nil\<close> is the zero array. A \<open>time.Time\<close> is
  counted in nanoseconds from the zero time \<open>time.Time{}\<close>, which is therefore 0.
\<close>

type_synonym uuid = "128 word"
type_synonym time = int

abbreviation uuid_Nil :: uuid where
  "uuid_Nil \<equiv> 0"

abbreviation second :: time where
  "second \<equiv> 1000000000"

text \<open>
  Go error values. \<open>ErrNew\<close> is an error made by \<open>errors.New\<close> or \<open>fmt.Errorf\<close>, \<open>ErrExt\<close> one
  that comes out of code that is not part of the repository (the PostgreSQL driver, a subprocess,
  the file system). \<open>ErrNoRows\<close> is \<open>pgx.ErrNoRows\<close>, \<open>ErrInstanceOffline\<close> the sentinel of the
  server API, and \<open>AlreadyLogged\<close> the wrapper of \<open>pkg/utils/logger\<close>, whose text is the text of
  the error it wraps.
\<close>

datatype log_level = WarnLevel | ErrorLevel

datatype go_error =
    ErrNew string
  | ErrExt string
  | ErrNoRows
  | ErrInstanceOffline
  | AlreadyLogged go_error log_level

fun error_text :: "go_error \<Rightarrow> string" where
  "error_text (ErrNew m) = m"
| "error_text (ErrExt m) = m"
| "error_text ErrNoRows = ''no rows in result set''"
| "error_text ErrInstanceOffline = ''instance offline''"
| "error_text (AlreadyLogged e l) = error_text e"

fun Unwrap :: "go_error \<Rightarrow> go_error" where
  "Unwrap (AlreadyLogged e l) = e"
| "Unwrap e = e"

definition is_already_logged :: "go_error \<Rightarrow> bool" where
  "is_already_logged e = (case e of AlreadyLogged _ _ \<Rightarrow> True | _ \<Rightarrow> False)"

lemma error_text_Unwrap [simp]: "error_text (Unwrap e) = error_text e"
  by (cases e) simp_all

text \<open>
  The result of a Go call: a value, an error, or a panic (a nil pointer dereferenced, an index out
  of range), which unwinds the goroutine after its deferred calls have run.
\<close>

datatype 'a outcome = Ok 'a | Fail go_error | Panicked

fun outcome_err :: "'a outcome \<Rightarrow> go_error option" where
  "outcome_err (Ok a) = None"
| "outcome_err (Fail e) = Some e"
| "outcome_err Panicked = None"

section \<open>Strings\<close>

definition has_prefix :: "string \<Rightarrow> string \<Rightarrow> bool" where
  "has_prefix s p = (take (length p) s = p)"

definition trim_prefix :: "string \<Rightarrow> string \<Rightarrow> string" where
  "trim_prefix s p = (if has_prefix s p then drop (length p) s else s)"

definition has_suffix :: "string \<Rightarrow> string \<Rightarrow> bool" where
  "has_suffix s p = (length p \<le> length s \<and> drop (length s - length p) s = p)"

definition trim_suffix :: "string \<Rightarrow> string \<Rightarrow> string" where
  "trim_suffix s p = (if has_suffix s p then take (length s - length p) s else s)"

text \<open>\<open>strings.Split\<close> and \<open>strings.SplitN\<close> with a separator of one character, \<open>strings.Join\<close>.\<close>

fun split_on :: "char \<Rightarrow> string \<Rightarrow> string list" where
  "split_on c [] = [[]]"
| "split_on c (x # xs) =
     (if x = c then [] # split_on c xs
      else (case split_on c xs of [] \<Rightarrow> [[x]] | y # ys \<Rightarrow> (x # y) # ys))"

fun splitn_on :: "nat \<Rightarrow> char \<Rightarrow> string \<Rightarrow> string list" where
  "splitn_on 0 c s = []"
| "splitn_on (Suc 0) c s = [s]"
| "splitn_on (Suc (Suc n)) c s =
     (if c \<in> set s
      then takeWhile (\<lambda>x. x \<noteq> c) s # splitn_on (Suc n) c (tl (dropWhile (\<lambda>x. x \<noteq> c) s))
      else [s])"

fun join_with :: "char \<Rightarrow> string list \<Rightarrow> string" where
  "join_with c [] = []"
| "join_with c [x] = x"
| "join_with c (x # y # zs) = x @ [c] @ join_with c (y # zs)"

lemma has_prefix_append [simp]: "has_prefix (p @ s) p"
  by (simp add: has_prefix_def)

lemma trim_prefix_append [simp]: "trim_prefix (p @ s) p = s"
  by (simp add: trim_prefix_def)

lemma has_suffix_append [simp]: "has_suffix (s @ p) p"
  by (simp add: has_suffix_def)

lemma trim_suffix_append [simp]: "trim_suffix (s @ p) p = s"
  by (simp add: trim_suffix_def)

lemma has_suffix_iff: "has_suffix s p \<longleftrightarrow> (\<exists>r. s = r @ p)"
  by (metis append_take_drop_id has_suffix_append has_suffix_def)

lemma has_prefix_iff: "has_prefix s p \<longleftrightarrow> (\<exists>r. s = p @ r)"
  by (metis append_take_drop_id has_prefix_append has_prefix_def)

lemma split_on_ne [simp]: "split_on c s \<noteq> []"
  by (induction s) (auto split: list.splits)

lemma split_on_notin: "c \<notin> set s \<Longrightarrow> split_on c s = [s]"
  by (induction s) auto

lemma split_on_append:
  "c \<notin> set s \<Longrightarrow> split_on c (s @ c # t) = s # split_on c t"
  by (induction s) auto

text \<open>Splitting undoes joining as long as no part holds the separator.\<close>

lemma split_on_join_with:
  assumes "xs \<noteq> []" and "\<forall>x \<in> set xs. c \<notin> set x"
  shows "split_on c (join_with c xs) = xs"
  using assms
proof (induction c xs rule: join_with.induct)
  case (3 c x y zs)
  then show ?case by (simp add: split_on_append)
qed (simp_all add: split_on_notin)

lemma join_with_eq_Nil: "join_with c xs = [] \<longleftrightarrow> xs = [] \<or> xs = [[]]"
  by (induction c xs rule: join_with.induct) auto

lemma splitn_on_ne: "n \<noteq> 0 \<Longrightarrow> splitn_on n c s \<noteq> []"
  by (cases "(n, c, s)" rule: splitn_on.cases) auto

text \<open>The first part of \<open>strings.SplitN(s, c, 2)\<close>: everything before the first \<open>c\<close>.\<close>

lemma hd_splitn2: "hd (splitn_on 2 c s) = takeWhile (\<lambda>x. x \<noteq> c) s"
proof (cases "c \<in> set s")
  case False
  then have "\<forall>x \<in> set s. x \<noteq> c" by blast
  then have "takeWhile (\<lambda>x. x \<noteq> c) s = s" by (rule takeWhile_eq_all_conv [THEN iffD2])
  with False show ?thesis by (simp add: numeral_2_eq_2 del: takeWhile_eq_all_conv)
qed (simp add: numeral_2_eq_2)

lemmas str_defs = has_prefix_def trim_prefix_def has_suffix_def trim_suffix_def

section \<open>Slices\<close>

text \<open>\<open>append(xs[:i], xs[i+1:]...)\<close>: the slice without its element at index \<open>i\<close>.\<close>

definition del_at :: "nat \<Rightarrow> 'a list \<Rightarrow> 'a list" where
  "del_at i xs = take i xs @ drop (Suc i) xs"

lemma length_del_at [simp]: "i < length xs \<Longrightarrow> length (del_at i xs) = length xs - 1"
  by (simp add: del_at_def)

lemma del_at_append [simp]: "del_at (length xs) (xs @ y # ys) = xs @ ys"
  by (simp add: del_at_def)

text \<open>
  The loop \<open>for i := 0; i < len(xs); i++\<close> whose body deletes the element at \<open>i\<close> and steps back
  when a callback says so. The callback threads a state, and its flag says whether the element
  stays. Three loops of the program have this shape.
\<close>

function scan_del :: "('a \<Rightarrow> 's \<Rightarrow> bool \<times> 's) \<Rightarrow> nat \<Rightarrow> 'a list \<Rightarrow> 's \<Rightarrow> 'a list \<times> 's" where
  "scan_del f i xs s =
     (if i < length xs
      then (let (keep, s') = f (xs ! i) s
            in if keep then scan_del f (Suc i) xs s' else scan_del f i (del_at i xs) s')
      else (xs, s))"
  by pat_completeness auto
termination
  by (relation "measure (\<lambda>(f, i, xs, s). length xs - i)") auto

declare scan_del.simps [simp del]

text \<open>The same traversal as a recursion on the list: each element is visited exactly once, in order.\<close>

fun scan_keep :: "('a \<Rightarrow> 's \<Rightarrow> bool \<times> 's) \<Rightarrow> 'a list \<Rightarrow> 's \<Rightarrow> 'a list \<times> 's" where
  "scan_keep f [] s = ([], s)"
| "scan_keep f (x # xs) s =
     (let (keep, s') = f x s; (ys, s'') = scan_keep f xs s'
      in (if keep then x # ys else ys, s''))"

lemma scan_del_append:
  "scan_del f (length pre) (pre @ xs) s = (pre @ fst (scan_keep f xs s), snd (scan_keep f xs s))"
proof (induction xs arbitrary: pre s)
  case Nil
  show ?case by (subst scan_del.simps) simp
next
  case (Cons x xs)
  obtain k s' where k: "f x s = (k, s')" by (cases "f x s")
  show ?case
  proof (cases k)
    case True
    have "scan_del f (length pre) (pre @ x # xs) s = scan_del f (Suc (length pre)) (pre @ x # xs) s'"
      by (subst scan_del.simps) (simp add: k True)
    also have "\<dots> = scan_del f (length (pre @ [x])) ((pre @ [x]) @ xs) s'"
      by simp
    finally show ?thesis
      unfolding Cons.IH by (simp add: k True case_prod_unfold Let_def)
  next
    case False
    have "scan_del f (length pre) (pre @ x # xs) s = scan_del f (length pre) (pre @ xs) s'"
      by (subst scan_del.simps) (simp add: k False)
    then show ?thesis
      by (simp add: Cons.IH k False case_prod_unfold Let_def)
  qed
qed

lemma scan_del_eq: "scan_del f 0 xs s = scan_keep f xs s"
  using scan_del_append [of f "[]" xs s] by simp

lemma scan_keep_pure:
  "scan_keep (\<lambda>x s. (p x, g x s)) xs s = (filter p xs, fold g xs s)"
  by (induction xs arbitrary: s) (auto simp: Let_def case_prod_unfold)

section \<open>SQL tables\<close>

text \<open>
  A table is the list of its rows. \<open>sel_by\<close> is \<open>SELECT * WHERE key = k\<close> read with \<open>:one\<close>,
  \<open>upd_where\<close> is \<open>UPDATE .. SET .. WHERE ..\<close>.
\<close>

definition sel_by :: "('r \<Rightarrow> 'k) \<Rightarrow> 'k \<Rightarrow> 'r list \<Rightarrow> 'r option" where
  "sel_by key k rows = find (\<lambda>r. key r = k) rows"

definition upd_where :: "('r \<Rightarrow> bool) \<Rightarrow> ('r \<Rightarrow> 'r) \<Rightarrow> 'r list \<Rightarrow> 'r list" where
  "upd_where P f rows = map (\<lambda>r. if P r then f r else r) rows"

lemma sel_by_Nil [simp]: "sel_by key k [] = None"
  by (simp add: sel_by_def)

lemma sel_by_Cons [simp]: "sel_by key k (r # rs) = (if key r = k then Some r else sel_by key k rs)"
  by (simp add: sel_by_def)

lemma sel_by_key: "sel_by key k rows = Some r \<Longrightarrow> key r = k"
  by (auto simp: sel_by_def find_Some_iff)

lemma sel_by_mem: "sel_by key k rows = Some r \<Longrightarrow> r \<in> set rows"
  by (auto simp: sel_by_def find_Some_iff)

lemma sel_by_unique: "distinct (map key rows) \<Longrightarrow> r \<in> set rows \<Longrightarrow> sel_by key (key r) rows = Some r"
  by (induction rows) auto

lemma sel_by_None_iff: "sel_by key k rows = None \<longleftrightarrow> k \<notin> key ` set rows"
  by (auto simp: sel_by_def find_None_iff)

lemma sel_by_append [tbl_simps]:
  "sel_by key k (rs @ ss) = (case sel_by key k rs of None \<Rightarrow> sel_by key k ss | Some r \<Rightarrow> Some r)"
  by (induction rs) auto

lemma sel_by_upd_where [tbl_simps]:
  assumes "\<And>r. key (f r) = key r"
  shows "sel_by key k (upd_where P f rows)
    = map_option (\<lambda>r. if P r then f r else r) (sel_by key k rows)"
  using assms by (induction rows) (auto simp: upd_where_def)

lemma upd_where_Nil [simp]: "upd_where P f [] = []"
  by (simp add: upd_where_def)

lemma upd_where_Cons [simp]:
  "upd_where P f (r # rs) = (if P r then f r else r) # upd_where P f rs"
  by (simp add: upd_where_def)

lemma length_upd_where [simp]: "length (upd_where P f rows) = length rows"
  by (simp add: upd_where_def)

lemma upd_where_id: "(\<And>r. r \<in> set rows \<Longrightarrow> \<not> P r) \<Longrightarrow> upd_where P f rows = rows"
  by (induction rows) auto

lemma map_upd_where:
  assumes "\<And>r. key (f r) = key r"
  shows "map key (upd_where P f rows) = map key rows"
  using assms by (induction rows) auto

lemma set_upd_where_cases:
  "r \<in> set (upd_where P f rows) \<Longrightarrow> r \<in> set rows \<or> (\<exists>r0 \<in> set rows. P r0 \<and> r = f r0)"
  by (auto simp: upd_where_def)

text \<open>A primary key with a further condition picks at most the row of that key.\<close>

lemma find_key_and:
  assumes "distinct (map key rows)"
  shows "find (\<lambda>r. key r = k \<and> P r) rows
    = (case sel_by key k rows of None \<Rightarrow> None | Some r \<Rightarrow> if P r then Some r else None)"
  using assms
proof (induction rows)
  case (Cons r rows)
  show ?case
  proof (cases "key r = k")
    case True
    with Cons.prems have "sel_by key k rows = None" by (auto simp: sel_by_None_iff)
    with Cons True show ?thesis by simp
  next
    case False
    with Cons show ?thesis by simp
  qed
qed simp

end
