(* ===== verification/Consumer.thy ===== *)
theory Consumer
  imports PgPrelude "HOL-Library.Multiset"
begin

text \<open>
  The runtime of the servers (\<open>pkg/server\<close>): \<open>BaseConsumer\<close>, the channel consumer every queue of the
  program is, as a step relation over its goroutines. A step is what Go does atomically: one access to the atomic flag, a wait
  group or a channel. The channel is unbuffered, so a send and its receive are one step.
\<close>

section \<open>AtomicBool\<close>

definition ab_Set :: "bool \<Rightarrow> 32 word" where
  "ab_Set value = (if value then 1 else 0)"

definition ab_Get :: "32 word \<Rightarrow> bool" where
  "ab_Get v = (v \<noteq> 0)"

text \<open>\<open>CompareAndSwap\<close>: whether it swapped, and the new value.\<close>

definition ab_CompareAndSwap :: "bool \<Rightarrow> bool \<Rightarrow> 32 word \<Rightarrow> bool \<times> 32 word" where
  "ab_CompareAndSwap old new v =
     (if v = ab_Set old then (True, ab_Set new) else (False, v))"

lemma ab_Get_Set [simp]: "ab_Get (ab_Set b) = b"
  by (simp add: ab_Get_def ab_Set_def)

section \<open>BaseConsumer\<close>

text \<open>
  Where a call of \<open>Send\<close> is: before the flag is read, before \<open>addingWg.Add\<close>, at the channel, after
  it, returned. Where \<open>Run\<close> is: not started, receiving, with an element before \<open>wg.Add\<close>, with an
  element waiting for the semaphore, after the loop, returned. Where a worker is: handling, before
  it releases the semaphore, before \<open>wg.Done\<close>. Where \<open>Shutdown\<close> is: not called, at the swap of
  \<open>Close\<close>, waiting for \<open>addingWg\<close>, at \<open>exited\<close>, waiting for \<open>wg\<close>, returned.
\<close>

datatype 'e send_pc = SendCheck 'e | SendAdd 'e | SendPush 'e | SendAfter 'e | SendReturned

datatype 'e run_pc = RunIdle | RunRecv | RunGot 'e | RunSem 'e | RunExit | RunReturned

datatype 'e work_pc = WorkHandle 'e | WorkRelease 'e | WorkDone 'e

datatype shut_pc = ShutIdle | ShutClose | ShutAdding | ShutExited | ShutWg | ShutDown

text \<open>
  \<open>cn_init\<close> are the calls of \<open>Send\<close> made while the servers are initialised, before \<open>Run\<close> starts.
  \<open>cn_pushed\<close> and \<open>cn_handled\<close> record what went through the channel and what was handled.
\<close>

record 'e consumer =
  cn_MaxConcurrency :: nat
  cn_senders :: "'e send_pc list"
  cn_chanClosed :: "32 word"
  cn_addingWg :: nat
  cn_closed :: bool
  cn_run :: "'e run_pc"
  cn_wg :: nat
  cn_sem :: nat
  cn_work :: "'e work_pc list"
  cn_shut :: shut_pc
  cn_panicked :: bool
  cn_init :: "nat list"
  cn_pushed :: "'e list"
  cn_handled :: "'e list"

definition NewBaseConsumer :: "int \<Rightarrow> 'e consumer" where
  "NewBaseConsumer maxConcurrency =
     \<lparr>cn_MaxConcurrency = nat (max maxConcurrency 1), cn_senders = [], cn_chanClosed = 0, cn_addingWg = 0,
      cn_closed = False, cn_run = RunIdle, cn_wg = 0, cn_sem = 0, cn_work = [], cn_shut = ShutIdle,
      cn_panicked = False, cn_init = [], cn_pushed = [], cn_handled = []\<rparr>"

text \<open>
  The steps of \<open>Send\<close> (\<open>SendIn\<close>: called during initialisation), of \<open>Run\<close>, of a worker, and of
  \<open>Shutdown\<close> with the \<open>Close\<close> it calls. \<open>Run\<close> starts when the initialisation has returned. Sending on
  a closed channel panics.
\<close>

inductive consumer_step :: "'e consumer \<Rightarrow> 'e consumer \<Rightarrow> bool" where
  SendCall: "consumer_step s (s\<lparr>cn_senders := cn_senders s @ [SendCheck e]\<rparr>)"
| SendIn: "cn_run s = RunIdle \<Longrightarrow>
    consumer_step s (s\<lparr>cn_senders := cn_senders s @ [SendCheck e], cn_init := cn_init s @ [length (cn_senders s)]\<rparr>)"
| SendOpen: "i < length (cn_senders s) \<Longrightarrow> cn_senders s ! i = SendCheck e \<Longrightarrow> \<not> ab_Get (cn_chanClosed s) \<Longrightarrow>
    consumer_step s (s\<lparr>cn_senders := (cn_senders s)[i := SendAdd e]\<rparr>)"
| SendDiscard: "i < length (cn_senders s) \<Longrightarrow> cn_senders s ! i = SendCheck e \<Longrightarrow> ab_Get (cn_chanClosed s) \<Longrightarrow>
    consumer_step s (s\<lparr>cn_senders := (cn_senders s)[i := SendReturned]\<rparr>)"
| SendAdding: "i < length (cn_senders s) \<Longrightarrow> cn_senders s ! i = SendAdd e \<Longrightarrow>
    consumer_step s (s\<lparr>cn_senders := (cn_senders s)[i := SendPush e], cn_addingWg := Suc (cn_addingWg s)\<rparr>)"
| Transfer: "i < length (cn_senders s) \<Longrightarrow> cn_senders s ! i = SendPush e \<Longrightarrow> cn_run s = RunRecv \<Longrightarrow> \<not> cn_closed s \<Longrightarrow>
    consumer_step s (s\<lparr>cn_senders := (cn_senders s)[i := SendAfter e], cn_run := RunGot e, cn_pushed := cn_pushed s @ [e]\<rparr>)"
| SendClosed: "i < length (cn_senders s) \<Longrightarrow> cn_senders s ! i = SendPush e \<Longrightarrow> cn_closed s \<Longrightarrow>
    consumer_step s (s\<lparr>cn_panicked := True\<rparr>)"
| SendDone: "i < length (cn_senders s) \<Longrightarrow> cn_senders s ! i = SendAfter e \<Longrightarrow>
    consumer_step s (s\<lparr>cn_senders := (cn_senders s)[i := SendReturned], cn_addingWg := cn_addingWg s - 1\<rparr>)"
| RunStart: "cn_run s = RunIdle \<Longrightarrow> \<forall>i \<in> set (cn_init s). cn_senders s ! i = SendReturned \<Longrightarrow>
    consumer_step s (s\<lparr>cn_run := RunRecv\<rparr>)"
| RecvClosed: "cn_run s = RunRecv \<Longrightarrow> cn_closed s \<Longrightarrow> consumer_step s (s\<lparr>cn_run := RunExit\<rparr>)"
| WgAdd: "cn_run s = RunGot e \<Longrightarrow> consumer_step s (s\<lparr>cn_run := RunSem e, cn_wg := Suc (cn_wg s)\<rparr>)"
| SemAcquire: "cn_run s = RunSem e \<Longrightarrow> cn_sem s < cn_MaxConcurrency s \<Longrightarrow>
    consumer_step s (s\<lparr>cn_run := RunRecv, cn_sem := Suc (cn_sem s), cn_work := cn_work s @ [WorkHandle e]\<rparr>)"
| Handle: "cn_work s = xs @ WorkHandle e # ys \<Longrightarrow>
    consumer_step s (s\<lparr>cn_work := xs @ WorkRelease e # ys, cn_handled := cn_handled s @ [e]\<rparr>)"
| Release: "cn_work s = xs @ WorkRelease e # ys \<Longrightarrow>
    consumer_step s (s\<lparr>cn_work := xs @ WorkDone e # ys, cn_sem := cn_sem s - 1\<rparr>)"
| WgDone: "cn_work s = xs @ WorkDone e # ys \<Longrightarrow>
    consumer_step s (s\<lparr>cn_work := xs @ ys, cn_wg := cn_wg s - 1\<rparr>)"
| Shutdown: "cn_shut s = ShutIdle \<Longrightarrow> consumer_step s (s\<lparr>cn_shut := ShutClose\<rparr>)"
| Close: "cn_shut s = ShutClose \<Longrightarrow> ab_CompareAndSwap False True (cn_chanClosed s) = (True, v) \<Longrightarrow>
    consumer_step s (s\<lparr>cn_shut := ShutAdding, cn_chanClosed := v\<rparr>)"
| CloseChan: "cn_shut s = ShutAdding \<Longrightarrow> cn_addingWg s = 0 \<Longrightarrow>
    consumer_step s (s\<lparr>cn_shut := ShutExited, cn_closed := True\<rparr>)"
| Exited: "cn_shut s = ShutExited \<Longrightarrow> cn_run s = RunExit \<Longrightarrow>
    consumer_step s (s\<lparr>cn_shut := ShutWg, cn_run := RunReturned\<rparr>)"
| WgWait: "cn_shut s = ShutWg \<Longrightarrow> cn_wg s = 0 \<Longrightarrow> consumer_step s (s\<lparr>cn_shut := ShutDown\<rparr>)"

inductive consumer_reach :: "int \<Rightarrow> 'e consumer \<Rightarrow> bool" for n where
  new: "consumer_reach n (NewBaseConsumer n)"
| step: "consumer_reach n s \<Longrightarrow> consumer_step s s' \<Longrightarrow> consumer_reach n s'"

section \<open>The invariant\<close>

fun run_holds :: "'e run_pc \<Rightarrow> 'e list" where
  "run_holds (RunGot e) = [e]"
| "run_holds (RunSem e) = [e]"
| "run_holds _ = []"

fun work_pending :: "'e work_pc \<Rightarrow> 'e list" where
  "work_pending (WorkHandle e) = [e]"
| "work_pending _ = []"

fun work_active :: "'e work_pc \<Rightarrow> bool" where
  "work_active (WorkDone e) = False"
| "work_active _ = True"

text \<open>
  The semaphore counts the active workers, \<open>wg\<close> the workers and the element waiting for one, what
  went through the channel is handled, with a worker, or with \<open>Run\<close>, and once \<open>Shutdown\<close> has passed
  \<open>exited\<close> the loop has returned.
\<close>

definition consumer_inv :: "'e consumer \<Rightarrow> bool" where
  "consumer_inv s \<longleftrightarrow>
     cn_sem s = length (filter work_active (cn_work s)) \<and> cn_sem s \<le> cn_MaxConcurrency s \<and>
     cn_wg s = length (cn_work s) + (case cn_run s of RunSem e \<Rightarrow> 1 | _ \<Rightarrow> 0) \<and>
     mset (cn_pushed s) = mset (cn_handled s) + mset (concat (map work_pending (cn_work s))) + mset (run_holds (cn_run s)) \<and>
     (cn_shut s \<in> {ShutWg, ShutDown} \<longrightarrow> cn_run s = RunReturned) \<and>
     (cn_shut s = ShutDown \<longrightarrow> cn_wg s = 0)"

lemma consumer_inv_new: "consumer_inv (NewBaseConsumer n)"
  by (simp add: consumer_inv_def NewBaseConsumer_def)

lemma consumer_inv_step: "consumer_step s s' \<Longrightarrow> consumer_inv s \<Longrightarrow> consumer_inv s'"
  by (induction rule: consumer_step.induct) (auto simp: consumer_inv_def split: run_pc.splits)

lemma consumer_max_step: "consumer_step s s' \<Longrightarrow> cn_MaxConcurrency s' = cn_MaxConcurrency s"
  by (induction rule: consumer_step.induct) simp_all

lemma consumer_reach_inv: "consumer_reach n s \<Longrightarrow> consumer_inv s \<and> cn_MaxConcurrency s = nat (max n 1)"
  by (induction rule: consumer_reach.induct)
    (auto simp: consumer_inv_new consumer_inv_step consumer_max_step, simp add: NewBaseConsumer_def)

text \<open>While the consumer is open a \<open>Send\<close> made during initialisation stays blocked.\<close>

definition init_inv :: "'e consumer \<Rightarrow> bool" where
  "init_inv s \<longleftrightarrow> (\<not> ab_Get (cn_chanClosed s) \<and> cn_init s \<noteq> [] \<longrightarrow> cn_run s = RunIdle \<and>
     (\<forall>i \<in> set (cn_init s). i < length (cn_senders s) \<and> (\<exists>e. cn_senders s ! i \<in> {SendCheck e, SendAdd e, SendPush e})))"

lemma init_inv_step: "consumer_step s s' \<Longrightarrow> init_inv s \<Longrightarrow> init_inv s'"
proof (induction rule: consumer_step.induct)
  case (Close s v)
  then show ?case by (auto simp: init_inv_def ab_CompareAndSwap_def split: if_splits)
qed (auto simp: init_inv_def nth_append nth_list_update)

lemma consumer_reach_init: "consumer_reach n s \<Longrightarrow> init_inv s"
  by (induction rule: consumer_reach.induct)
    (auto intro: init_inv_step, simp add: init_inv_def NewBaseConsumer_def)

section \<open>Properties\<close>


lemma reach_to: "consumer_reach n s \<Longrightarrow> consumer_step s t \<Longrightarrow> t = u \<Longrightarrow> consumer_reach n u"
  by (auto intro: consumer_reach.step)

text \<open>A send that has read the flag when \<open>Close\<close> runs.\<close>

definition racing :: "nat consumer" where
  "racing = (NewBaseConsumer 1)\<lparr>cn_senders := [SendPush 5], cn_chanClosed := 1, cn_addingWg := 1,
     cn_closed := True, cn_shut := ShutExited\<rparr>"

lemma racing_reach: "consumer_reach 1 racing"
proof -
  define s0 where "s0 = (NewBaseConsumer 1 :: nat consumer)"
  have r0: "consumer_reach 1 s0" unfolding s0_def by (rule consumer_reach.new)
  have r1: "consumer_reach 1 (s0\<lparr>cn_senders := [SendCheck 5]\<rparr>)"
    by (rule reach_to [OF r0 consumer_step.SendCall [of _ 5]]) (simp add: s0_def NewBaseConsumer_def)
  have r2: "consumer_reach 1 (s0\<lparr>cn_senders := [SendAdd 5]\<rparr>)"
    by (rule reach_to [OF r1 consumer_step.SendOpen [of 0 _ 5]]) (simp_all add: s0_def NewBaseConsumer_def ab_Get_def)
  have r3: "consumer_reach 1 (s0\<lparr>cn_senders := [SendAdd 5], cn_shut := ShutClose\<rparr>)"
    by (rule reach_to [OF r2 consumer_step.Shutdown]) (simp_all add: s0_def NewBaseConsumer_def)
  have r4: "consumer_reach 1 (s0\<lparr>cn_senders := [SendAdd 5], cn_chanClosed := 1, cn_shut := ShutAdding\<rparr>)"
    by (rule reach_to [OF r3 consumer_step.Close [of _ 1]])
      (simp_all add: s0_def NewBaseConsumer_def ab_CompareAndSwap_def ab_Set_def)
  have r5: "consumer_reach 1 (s0\<lparr>cn_senders := [SendAdd 5], cn_chanClosed := 1, cn_closed := True, cn_shut := ShutExited\<rparr>)"
    by (rule reach_to [OF r4 consumer_step.CloseChan]) (simp_all add: s0_def NewBaseConsumer_def)
  show ?thesis
    by (rule reach_to [OF r5 consumer_step.SendAdding [of 0 _ 5]]) (simp_all add: s0_def NewBaseConsumer_def racing_def)
qed


text \<open>
  Closing does not exclude senders: one that has read the flag but not yet counted itself is not
  waited for, the channel is closed under it, and its send panics.
\<close>

theorem send_races_close:
  "\<exists>s :: nat consumer. consumer_reach 1 s \<and> cn_shut s = ShutExited \<and> cn_panicked s"
proof -
  have "consumer_reach 1 (racing\<lparr>cn_panicked := True\<rparr>)"
    by (rule reach_to [OF racing_reach consumer_step.SendClosed [of 0 _ 5]]) (simp_all add: racing_def NewBaseConsumer_def)
  then show ?thesis by (intro exI [of _ "racing\<lparr>cn_panicked := True\<rparr>"]) (simp add: racing_def)
qed

text \<open>
  An element sent while the servers are initialised, as recovering a job does, blocks for ever:
  as long as the consumer is open its \<open>Run\<close> is never started, because the initialisation that sends
  has to return first, and the send never completes.
\<close>

theorem send_during_init_blocks:
  assumes "consumer_reach n s" and "cn_init s \<noteq> []" and "\<not> ab_Get (cn_chanClosed s)"
  shows "cn_run s = RunIdle \<and> (\<forall>i \<in> set (cn_init s). cn_senders s ! i \<noteq> SendReturned)"
  using consumer_reach_init [OF assms(1)] assms(2,3) by (fastforce simp: init_inv_def)

theorem send_during_init_blocks_witness:
  "\<exists>s :: nat consumer. consumer_reach 1 s \<and> cn_init s = [0] \<and> cn_run s = RunIdle"
proof -
  have r: "consumer_reach 1 ((NewBaseConsumer 1)\<lparr>cn_senders := [SendCheck (3::nat)], cn_init := [0]\<rparr>)"
    by (rule reach_to [OF consumer_reach.new consumer_step.SendIn [of _ 3]]) (simp_all add: NewBaseConsumer_def)
  have "cn_run ((NewBaseConsumer 1)\<lparr>cn_senders := [SendCheck (3::nat)], cn_init := [0]\<rparr>) = RunIdle"
    using send_during_init_blocks [OF r] by (simp add: NewBaseConsumer_def ab_Get_def)
  with r show ?thesis by (intro exI [of _ "(NewBaseConsumer 1)\<lparr>cn_senders := [SendCheck (3::nat)], cn_init := [0]\<rparr>"]) simp
qed

end
