(* ===== verification/Transitions.thy ===== *)
theory Transitions
  imports Main
begin

text \<open>
  Step relations: the contracts behind the properties of runs. \<open>lasting\<close> is a condition no step leaves,
  with what the later states keep of the earlier ones; \<open>preserved\<close> is an invariant, which keeps nothing
  else; \<open>lowering\<close> bounds the runs by a cost; \<open>finishing\<close> is both, with final states as the only ones
  without a step. They are interpreted on the queues of the agent, on the shutdown of the programs, on
  the cron server and on the lock of an instance.
\<close>

section \<open>Conditions that last\<close>

locale lasting =
  fixes step :: "'s \<Rightarrow> 's \<Rightarrow> bool" and inv :: "'s \<Rightarrow> bool" and keeps :: "'s \<Rightarrow> 's \<Rightarrow> bool"
  assumes step_inv: "step s s' \<Longrightarrow> inv s \<Longrightarrow> inv s'"
    and step_keeps: "step s s' \<Longrightarrow> inv s \<Longrightarrow> keeps s s'"
    and keeps_refl: "keeps s s"
    and keeps_trans: "keeps s t \<Longrightarrow> keeps t u \<Longrightarrow> keeps s u"
begin

lemma steps_last: "step\<^sup>*\<^sup>* s s' \<Longrightarrow> inv s \<Longrightarrow> inv s' \<and> keeps s s'"
proof (induction rule: rtranclp_induct)
  case (step t u)
  then show ?case using step_inv step_keeps keeps_trans by blast
qed (simp add: keeps_refl)

lemma reachable_last: "inv s \<Longrightarrow> {s'. step\<^sup>*\<^sup>* s s'} \<subseteq> {s'. inv s' \<and> keeps s s'}"
  using steps_last by blast

end

locale preserved =
  fixes step :: "'s \<Rightarrow> 's \<Rightarrow> bool" and inv :: "'s \<Rightarrow> bool"
  assumes preserves: "step s s' \<Longrightarrow> inv s \<Longrightarrow> inv s'"

sublocale preserved \<subseteq> lasting step inv "\<lambda>s s'. True"
  by unfold_locales (blast intro: preserves)+

section \<open>Runs that end\<close>

locale lowering =
  fixes step :: "'s \<Rightarrow> 's \<Rightarrow> bool" and cost :: "'s \<Rightarrow> nat"
  assumes lowers: "step s s' \<Longrightarrow> cost s' < cost s"
begin

text \<open>A run of \<open>k\<close> steps costs at least \<open>k\<close>, and every run can be continued to a state without a step.\<close>

lemma run_length: "(step ^^ k) s s' \<Longrightarrow> k + cost s' \<le> cost s"
proof (induction k arbitrary: s')
  case (Suc k)
  then obtain t where "(step ^^ k) s t" and "step t s'" by auto
  with Suc.IH[of t] lowers[of t s'] show ?case by simp
qed simp

lemma run_ends: "\<exists>s'. step\<^sup>*\<^sup>* s s' \<and> {t. step s' t} = {}"
proof (induction "cost s" arbitrary: s rule: less_induct)
  case less
  show ?case
  proof (cases "{t. step s t} = {}")
    case False
    then obtain t where t: "step s t" by blast
    from less[OF lowers[OF t]] obtain s' where "step\<^sup>*\<^sup>* t s'" and "{u. step s' u} = {}" by blast
    with t show ?thesis by (blast intro: converse_rtranclp_into_rtranclp)
  qed blast
qed

end

locale finishing = preserved step inv + lowering step cost
  for step :: "'s \<Rightarrow> 's \<Rightarrow> bool" and inv :: "'s \<Rightarrow> bool" and cost :: "'s \<Rightarrow> nat" +
  fixes final :: "'s \<Rightarrow> bool"
  assumes progress: "inv s \<Longrightarrow> {t. step s t} = {} \<Longrightarrow> final s"
begin

lemma stuck_final: "inv s \<Longrightarrow> step\<^sup>*\<^sup>* s s' \<Longrightarrow> {t. step s' t} = {} \<Longrightarrow> final s'"
  using steps_last[of s s'] progress by blast

lemma finishes:
  assumes "inv s"
  shows "\<exists>s'. step\<^sup>*\<^sup>* s s' \<and> final s'"
proof -
  obtain s' where s': "step\<^sup>*\<^sup>* s s'" "{t. step s' t} = {}" using run_ends by blast
  with steps_last[OF s'(1) assms] progress show ?thesis by blast
qed

end

end
