(* ===== verification/Cron.thy ===== *)
theory Cron
  imports PgPrelude Transitions "HOL-Library.Multiset"
begin

text \<open>
  \<open>CronServer\<close> (\<open>pkg/server/cron_server.go\<close>): elements sorted by their time, a run loop that waits for
  the first one or for a change, and \<open>Send\<close>, which inserts under the mutex and announces a new first
  element on an unbuffered channel while it still holds the mutex. The functional part gives sorted
  insertion and the processing of due elements; the step relation interleaves the run loop with the
  senders, and shows what the announcement under the mutex does.
\<close>

section \<open>Elements\<close>

text \<open>The handler function of an element is what it stands for: the type parameter.\<close>

record 'h cron_element =
  ce_TriggerAt :: time
  ce_HandleFunc :: 'h

text \<open>The loop of \<open>Send\<close>: before the first element that is later, or at the end.\<close>

fun insert_loop :: "'h cron_element \<Rightarrow> 'h cron_element list \<Rightarrow> 'h cron_element list" where
  "insert_loop e [] = [e]"
| "insert_loop e (x # xs) =
     (if ce_TriggerAt x > ce_TriggerAt e then e # x # xs else x # insert_loop e xs)"

text \<open>\<open>Send\<close>: the new list, and whether it announces a new first element.\<close>

definition cron_insert :: "'h cron_element \<Rightarrow> 'h cron_element list \<Rightarrow> 'h cron_element list \<times> bool" where
  "cron_insert e xs =
     (if length xs = 0 then (xs @ [e], True)
      else if ce_TriggerAt e < ce_TriggerAt (xs ! 0) then ([e] @ xs, True)
      else (insert_loop e xs, False))"

definition nextTriggerAt :: "time \<Rightarrow> 'h cron_element list \<Rightarrow> time" where
  "nextTriggerAt now xs = (if length xs = 0 then now + 3600 * second else ce_TriggerAt (xs ! 0))"

text \<open>
  \<open>processArrivedElements\<close>: the index loop deletes each due element and starts its handler; the
  threaded list is the handlers started, in order.
\<close>

definition processArrivedElements ::
    "time \<Rightarrow> 'h cron_element list \<Rightarrow> 'h cron_element list \<Rightarrow> 'h cron_element list \<times> 'h cron_element list" where
  "processArrivedElements now xs started =
     scan_del (\<lambda>e s. if ce_TriggerAt e < now then (False, s @ [e]) else (True, s)) 0 xs started"

lemma scan_keep_arrived:
  "scan_keep (\<lambda>e s. if P e then (False, s @ [e]) else (True, s)) xs s =
     (filter (\<lambda>e. \<not> P e) xs, s @ filter P xs)"
  by (induction xs arbitrary: s) (auto simp: Let_def)

lemma processArrivedElements_eq:
  "processArrivedElements now xs s =
     (filter (\<lambda>e. \<not> ce_TriggerAt e < now) xs, s @ filter (\<lambda>e. ce_TriggerAt e < now) xs)"
  unfolding processArrivedElements_def scan_del_eq by (rule scan_keep_arrived)

section \<open>The elements stay sorted\<close>

abbreviation by_time :: "'h cron_element list \<Rightarrow> bool" where
  "by_time xs \<equiv> sorted (map ce_TriggerAt xs)"

lemma set_insert_loop [simp]: "set (insert_loop e xs) = insert e (set xs)"
  by (induction xs) auto

lemma mset_insert_loop [simp]: "mset (insert_loop e xs) = add_mset e (mset xs)"
  by (induction xs) auto

lemma sorted_insert_loop: "by_time xs \<Longrightarrow> by_time (insert_loop e xs)"
  by (induction xs) (fastforce simp: not_less)+

lemma insert_loop_first: "xs \<noteq> [] \<Longrightarrow> \<not> ce_TriggerAt e < ce_TriggerAt (hd xs) \<Longrightarrow> hd (insert_loop e xs) = hd xs \<or> ce_TriggerAt (hd xs) > ce_TriggerAt e"
  by (cases xs) auto

lemma cron_insert_sorted: "by_time xs \<Longrightarrow> by_time (fst (cron_insert e xs))"
  by (cases xs) (auto simp: cron_insert_def sorted_insert_loop)

lemma cron_insert_mset: "mset (fst (cron_insert e xs)) = add_mset e (mset xs)"
  by (simp add: cron_insert_def)

text \<open>It announces exactly when the new element has become the first one.\<close>

lemma cron_insert_announce:
  "by_time xs \<Longrightarrow> snd (cron_insert e xs) \<longleftrightarrow> xs = [] \<or> (\<forall>x \<in> set xs. ce_TriggerAt e < ce_TriggerAt x)"
  by (cases xs) (auto simp: cron_insert_def)

lemma sorted_filter_map: "by_time xs \<Longrightarrow> by_time (filter P xs)"
  by (rule sorted_filter)

section \<open>The run loop and the senders\<close>

text \<open>
  \<open>Run\<close> is about to lock the mutex in \<open>nextTriggerAt\<close>, in the select, about to lock it in
  \<open>processArrivedElements\<close>, or has returned. A \<open>Send\<close> is about to lock the mutex, blocked on the
  channel with the mutex held, or has returned. The two lock sections of \<open>Run\<close> do not block inside:
  each is one step that needs the mutex free.
\<close>

datatype cron_pc = CronNext | CronSelect time | CronProcess | CronReturned

datatype 'h cron_send = CronLock "'h cron_element" | CronNotify "'h cron_element" | CronSent

record 'h cron_server =
  cr_Elements :: "'h cron_element list"
  cr_mutex :: "nat option"
  cr_run :: cron_pc
  cr_senders :: "'h cron_send list"
  cr_exited :: bool
  cr_started :: "'h cron_element list"
  cr_stored :: "'h cron_element list"

definition NewCronServer :: "'h cron_server" where
  "NewCronServer = \<lparr>cr_Elements = [], cr_mutex = None, cr_run = CronNext, cr_senders = [],
     cr_exited = False, cr_started = [], cr_stored = []\<rparr>"

inductive cron_step :: "'h cron_server \<Rightarrow> 'h cron_server \<Rightarrow> bool" where
  Call: "cron_step s (s\<lparr>cr_senders := cr_senders s @ [CronLock e]\<rparr>)"
| Insert: "i < length (cr_senders s) \<Longrightarrow> cr_senders s ! i = CronLock e \<Longrightarrow> cr_mutex s = None \<Longrightarrow>
    cron_insert e (cr_Elements s) = (xs, False) \<Longrightarrow>
    cron_step s (s\<lparr>cr_Elements := xs, cr_stored := cr_stored s @ [e], cr_senders := (cr_senders s)[i := CronSent]\<rparr>)"
| InsertFirst: "i < length (cr_senders s) \<Longrightarrow> cr_senders s ! i = CronLock e \<Longrightarrow> cr_mutex s = None \<Longrightarrow>
    cron_insert e (cr_Elements s) = (xs, True) \<Longrightarrow>
    cron_step s (s\<lparr>cr_Elements := xs, cr_stored := cr_stored s @ [e], cr_mutex := Some i,
      cr_senders := (cr_senders s)[i := CronNotify e]\<rparr>)"
| Changed: "i < length (cr_senders s) \<Longrightarrow> cr_senders s ! i = CronNotify e \<Longrightarrow> cr_run s = CronSelect t \<Longrightarrow>
    cron_step s (s\<lparr>cr_run := CronProcess, cr_mutex := None, cr_senders := (cr_senders s)[i := CronSent]\<rparr>)"
| Next: "cr_run s = CronNext \<Longrightarrow> cr_mutex s = None \<Longrightarrow>
    cron_step s (s\<lparr>cr_run := CronSelect (nextTriggerAt now (cr_Elements s))\<rparr>)"
| Timeout: "cr_run s = CronSelect t \<Longrightarrow> t \<le> now \<Longrightarrow> cron_step s (s\<lparr>cr_run := CronProcess\<rparr>)"
| Stop: "cr_run s = CronSelect t \<Longrightarrow> cr_exited s \<Longrightarrow> cron_step s (s\<lparr>cr_run := CronReturned\<rparr>)"
| Process: "cr_run s = CronProcess \<Longrightarrow> cr_mutex s = None \<Longrightarrow>
    processArrivedElements now (cr_Elements s) (cr_started s) = (xs, st) \<Longrightarrow>
    cron_step s (s\<lparr>cr_run := CronNext, cr_Elements := xs, cr_started := st\<rparr>)"
| Shutdown: "cron_step s (s\<lparr>cr_exited := True\<rparr>)"

inductive cron_reach :: "'h cron_server \<Rightarrow> bool" where
  new: "cron_reach NewCronServer"
| step: "cron_reach s \<Longrightarrow> cron_step s s' \<Longrightarrow> cron_reach s'"

definition cron_inv :: "'h cron_server \<Rightarrow> bool" where
  "cron_inv s \<longleftrightarrow> by_time (cr_Elements s) \<and>
     mset (cr_stored s) = mset (cr_Elements s) + mset (cr_started s) \<and>
     (\<forall>i < length (cr_senders s). \<forall>e. cr_senders s ! i = CronNotify e \<longrightarrow> cr_mutex s = Some i)"

lemma cron_inv_step: "cron_step s s' \<Longrightarrow> cron_inv s \<Longrightarrow> cron_inv s'"
proof (induction rule: cron_step.induct)
  case (Insert i s e xs)
  then show ?case
    using cron_insert_sorted [of "cr_Elements s" e] cron_insert_mset [of e "cr_Elements s"]
    by (auto simp: cron_inv_def nth_list_update)
next
  case (InsertFirst i s e xs)
  then show ?case
    using cron_insert_sorted [of "cr_Elements s" e] cron_insert_mset [of e "cr_Elements s"]
    by (auto simp: cron_inv_def nth_list_update)
next
  case (Changed i s e t)
  have "cr_senders s ! k \<noteq> CronNotify e'" if "k < length (cr_senders s)" "k \<noteq> i" for k e'
    using that Changed unfolding cron_inv_def by (metis option.inject)
  with Changed show ?case by (auto simp: cron_inv_def nth_list_update)
next
  case (Process s now xs st)
  have "mset (filter (\<lambda>e. \<not> ce_TriggerAt e < now) ys) + mset (filter (\<lambda>e. ce_TriggerAt e < now) ys) = mset ys"
    for ys :: "'h cron_element list" by (induction ys) auto
  with Process show ?case
    by (auto simp: cron_inv_def processArrivedElements_eq sorted_filter_map ac_simps)
qed (auto simp: cron_inv_def nth_append)

lemma cron_reach_inv: "cron_reach s \<Longrightarrow> cron_inv s"
  by (induction rule: cron_reach.induct) (auto intro: cron_inv_step, simp add: cron_inv_def NewCronServer_def)

section \<open>Properties\<close>

text \<open>
  C26. In every interleaving of senders and run loop the elements are sorted by their time, and every
  element that was sent is waiting or was started, exactly once. A processing pass starts exactly the
  elements that are due, in the order of their times, and keeps the rest.
\<close>

theorem cron_keeps_elements:
  assumes "cron_reach s"
  shows "sorted (map ce_TriggerAt (cr_Elements s)) \<and>
    mset (cr_stored s) = mset (cr_Elements s) + mset (cr_started s) \<and>
    processArrivedElements now (cr_Elements s) (cr_started s) =
      (filter (\<lambda>e. now \<le> ce_TriggerAt e) (cr_Elements s),
       cr_started s @ filter (\<lambda>e. ce_TriggerAt e < now) (cr_Elements s)) \<and>
    (\<forall>e \<in> set (cr_Elements s). nextTriggerAt now (cr_Elements s) \<le> ce_TriggerAt e)"
proof -
  have i: "by_time (cr_Elements s)" "mset (cr_stored s) = mset (cr_Elements s) + mset (cr_started s)"
    using cron_reach_inv [OF assms] by (auto simp: cron_inv_def)
  have "nextTriggerAt now xs \<le> ce_TriggerAt e" if "by_time xs" "e \<in> set xs" for xs :: "'a cron_element list" and e
    using that by (cases xs) (auto simp: nextTriggerAt_def)
  with i show ?thesis by (simp add: processArrivedElements_eq not_less)
qed

lemma cron_to: "cron_reach s \<Longrightarrow> cron_step s t \<Longrightarrow> t = u \<Longrightarrow> cron_reach u"
  by (auto intro: cron_reach.step)

text \<open>
  The first element is sent before \<open>Run\<close> has looked at the list: the sender holds the mutex and waits
  for a receiver, and \<open>Run\<close> waits for the mutex.
\<close>

definition stuck_cron :: "nat cron_server" where
  "stuck_cron = NewCronServer\<lparr>cr_Elements := [\<lparr>ce_TriggerAt = 10, ce_HandleFunc = 1\<rparr>],
     cr_stored := [\<lparr>ce_TriggerAt = 10, ce_HandleFunc = 1\<rparr>], cr_mutex := Some 0,
     cr_senders := [CronNotify \<lparr>ce_TriggerAt = 10, ce_HandleFunc = 1\<rparr>]\<rparr>"

lemma stuck_cron_reach: "cron_reach stuck_cron"
proof -
  define e where "e = \<lparr>ce_TriggerAt = 10, ce_HandleFunc = 1 :: nat\<rparr>"
  have r1: "cron_reach (NewCronServer\<lparr>cr_senders := [CronLock e]\<rparr>)"
    by (rule cron_to [OF cron_reach.new cron_step.Call [of _ e]]) (simp add: NewCronServer_def)
  show ?thesis
    by (rule cron_to [OF r1 cron_step.InsertFirst [of 0 _ e "[e]"]])
      (simp_all add: NewCronServer_def stuck_cron_def e_def cron_insert_def)
qed

theorem cron_keeps_elements_witness:
  "sorted (map ce_TriggerAt (cr_Elements stuck_cron)) \<and>
   mset (cr_stored stuck_cron) = mset (cr_Elements stuck_cron) + mset (cr_started stuck_cron)"
  using cron_keeps_elements [OF stuck_cron_reach] by blast

text \<open>A state no step leaves: the mutex is held by a blocked sender and \<open>Run\<close> is not in its select.\<close>

definition deadlocked :: "'h cron_server \<Rightarrow> bool" where
  "deadlocked s \<longleftrightarrow> (\<exists>i e. cr_mutex s = Some i \<and> i < length (cr_senders s) \<and> cr_senders s ! i = CronNotify e) \<and>
     cr_run s \<in> {CronNext, CronProcess, CronReturned}"

lemma deadlocked_step: "cron_step s s' \<Longrightarrow> deadlocked s \<Longrightarrow>
    deadlocked s' \<and> cr_Elements s' = cr_Elements s \<and> cr_started s' = cr_started s"
  by (induction rule: cron_step.induct) (auto simp: deadlocked_def nth_append)

interpretation cron_deadlock: lasting cron_step deadlocked
    "\<lambda>s s'. cr_Elements s' = cr_Elements s \<and> cr_started s' = cr_started s"
  by unfold_locales (use deadlocked_step in auto)

text \<open>
  Announcing under the mutex deadlocks: there is a reachable state, after a single \<open>Send\<close>, from
  which the sent element is never started and no later element is ever stored, whatever happens.
\<close>

theorem cron_deadlocks:
  "\<exists>s :: nat cron_server. cron_reach s \<and> cr_Elements s \<noteq> [] \<and>
     {s'. cron_step\<^sup>*\<^sup>* s s'} \<subseteq> {s'. cr_started s' = [] \<and> cr_Elements s' = cr_Elements s}"
proof (intro exI [of _ stuck_cron] conjI)
  show "cron_reach stuck_cron" by (rule stuck_cron_reach)
  show "cr_Elements stuck_cron \<noteq> []" by (simp add: stuck_cron_def)
  have "deadlocked stuck_cron" by (simp add: deadlocked_def stuck_cron_def NewCronServer_def)
  from cron_deadlock.reachable_last [OF this]
  show "{s'. cron_step\<^sup>*\<^sup>* stuck_cron s'} \<subseteq> {s'. cr_started s' = [] \<and> cr_Elements s' = cr_Elements stuck_cron}"
    by (auto simp: stuck_cron_def NewCronServer_def)
qed

end
