(* ===== verification/Sources.thy ===== *)
theory Sources
  imports PgPrelude
begin

text \<open>
  Database sources on the server side: the state of one source with its retry delay
  (\<open>internal/interface/sourceApi/database_source.go\<close>), the handler that keeps all of them
  (\<open>internal/source/handler.go\<close>) and the one that reads them from files
  (\<open>internal/source/file_handler.go\<close>). Sources are shared by pointer between the map, the queue and
  the timers, so they live in a heap. The database manager is the interface \<open>grpcServerApi.DbManager\<close>:
  its two calls are parameters of the definitions. Each handler call is one step: those that touch the
  map hold \<open>databasesMutex\<close>; \<open>Handle\<close> does not hold it, and is a step only as far as one worker runs.
\<close>

section \<open>Statuses the server reports\<close>

record DbStatusResponse =
  ds_Name :: string
  ds_Stage :: string
  ds_Status :: string
  ds_UpdatedAt :: time
  ds_ErrorMsg :: string
  ds_InstanceName :: string
  ds_Version :: "32 word"

definition ds_IsFailed :: "DbStatusResponse \<Rightarrow> bool" where
  "ds_IsFailed d = (ds_Status d = ''Failed'' \<or> ds_Status d = ''Expired'' \<or> ds_Status d = ''Cancelled'')"

definition ds_IsReady :: "DbStatusResponse \<Rightarrow> string \<Rightarrow> string \<Rightarrow> bool" where
  "ds_IsReady d name instanceName =
     (ds_Stage d = ''ReadyToUse'' \<and> ds_Status d = ''Done'' \<and> ds_Name d = name \<and> ds_InstanceName d = instanceName)"

definition ds_IsMigrateOutReady :: "DbStatusResponse \<Rightarrow> string \<Rightarrow> string \<Rightarrow> bool" where
  "ds_IsMigrateOutReady d name instanceName =
     (ds_Stage d = ''Idle'' \<and> ds_Status d = ''Done'' \<and> ds_Name d = name \<and> ds_InstanceName d = instanceName)"

record InstanceFilter =
  if_InstanceName :: string
  if_Version :: "32 word"
  if_Name :: string
  if_MustExist :: bool

record CreateDbRequest =
  cd_Filter :: InstanceFilter
  cd_Owner :: string
  cd_Password :: string
  cd_Reason :: string
  cd_MigrateFrom :: string
  cd_BackupPath :: string

record InstanceStatusResponse =
  is_Name :: string
  is_Version :: "32 word"
  is_Online :: bool
  is_Databases :: "string \<rightharpoonup> DbStatusResponse"

section \<open>One source\<close>

text \<open>\<open>SourceState\<close> is a string type; the last constructor is its zero value.\<close>

datatype SourceState = SourceStateUnknown | SourceStatePending | SourceStateScheduling
  | SourceStateProcessing | SourceStateIdle | SourceStateReady | SourceStateFailed | SourceStateDropped
  | SourceStateZero

fun source_state_string :: "SourceState \<Rightarrow> string" where
  "source_state_string SourceStateUnknown = ''Unknown''"
| "source_state_string SourceStatePending = ''Pending''"
| "source_state_string SourceStateScheduling = ''Scheduling''"
| "source_state_string SourceStateProcessing = ''Processing''"
| "source_state_string SourceStateIdle = ''Idle''"
| "source_state_string SourceStateReady = ''ReadyToUse''"
| "source_state_string SourceStateFailed = ''Failed''"
| "source_state_string SourceStateDropped = ''Dropped''"
| "source_state_string SourceStateZero = ''''"

datatype SourceType = FileSource | WebSource

fun source_type_string :: "SourceType \<Rightarrow> string" where
  "source_type_string FileSource = ''file''"
| "source_type_string WebSource = ''web''"

record DatabaseRequest =
  rq_Name :: string
  rq_Owner :: string
  rq_PasswordFile :: string
  rq_Password :: string
  rq_InstanceName :: string
  rq_MigrateFrom :: string
  rq_BackupPath :: string

text \<open>\<open>RetryDelay\<close> (seconds) and \<open>RetryTimes\<close> are Go ints of 64 bits.\<close>

record DatabaseSource =
  so_Request :: DatabaseRequest
  so_Type :: SourceType
  so_ExpectState :: SourceState
  so_State :: SourceState
  so_UpdatedAt :: time
  so_RetryDelay :: "64 word"
  so_RetryTimes :: "64 word"
  so_LastErrorMsg :: string
  so_LastScheduledAt :: time
  so_NextScheduleAt :: time

abbreviation so_Name :: "DatabaseSource \<Rightarrow> string" where
  "so_Name s \<equiv> rq_Name (so_Request s)"

abbreviation so_InstanceName :: "DatabaseSource \<Rightarrow> string" where
  "so_InstanceName s \<equiv> rq_InstanceName (so_Request s)"

definition IsConfigChanged :: "DatabaseRequest \<Rightarrow> DatabaseRequest \<Rightarrow> bool" where
  "IsConfigChanged s newSource =
     (rq_InstanceName s \<noteq> rq_InstanceName newSource \<or> rq_MigrateFrom s \<noteq> rq_MigrateFrom newSource \<or>
      rq_BackupPath s \<noteq> rq_BackupPath newSource)"

text \<open>\<open>os.ReadFile\<close> and \<open>strings.TrimSpace\<close> together are the parameter \<open>read_trimmed\<close>.\<close>

definition PasswordContent :: "(string \<Rightarrow> go_error + string) \<Rightarrow> DatabaseRequest \<Rightarrow> go_error + string" where
  "PasswordContent read_trimmed s =
     (if rq_Password s \<noteq> [] then Inr (rq_Password s)
      else if rq_PasswordFile s \<noteq> [] then read_trimmed (rq_PasswordFile s)
      else Inl (ErrNew ''password is empty''))"

definition ResetRetryDelay :: "DatabaseSource \<Rightarrow> DatabaseSource" where
  "ResetRetryDelay s = s\<lparr>so_RetryTimes := 0, so_RetryDelay := 0, so_NextScheduleAt := 0\<rparr>"

text \<open>The delay as a \<open>time.Duration\<close>: nanoseconds in 64 bits.\<close>

definition NextRetryDelay :: "DatabaseSource \<Rightarrow> 64 word \<times> DatabaseSource" where
  "NextRetryDelay s0 =
     (let s = s0\<lparr>so_RetryTimes := so_RetryTimes s0 + 1\<rparr>;
          d = so_RetryDelay s;
          d' = (if d = 0 then 2 else if d = 2 then 3 else if d = 3 then 5
                else if d <s 3600 then d + d else d)
      in (d' * 1000000000, s\<lparr>so_RetryDelay := d'\<rparr>))"

definition UpdateState :: "DbStatusResponse \<Rightarrow> DatabaseSource \<Rightarrow> bool \<times> DatabaseSource" where
  "UpdateState d s =
     (if ds_InstanceName d \<noteq> so_InstanceName s then (False, s)
      else if ds_Stage d = ''DropDatabase'' \<and> ds_Status d = ''Done'' \<and> so_ExpectState s = SourceStateIdle
      then (True, s\<lparr>so_State := SourceStateDropped, so_UpdatedAt := ds_UpdatedAt d\<rparr>)
      else if ds_Stage d = source_state_string (so_ExpectState s) \<and> so_State s \<noteq> so_ExpectState s
      then (True, ResetRetryDelay (s\<lparr>so_State := so_ExpectState s, so_UpdatedAt := ds_UpdatedAt d\<rparr>))
      else if ds_IsFailed d \<and> so_State s = SourceStateProcessing
      then (True, s\<lparr>so_State := SourceStateFailed, so_UpdatedAt := ds_UpdatedAt d, so_LastErrorMsg := ds_ErrorMsg d\<rparr>)
      else (False, s))"

definition Synced :: "DatabaseSource \<Rightarrow> bool" where
  "Synced s = (so_State s = so_ExpectState s)"

section \<open>All sources\<close>

text \<open>
  What is started on its own: a send to the queue of sources, the removal of a dropped source, the
  reaction to an instance that came online; and what a timer does when it fires.
\<close>

datatype spawned = GoSend nat | GoRemove nat | GoOnline InstanceStatusResponse

datatype cron_func = CronIdle string | CronRetry string

text \<open>
  \<open>sh_manager\<close> is the state of the database manager. The environment has the clock (by the number of
  its reading), the file system, the two calls of the manager, the validator, and \<open>DeleyDelete\<close>.
\<close>

record 'm source_state =
  sh_heap :: "nat \<Rightarrow> DatabaseSource"
  sh_Databases :: "string \<rightharpoonup> nat"
  sh_Instances :: "string \<rightharpoonup> bool"
  sh_spawned :: "spawned list"
  sh_cron :: "(time \<times> cron_func) list"
  sh_ticks :: nat
  sh_manager :: 'm

record 'm source_env =
  se_now :: "nat \<Rightarrow> time"
  se_read_trimmed :: "string \<Rightarrow> go_error + string"
  se_GetDbStatus :: "InstanceFilter \<Rightarrow> 'm \<Rightarrow> go_error + DbStatusResponse"
  se_CreateDb :: "CreateDbRequest \<Rightarrow> 'm \<Rightarrow> go_error option \<times> 'm"
  se_validate :: "DatabaseSource \<Rightarrow> go_error option"
  se_DeleyDelete :: time

definition NewSourceHandler :: "(nat \<Rightarrow> DatabaseSource) \<Rightarrow> 'm \<Rightarrow> 'm source_state" where
  "NewSourceHandler h m = \<lparr>sh_heap = h, sh_Databases = Map.empty, sh_Instances = Map.empty,
     sh_spawned = [], sh_cron = [], sh_ticks = 0, sh_manager = m\<rparr>"

definition read_clock :: "'m source_env \<Rightarrow> 'm source_state \<Rightarrow> time \<times> 'm source_state" where
  "read_clock E s = (se_now E (sh_ticks s), s\<lparr>sh_ticks := Suc (sh_ticks s)\<rparr>)"

definition put_source :: "nat \<Rightarrow> DatabaseSource \<Rightarrow> 'm source_state \<Rightarrow> 'm source_state" where
  "put_source r x s = s\<lparr>sh_heap := (sh_heap s)(r := x)\<rparr>"

definition spawn :: "spawned \<Rightarrow> 'm source_state \<Rightarrow> 'm source_state" where
  "spawn g s = s\<lparr>sh_spawned := sh_spawned s @ [g]\<rparr>"

definition retryNextTime :: "'m source_env \<Rightarrow> nat \<Rightarrow> 'm source_state \<Rightarrow> 'm source_state" where
  "retryNextTime E r s =
     (let (now, s1) = read_clock E s;
          (delay, x1) = NextRetryDelay ((sh_heap s1 r)\<lparr>so_State := SourceStateScheduling\<rparr>);
          x2 = x1\<lparr>so_NextScheduleAt := now + sint delay\<rparr>
      in (put_source r x2 s1)\<lparr>sh_cron := sh_cron s1 @ [(so_NextScheduleAt x2, CronRetry (so_Name x2))]\<rparr>)"

definition updateDbStatus :: "'m source_env \<Rightarrow> nat \<Rightarrow> DbStatusResponse \<Rightarrow> 'm source_state \<Rightarrow> 'm source_state" where
  "updateDbStatus E r d s =
     (case UpdateState d (sh_heap s r) of
        (changed, x) \<Rightarrow>
          (let s1 = put_source r x s in
           if changed then
             (if so_State x = SourceStateFailed then retryNextTime E r s1
              else if so_State x = SourceStateDropped then spawn (GoRemove r) s1
              else s1)
           else s1))"

definition syncDatabaseSource :: "'m source_env \<Rightarrow> nat \<Rightarrow> 'm source_state \<Rightarrow> bool \<times> 'm source_state" where
  "syncDatabaseSource E r s =
     (case se_GetDbStatus E \<lparr>if_InstanceName = so_InstanceName (sh_heap s r), if_Version = 0,
                            if_Name = so_Name (sh_heap s r), if_MustExist = False\<rparr> (sh_manager s) of
        Inl e \<Rightarrow> (False, s)
      | Inr d \<Rightarrow> (let s1 = updateDbStatus E r d s in (Synced (sh_heap s1 r), s1)))"

definition create_request_of :: "DatabaseSource \<Rightarrow> string \<Rightarrow> CreateDbRequest" where
  "create_request_of x password =
     \<lparr>cd_Filter = \<lparr>if_InstanceName = so_InstanceName x, if_Version = 0, if_Name = so_Name x, if_MustExist = False\<rparr>,
      cd_Owner = rq_Owner (so_Request x), cd_Password = password,
      cd_Reason = ''Create database '' @ so_Name x @ '' from source '' @ source_type_string (so_Type x),
      cd_MigrateFrom = rq_MigrateFrom (so_Request x), cd_BackupPath = rq_BackupPath (so_Request x)\<rparr>"

text \<open>The part of \<open>Handle\<close> after the state was set to processing.\<close>

definition requestCreate :: "'m source_env \<Rightarrow> nat \<Rightarrow> 'm source_state \<Rightarrow> go_error option \<times> 'm source_state" where
  "requestCreate E r s =
     (let x = sh_heap s r
      in if so_ExpectState x = SourceStateIdle then (None, s)
         else
           (case PasswordContent (se_read_trimmed E) (so_Request x) of
              Inl e \<Rightarrow> (Some (AlreadyLogged e WarnLevel), s)
            | Inr password \<Rightarrow>
                (case se_CreateDb E (create_request_of x password) (sh_manager s) of
                   (None, m) \<Rightarrow> (None, s\<lparr>sh_manager := m\<rparr>)
                 | (Some e, m) \<Rightarrow>
                     (let (now, s1) = read_clock E (s\<lparr>sh_manager := m\<rparr>);
                          x1 = x\<lparr>so_LastErrorMsg := error_text e, so_UpdatedAt := now\<rparr>
                      in (Some (AlreadyLogged e WarnLevel),
                          if e = ErrInstanceOffline
                          then put_source r (x1\<lparr>so_State := SourceStatePending\<rparr>) s1
                          else retryNextTime E r (put_source r (x1\<lparr>so_State := SourceStateFailed\<rparr>) s1))))))"

definition SourceHandler_Handle ::
    "'m source_env \<Rightarrow> nat \<Rightarrow> 'm source_state \<Rightarrow> go_error option \<times> 'm source_state" where
  "SourceHandler_Handle E r s =
     (let (now, s1) = read_clock E s;
          (synced, s2) = syncDatabaseSource E r (put_source r ((sh_heap s1 r)\<lparr>so_LastScheduledAt := now\<rparr>) s1)
      in if synced then (None, s2)
         else requestCreate E r (put_source r ((sh_heap s2 r)\<lparr>so_State := SourceStateProcessing\<rparr>) s2))"

definition AddDatabaseSource ::
    "'m source_env \<Rightarrow> nat \<Rightarrow> 'm source_state \<Rightarrow> go_error option \<times> 'm source_state" where
  "AddDatabaseSource E r s =
     (let x = sh_heap s r in
      case se_validate E x of
        Some e \<Rightarrow> (Some e, s)
      | None \<Rightarrow>
          if (case sh_Databases s (so_Name x) of
                Some old \<Rightarrow> \<not> IsConfigChanged (so_Request (sh_heap s old)) (so_Request x)
              | None \<Rightarrow> False)
          then (None, s)
          else
            (let x1 = (if so_ExpectState x = SourceStateZero then x\<lparr>so_ExpectState := SourceStateReady\<rparr> else x);
                 s1 = (put_source r x1 s)\<lparr>sh_Databases := (sh_Databases s)(so_Name x \<mapsto> r)\<rparr>
             in (None, spawn (GoSend r) s1)))"

definition MarkDatabaseSourceIdle :: "'m source_env \<Rightarrow> string \<Rightarrow> 'm source_state \<Rightarrow> 'm source_state" where
  "MarkDatabaseSourceIdle E name s =
     (case sh_Databases s name of
        None \<Rightarrow> s
      | Some r \<Rightarrow>
          if so_ExpectState (sh_heap s r) = SourceStateIdle then s
          else
            (let (now, s1) = read_clock E s;
                 x = (sh_heap s1 r)\<lparr>so_ExpectState := SourceStateIdle, so_State := SourceStateScheduling,
                       so_NextScheduleAt := now + se_DeleyDelete E\<rparr>
             in (put_source r x s1)\<lparr>sh_cron := sh_cron s1 @ [(so_NextScheduleAt x, CronIdle name)]\<rparr>))"

definition idleDatabaseSource :: "string \<Rightarrow> time \<Rightarrow> 'm source_state \<Rightarrow> 'm source_state" where
  "idleDatabaseSource name triggerAt s =
     (case sh_Databases s name of
        None \<Rightarrow> s
      | Some r \<Rightarrow>
          if so_ExpectState (sh_heap s r) = SourceStateIdle \<and> so_NextScheduleAt (sh_heap s r) = triggerAt
          then spawn (GoSend r) s else s)"

text \<open>The handler function of a timer, called with the time it was set for.\<close>

fun cron_fire :: "cron_func \<Rightarrow> time \<Rightarrow> 'm source_state \<Rightarrow> 'm source_state" where
  "cron_fire (CronIdle name) triggerAt s = idleDatabaseSource name triggerAt s"
| "cron_fire (CronRetry name) triggerAt s =
     (case sh_Databases s name of
        None \<Rightarrow> s
      | Some r \<Rightarrow> if so_NextScheduleAt (sh_heap s r) = triggerAt then spawn (GoSend r) s else s)"

definition OnDbStatusChanged :: "'m source_env \<Rightarrow> DbStatusResponse \<Rightarrow> 'm source_state \<Rightarrow> bool \<times> 'm source_state" where
  "OnDbStatusChanged E d s =
     (True, case sh_Databases s (ds_Name d) of None \<Rightarrow> s | Some r \<Rightarrow> updateDbStatus E r d s)"

definition RemoveDatabaseSource :: "nat \<Rightarrow> 'm source_state \<Rightarrow> 'm source_state" where
  "RemoveDatabaseSource r s =
     (if so_State (sh_heap s r) = SourceStateDropped
      then s\<lparr>sh_Databases := (sh_Databases s)(so_Name (sh_heap s r) := None)\<rparr> else s)"

definition OnInstanceStatusChanged :: "InstanceStatusResponse \<Rightarrow> 'm source_state \<Rightarrow> bool \<times> 'm source_state" where
  "OnInstanceStatusChanged inst s =
     (if sh_Instances s (is_Name inst) = Some (is_Online inst) then (True, s)
      else
        (let s1 = s\<lparr>sh_Instances := (sh_Instances s)(is_Name inst \<mapsto> is_Online inst)\<rparr>
         in (True, if is_Online inst then spawn (GoOnline inst) s1 else s1)))"

text \<open>The body of the loop over the map, for one source.\<close>

definition online_source :: "'m source_env \<Rightarrow> InstanceStatusResponse \<Rightarrow> nat \<Rightarrow> 'm source_state \<Rightarrow> 'm source_state" where
  "online_source E inst r s =
     (let x = sh_heap s r in
      if Synced x then s
      else if so_InstanceName x \<noteq> is_Name inst \<and> rq_MigrateFrom (so_Request x) \<noteq> is_Name inst then s
      else
        (let s1 = (case is_Databases inst (so_Name x) of
                     None \<Rightarrow> s | Some d \<Rightarrow> updateDbStatus E r d s)
         in if so_State (sh_heap s1 r) = SourceStatePending
            then (let (now, s2) = read_clock E s1
                  in spawn (GoSend r) (put_source r ((sh_heap s2 r)\<lparr>so_State := SourceStateScheduling,
                       so_NextScheduleAt := now\<rparr>) s2))
            else s1))"

text \<open>\<open>order\<close> is the order in which Go happens to visit the map: its keys.\<close>

fun handleDatabasesOnInstanceOnline ::
    "'m source_env \<Rightarrow> InstanceStatusResponse \<Rightarrow> string list \<Rightarrow> 'm source_state \<Rightarrow> 'm source_state" where
  "handleDatabasesOnInstanceOnline E inst [] s = s"
| "handleDatabasesOnInstanceOnline E inst (k # order) s =
     handleDatabasesOnInstanceOnline E inst order
       (case sh_Databases s k of None \<Rightarrow> s | Some r \<Rightarrow> online_source E inst r s)"

definition source_IsReady :: "string \<Rightarrow> string \<Rightarrow> 'm source_state \<Rightarrow> bool" where
  "source_IsReady dbName instanceName s =
     (case sh_Databases s dbName of
        None \<Rightarrow> False
      | Some r \<Rightarrow> so_InstanceName (sh_heap s r) = instanceName \<and> so_State (sh_heap s r) = SourceStateReady)"

definition GetSource :: "string \<Rightarrow> 'm source_state \<Rightarrow> nat option" where
  "GetSource name s = sh_Databases s name"

section \<open>Sources from files\<close>

text \<open>
  The file system is a parameter: whether a path exists and is a directory, the entries of a directory
  (name, whether a directory), the content of a file; and so is what the YAML library decodes from it.
  \<open>fh_next\<close> is the address of the next new source.
\<close>

record file_system =
  fs_stat :: "string \<Rightarrow> go_error + bool"
  fs_dir :: "string \<Rightarrow> go_error + (string \<times> bool) list"
  fs_ReadFile :: "string \<Rightarrow> go_error + string"
  fs_Unmarshal :: "string \<Rightarrow> go_error + DatabaseRequest"

definition LoadYaml :: "file_system \<Rightarrow> string \<Rightarrow> go_error + DatabaseRequest" where
  "LoadYaml F path = (case fs_ReadFile F path of Inl e \<Rightarrow> Inl e | Inr bytes \<Rightarrow> fs_Unmarshal F bytes)"

record 'm file_source =
  fh_sourceMap :: "string \<rightharpoonup> string"
  fh_next :: nat
  fh_handler :: "'m source_state"

definition NewFileSourceHandler :: "nat \<Rightarrow> 'm source_state \<Rightarrow> 'm file_source" where
  "NewFileSourceHandler new_ref handler = \<lparr>fh_sourceMap = Map.empty, fh_next = new_ref, fh_handler = handler\<rparr>"

definition FileSource_Init :: "bool \<Rightarrow> string list \<Rightarrow> go_error option" where
  "FileSource_Init enabled paths =
     (if \<not> enabled then None
      else if length paths = 0 then Some (ErrNew ''no file paths provided'') else None)"

definition new_file_source :: "DatabaseRequest \<Rightarrow> DatabaseSource" where
  "new_file_source q = \<lparr>so_Request = q, so_Type = FileSource, so_ExpectState = SourceStateZero,
     so_State = SourceStateUnknown, so_UpdatedAt = 0, so_RetryDelay = 0, so_RetryTimes = 0,
     so_LastErrorMsg = [], so_LastScheduledAt = 0, so_NextScheduleAt = 0\<rparr>"

definition loadDatabaseSourceFromFile ::
    "'m source_env \<Rightarrow> file_system \<Rightarrow> string \<Rightarrow> 'm file_source \<Rightarrow> go_error option \<times> 'm file_source" where
  "loadDatabaseSourceFromFile E F path f =
     (if \<not> has_suffix path ''.yaml'' then (None, f)
      else
        (case LoadYaml F path of
           Inl e \<Rightarrow> (Some e, f)
         | Inr q \<Rightarrow>
             (let r = fh_next f;
                  (err, h) = AddDatabaseSource E r (put_source r (new_file_source q) (fh_handler f))
              in (err, f\<lparr>fh_sourceMap := (fh_sourceMap f)(path \<mapsto> rq_Name q), fh_next := Suc r,
                         fh_handler := h\<rparr>))))"

fun load_dir_loop ::
    "'m source_env \<Rightarrow> file_system \<Rightarrow> string \<Rightarrow> (string \<times> bool) list \<Rightarrow> 'm file_source \<Rightarrow> 'm file_source" where
  "load_dir_loop E F path [] f = f"
| "load_dir_loop E F path ((name, is_dir) # rest) f =
     load_dir_loop E F path rest
       (if is_dir then f else snd (loadDatabaseSourceFromFile E F (path @ ''/'' @ name) f))"

definition loadDatabaseSourcesFromDir ::
    "'m source_env \<Rightarrow> file_system \<Rightarrow> string \<Rightarrow> 'm file_source \<Rightarrow> go_error option \<times> 'm file_source" where
  "loadDatabaseSourcesFromDir E F path f =
     (case fs_dir F path of Inl e \<Rightarrow> (Some e, f) | Inr entries \<Rightarrow> (None, load_dir_loop E F path entries f))"

definition loadDatabaseSources ::
    "'m source_env \<Rightarrow> file_system \<Rightarrow> string \<Rightarrow> 'm file_source \<Rightarrow> go_error option \<times> 'm file_source" where
  "loadDatabaseSources E F path f =
     (case fs_stat F path of
        Inl e \<Rightarrow> (Some e, f)
      | Inr is_dir \<Rightarrow> if is_dir then loadDatabaseSourcesFromDir E F path f
                     else loadDatabaseSourceFromFile E F path f)"

fun FileSource_PostInit ::
    "'m source_env \<Rightarrow> file_system \<Rightarrow> bool \<Rightarrow> string list \<Rightarrow> 'm file_source \<Rightarrow> go_error option \<times> 'm file_source" where
  "FileSource_PostInit E F enabled [] f = (None, f)"
| "FileSource_PostInit E F enabled (p # ps) f =
     (if \<not> enabled then (None, f)
      else (case loadDatabaseSources E F p f of
              (Some e, f1) \<Rightarrow> (Some e, f1)
            | (None, f1) \<Rightarrow> FileSource_PostInit E F enabled ps f1))"

definition removeDatabaseSource :: "'m source_env \<Rightarrow> string \<Rightarrow> 'm file_source \<Rightarrow> 'm file_source" where
  "removeDatabaseSource E path f =
     (case fh_sourceMap f path of
        None \<Rightarrow> f
      | Some name \<Rightarrow>
          f\<lparr>fh_sourceMap := (fh_sourceMap f)(path := None), fh_handler := MarkDatabaseSourceIdle E name (fh_handler f)\<rparr>)"

text \<open>The operation of an fsnotify event is a bit set; the switch compares it as a whole.\<close>

definition FileSource_Handle ::
    "'m source_env \<Rightarrow> file_system \<Rightarrow> 32 word \<Rightarrow> string \<Rightarrow> 'm file_source \<Rightarrow> 'm file_source" where
  "FileSource_Handle E F op name f =
     (if op = 1 \<or> op = 2 then snd (loadDatabaseSourceFromFile E F name f)
      else if op = 4 \<or> op = 8 then removeDatabaseSource E name f
      else f)"

definition FilesToWatch :: "bool \<Rightarrow> string list \<Rightarrow> string list" where
  "FilesToWatch enabled paths = (if \<not> enabled then [] else paths)"

section \<open>The retry delay\<close>

text \<open>The delays in the order they are used; the last one is kept.\<close>

definition retry_schedule :: "nat \<Rightarrow> int" where
  "retry_schedule n = [2, 3, 5, 10, 20, 40, 80, 160, 320, 640, 1280, 2560, 5120] ! min n 12"

definition retries :: "nat \<Rightarrow> DatabaseSource \<Rightarrow> DatabaseSource" where
  "retries n s = ((\<lambda>x. snd (NextRetryDelay x)) ^^ n) (ResetRetryDelay s)"

lemma retry_min_cases: "min n 12 \<in> {0, 1, 2, 3, 4, 5, 6, 7, 8, 9, 10, 11, 12::nat}"
  by (simp add: min_def) presburger

lemma retry_schedule_Suc:
  "retry_schedule (Suc n) = (if retry_schedule n = 2 then 3 else if retry_schedule n = 3 then 5
     else if retry_schedule n < 3600 then 2 * retry_schedule n else retry_schedule n)"
proof (cases "n < 12")
  case True
  have "list_all (\<lambda>k. retry_schedule (Suc k) =
     (if retry_schedule k = 2 then 3 else if retry_schedule k = 3 then 5
      else if retry_schedule k < 3600 then 2 * retry_schedule k else retry_schedule k)) [0..<12]"
    by (simp add: retry_schedule_def upt_rec)
  then show ?thesis using True by (simp add: list_all_iff)
next
  case False then show ?thesis by (simp add: retry_schedule_def)
qed

lemma retry_schedule_values: "retry_schedule n \<in> {2, 3, 5, 10, 20, 40, 80, 160, 320, 640, 1280, 2560, 5120}"
  using retry_min_cases[of n] by (auto simp: retry_schedule_def)

lemma NextRetryDelay_schedule:
  assumes "so_RetryDelay s = (if n = 0 then 0 else word_of_int (retry_schedule (n - 1)))"
  shows "so_RetryDelay (snd (NextRetryDelay s)) = word_of_int (retry_schedule n)"
    and "sint (fst (NextRetryDelay s)) = retry_schedule n * second"
  subgoal
  proof (cases n)
    case 0 then show ?thesis using assms by (simp add: NextRetryDelay_def Let_def retry_schedule_def)
  next
    case (Suc m)
    then show ?thesis using assms retry_schedule_values[of m] retry_schedule_Suc[of m]
      by (auto simp: NextRetryDelay_def Let_def word_sless_alt)
  qed
  subgoal
  proof (cases n)
    case 0 then show ?thesis using assms by (simp add: NextRetryDelay_def Let_def retry_schedule_def)
  next
    case (Suc m)
    then show ?thesis using assms retry_schedule_values[of m] retry_schedule_Suc[of m]
      by (auto simp: NextRetryDelay_def Let_def word_sless_alt)
  qed
  done

lemma retries_state:
  "so_RetryDelay (retries n s) = (if n = 0 then 0 else word_of_int (retry_schedule (n - 1))) \<and>
   so_RetryTimes (retries n s) = of_nat n"
proof (induction n)
  case 0 show ?case by (simp add: retries_def ResetRetryDelay_def)
next
  case (Suc n)
  have "retries (Suc n) s = snd (NextRetryDelay (retries n s))" by (simp add: retries_def)
  moreover have "so_RetryTimes (snd (NextRetryDelay x)) = so_RetryTimes x + 1" for x
    by (simp add: NextRetryDelay_def Let_def)
  ultimately show ?case using Suc NextRetryDelay_schedule(1)[of "retries n s" n] by simp
qed

text \<open>
  C33. After a reset, the n-th retry is delayed by the n-th entry of the table, in nanoseconds and
  without overflow: 2, 3, 5, 10 seconds, doubling up to 5120 seconds, where it stays; and the retries
  are counted.
\<close>

theorem retry_delays_follow_schedule:
  "sint (fst (NextRetryDelay (retries n s))) = retry_schedule n * second \<and>
   so_RetryTimes (snd (NextRetryDelay (retries n s))) = of_nat (Suc n) \<and>
   so_RetryDelay (snd (NextRetryDelay (retries n s))) = word_of_int (retry_schedule n) \<and>
   retry_schedule n \<le> retry_schedule (Suc n) \<and> retry_schedule (n + 12) = 5120"
  using NextRetryDelay_schedule[of "retries n s" n] retries_state[of n s] retries_state[of "Suc n" s]
    retry_schedule_values[of n] retry_schedule_Suc[of n]
  by (auto simp: retries_def retry_schedule_def)

end
