(* ===== verification/Startup.thy ===== *)
theory Startup
  imports Sources
begin

text \<open>
  How the two programs start and stop: \<open>BaseServer\<close> (\<open>pkg/server/server.go\<close>), the file monitor
  (\<open>file_monitor.go\<close>), and the servers and global variables that \<open>internal/agent/agent.go\<close> and
  \<open>internal/server/server.go\<close> put together. Reading a global variable asserts its type, which panics
  when the variable is not set; the lemmas show that no start does.
\<close>

section \<open>BaseServer\<close>

text \<open>
  A server by its \<open>Init\<close>, which may set global variables, and its \<open>PostInit\<close>, which reads them;
  each may fail or panic. The trace names the calls by the position of the server.
\<close>

record 'v server =
  sv_Init :: "(string \<rightharpoonup> 'v) \<Rightarrow> (string \<rightharpoonup> 'v) \<times> unit outcome"
  sv_PostInit :: "(string \<rightharpoonup> 'v) \<Rightarrow> unit outcome"

datatype server_event = EvInit nat | EvPostInit nat | EvRun nat | EvShutdown nat

definition base_Set :: "string \<Rightarrow> 'v \<Rightarrow> (string \<rightharpoonup> 'v) \<Rightarrow> (string \<rightharpoonup> 'v)" where
  "base_Set key value g = g(key \<mapsto> value)"

definition base_Get :: "string \<Rightarrow> (string \<rightharpoonup> 'v) \<Rightarrow> 'v option" where
  "base_Get key g = g key"

fun init_servers :: "nat \<Rightarrow> 'v server list \<Rightarrow> (string \<rightharpoonup> 'v) \<Rightarrow> server_event list \<times> (string \<rightharpoonup> 'v) \<times> unit outcome" where
  "init_servers i [] g = ([], g, Ok ())"
| "init_servers i (s # ss) g =
     (case sv_Init s g of
        (g1, Ok u) \<Rightarrow> (case init_servers (Suc i) ss g1 of (evs, r) \<Rightarrow> (EvInit i # evs, r))
      | (g1, r) \<Rightarrow> ([EvInit i], g1, r))"

fun post_init_servers :: "nat \<Rightarrow> 'v server list \<Rightarrow> (string \<rightharpoonup> 'v) \<Rightarrow> server_event list \<times> unit outcome" where
  "post_init_servers i [] g = ([], Ok ())"
| "post_init_servers i (s # ss) g =
     (case sv_PostInit s g of
        Ok u \<Rightarrow> (case post_init_servers (Suc i) ss g of (evs, r) \<Rightarrow> (EvPostInit i # evs, r))
      | r \<Rightarrow> ([EvPostInit i], r))"

text \<open>\<open>g0\<close> holds what was set before.\<close>

definition base_Init :: "(string \<rightharpoonup> 'v) \<Rightarrow> 'v server list \<Rightarrow> server_event list \<times> (string \<rightharpoonup> 'v) \<times> unit outcome" where
  "base_Init g0 servers =
     (case init_servers 0 servers g0 of
        (evs, g, Ok u) \<Rightarrow> (case post_init_servers 0 servers g of (evs2, r) \<Rightarrow> (evs @ evs2, g, r))
      | (evs, g, r) \<Rightarrow> (evs, g, r))"

text \<open>\<open>Run\<close> starts every server, waits for the quit context, and stops them in reverse.\<close>

definition base_Shutdown :: "'v server list \<Rightarrow> server_event list" where
  "base_Shutdown servers = map EvShutdown (rev [0..<length servers])"

definition base_Run :: "'v server list \<Rightarrow> server_event list" where
  "base_Run servers = map EvRun [0..<length servers] @ base_Shutdown servers"

lemma upt_length_Cons: "[i..<i + length (s # ss)] = i # [Suc i..<Suc i + length ss]"
  by (simp add: upt_conv_Cons del: upt_Suc)

lemma init_servers_ok:
  "init_servers i ss g = (evs, g', Ok ()) \<Longrightarrow> evs = map EvInit [i..<i + length ss]"
proof (induction ss arbitrary: i g evs)
  case (Cons s ss)
  then obtain g1 es where "sv_Init s g = (g1, Ok ())" and r: "init_servers (Suc i) ss g1 = (es, g', Ok ())"
    and e: "evs = EvInit i # es"
    by (auto split: prod.splits outcome.splits)
  show ?case unfolding upt_length_Cons e Cons.IH [OF r] by simp
qed simp

lemma post_init_servers_ok:
  "post_init_servers i ss g = (evs, Ok ()) \<Longrightarrow>
     evs = map EvPostInit [i..<i + length ss] \<and> (\<forall>s \<in> set ss. sv_PostInit s g = Ok ())"
proof (induction ss arbitrary: i evs)
  case (Cons s ss)
  then obtain es where "sv_PostInit s g = Ok ()" and r: "post_init_servers (Suc i) ss g = (es, Ok ())"
    and e: "evs = EvPostInit i # es"
    by (auto split: prod.splits outcome.splits)
  then show ?case unfolding upt_length_Cons e using Cons.IH [OF r] by simp
qed simp

text \<open>
  When \<open>Init\<close> succeeds, every server was initialised before any was post-initialised, each saw
  the final global variables, and \<open>Run\<close> stops the servers in the reverse order.
\<close>

theorem base_server_order:
  assumes "base_Init g0 ss = (evs, g, Ok ())"
  shows "evs = map EvInit [0..<length ss] @ map EvPostInit [0..<length ss] \<and>
    (\<forall>s \<in> set ss. sv_PostInit s g = Ok ()) \<and>
    base_Run ss = map EvRun [0..<length ss] @ map EvShutdown (rev [0..<length ss])"
proof -
  obtain e1 g1 where i: "init_servers 0 ss g0 = (e1, g1, Ok ())"
    using assms by (auto simp: base_Init_def split: prod.splits outcome.splits)
  obtain e2 r where p: "post_init_servers 0 ss g1 = (e2, r)" by (cases "post_init_servers 0 ss g1")
  from assms i p have "g = g1" "r = Ok ()" "evs = e1 @ e2" by (simp_all add: base_Init_def)
  with init_servers_ok [OF i] post_init_servers_ok [of 0 ss g1 e2] p show ?thesis
    by (simp add: base_Run_def base_Shutdown_def)
qed

theorem base_server_order_witness:
  "fst (base_Init Map.empty [\<lparr>sv_Init = (\<lambda>g. (g(''k'' \<mapsto> (1::nat)), Ok ())), sv_PostInit = (\<lambda>g. Ok ())\<rparr>,
     \<lparr>sv_Init = (\<lambda>g. (g, Ok ())), sv_PostInit = (\<lambda>g. if g ''k'' = Some 1 then Ok () else Panicked)\<rparr>])
   = [EvInit 0, EvInit 1, EvPostInit 0, EvPostInit 1]"
proof -
  have "base_Init Map.empty [\<lparr>sv_Init = (\<lambda>g. (g(''k'' \<mapsto> (1::nat)), Ok ())), sv_PostInit = (\<lambda>g. Ok ())\<rparr>,
     \<lparr>sv_Init = (\<lambda>g. (g, Ok ())), sv_PostInit = (\<lambda>g. if g ''k'' = Some 1 then Ok () else Panicked)\<rparr>]
   = ([EvInit 0, EvInit 1, EvPostInit 0, EvPostInit 1], [''k'' \<mapsto> 1], Ok ())"
    by (simp add: base_Init_def)
  from base_server_order [OF this] this show ?thesis by (simp add: upt_rec)
qed

section \<open>Global variables\<close>

text \<open>The values the programs store, by the type they are asserted to be.\<close>

datatype global =
    GContext string
  | GDbApi
  | GGrpcClient
  | GProducer string
  | GSourceHandler
  | GDbInstanceManager

fun is_Context :: "global \<Rightarrow> bool" where
  "is_Context (GContext n) = True"
| "is_Context v = False"

fun is_Producer :: "global \<Rightarrow> bool" where
  "is_Producer (GProducer n) = True"
| "is_Producer v = False"

text \<open>\<open>getter.Get(key).(T)\<close> for several keys, then the rest of \<open>PostInit\<close>.\<close>

fun assert_globals :: "(string \<times> (global \<Rightarrow> bool)) list \<Rightarrow> unit outcome \<Rightarrow> (string \<rightharpoonup> global) \<Rightarrow> unit outcome" where
  "assert_globals [] rest g = rest"
| "assert_globals ((key, is_type) # keys) rest g =
     (case base_Get key g of
        None \<Rightarrow> Panicked
      | Some v \<Rightarrow> if is_type v then assert_globals keys rest g else Panicked)"

fun of_error :: "go_error option \<Rightarrow> unit outcome" where
  "of_error None = Ok ()"
| "of_error (Some e) = Fail e"

definition plain_server :: "global server" where
  "plain_server = \<lparr>sv_Init = (\<lambda>g. (g, Ok ())), sv_PostInit = (\<lambda>g. Ok ())\<rparr>"

definition SignalServer :: "global server" where
  "SignalServer = plain_server\<lparr>sv_Init := (\<lambda>g. (base_Set ''quit_ctx'' (GContext ''quit'') g, Ok ()))\<rparr>"

text \<open>A consumer initialises and post-initialises its handler.\<close>

definition consumer_server :: "global server \<Rightarrow> global server" where
  "consumer_server handler = \<lparr>sv_Init = sv_Init handler, sv_PostInit = sv_PostInit handler\<rparr>"

section \<open>The agent\<close>

text \<open>The results of the calls that reach outside: the pool, the migration, the recovery, the client.\<close>

record agent_startup =
  as_NewDbApi :: "go_error option"
  as_MigrateDB :: "go_error option"
  as_recoverJobs :: "go_error option"
  as_initGrpcClient :: "go_error option"

definition DbStatusSender_server :: "global server" where
  "DbStatusSender_server = plain_server\<lparr>sv_PostInit :=
     assert_globals [(''grpc_client'', \<lambda>v. v = GGrpcClient), (''conn_ctx'', is_Context)] (Ok ())\<rparr>"

definition DbTaskHandler_server :: "agent_startup \<Rightarrow> global server" where
  "DbTaskHandler_server A =
     \<lparr>sv_Init = (\<lambda>g. case as_NewDbApi A of
          Some e \<Rightarrow> (g, Fail e)
        | None \<Rightarrow> (base_Set ''conn_ctx'' (GContext ''conn'') (base_Set ''db_api'' GDbApi g), Ok ())),
      sv_PostInit = assert_globals
        [(''notify_db_status_producer'', is_Producer), (''job_producer'', is_Producer), (''quit_ctx'', is_Context)]
        (case as_MigrateDB A of Some e \<Rightarrow> Fail e | None \<Rightarrow> of_error (as_recoverJobs A))\<rparr>"

definition JobHandler_server :: "global server" where
  "JobHandler_server = plain_server\<lparr>sv_PostInit := assert_globals [(''ready_to_run_job_producer'', is_Producer)] (Ok ())\<rparr>"

definition GrpcAgentServer_server :: "agent_startup \<Rightarrow> global server" where
  "GrpcAgentServer_server A =
     \<lparr>sv_Init = (\<lambda>g. case as_initGrpcClient A of
          Some e \<Rightarrow> (g, Fail e) | None \<Rightarrow> (base_Set ''grpc_client'' GGrpcClient g, Ok ())),
      sv_PostInit = assert_globals [(''db_api'', \<lambda>v. v = GDbApi), (''job_producer'', is_Producer)] (Ok ())\<rparr>"

definition New_agent :: "agent_startup \<Rightarrow> (string \<rightharpoonup> global) \<times> global server list" where
  "New_agent A =
     (base_Set ''job_producer'' (GProducer ''Pending Job Handler'')
        (base_Set ''ready_to_run_job_producer'' (GProducer ''Db Job Handler'')
          (base_Set ''notify_db_status_producer'' (GProducer ''Db Status Notifier'') Map.empty)),
      [SignalServer, consumer_server DbStatusSender_server, consumer_server (DbTaskHandler_server A),
       consumer_server JobHandler_server, GrpcAgentServer_server A])"

section \<open>The server\<close>

text \<open>
  The configuration of the file source, and the results of making the watcher, loading the sources and
  watching the files.
\<close>

record server_startup =
  su_Enabled :: bool
  su_FilePaths :: "string list"
  su_NewWatcher :: "go_error option"
  su_loadSources :: "go_error option"
  su_watch :: "string \<Rightarrow> go_error option"

definition GrpcServer_server :: "global server" where
  "GrpcServer_server = plain_server\<lparr>sv_Init :=
     (\<lambda>g. (base_Set ''db_ready_waiter'' GDbInstanceManager (base_Set ''db_manager'' GDbInstanceManager g), Ok ()))\<rparr>"

definition SourceHandler_server :: "global server" where
  "SourceHandler_server = plain_server\<lparr>sv_PostInit := assert_globals
     [(''cron_producer'', is_Producer), (''source_producer'', is_Producer), (''db_manager'', \<lambda>v. v = GDbInstanceManager)] (Ok ())\<rparr>"

text \<open>The files are watched one by one, and the first that fails ends it.\<close>

fun watch_files :: "(string \<Rightarrow> go_error option) \<Rightarrow> string list \<Rightarrow> unit outcome" where
  "watch_files watch [] = Ok ()"
| "watch_files watch (file # files) = (case watch file of Some e \<Rightarrow> Fail e | None \<Rightarrow> watch_files watch files)"

definition FileMonitor_Init :: "server_startup \<Rightarrow> unit outcome" where
  "FileMonitor_Init S =
     (case FileSource_Init (su_Enabled S) (su_FilePaths S) of
        Some e \<Rightarrow> Fail e
      | None \<Rightarrow> of_error (su_NewWatcher S))"

definition FileMonitor_PostInit :: "server_startup \<Rightarrow> unit outcome" where
  "FileMonitor_PostInit S =
     (case if su_Enabled S then su_loadSources S else None of
        Some e \<Rightarrow> Fail e
      | None \<Rightarrow> watch_files (su_watch S) (FilesToWatch (su_Enabled S) (su_FilePaths S)))"

definition FileMonitor_server :: "server_startup \<Rightarrow> global server" where
  "FileMonitor_server S = \<lparr>sv_Init = (\<lambda>g. (g, FileMonitor_Init S)), sv_PostInit = (\<lambda>g. FileMonitor_PostInit S)\<rparr>"

definition WebServer_server :: "global server" where
  "WebServer_server = plain_server\<lparr>sv_PostInit := assert_globals
     [(''source_handler'', \<lambda>v. v = GSourceHandler), (''db_ready_waiter'', \<lambda>v. v = GDbInstanceManager)] (Ok ())\<rparr>"

definition New_server :: "server_startup \<Rightarrow> (string \<rightharpoonup> global) \<times> global server list" where
  "New_server S =
     (base_Set ''source_handler'' GSourceHandler
        (base_Set ''source_producer'' (GProducer ''Source Manager'')
          (base_Set ''cron_producer'' (GProducer ''cron'') Map.empty)),
      [SignalServer, plain_server, GrpcServer_server, consumer_server SourceHandler_server,
       FileMonitor_server S, WebServer_server])"

section \<open>The file monitor\<close>

text \<open>What the select of its loop sees; a closed channel ends it.\<close>

datatype monitor_event = FileEvent "32 word" string | WatchError go_error | WatcherClosed

fun FileMonitor_Run ::
    "(32 word \<Rightarrow> string \<Rightarrow> 's \<Rightarrow> 's) \<Rightarrow> (go_error \<Rightarrow> 's \<Rightarrow> 's) \<Rightarrow> monitor_event list \<Rightarrow> 's \<Rightarrow> 's" where
  "FileMonitor_Run Handle OnWatchError [] s = s"
| "FileMonitor_Run Handle OnWatchError (WatcherClosed # events) s = s"
| "FileMonitor_Run Handle OnWatchError (FileEvent op name # events) s =
     FileMonitor_Run Handle OnWatchError events (Handle op name s)"
| "FileMonitor_Run Handle OnWatchError (WatchError e # events) s =
     FileMonitor_Run Handle OnWatchError events (OnWatchError e s)"

section \<open>Starting never panics\<close>

fun first_error :: "go_error option list \<Rightarrow> unit outcome" where
  "first_error [] = Ok ()"
| "first_error (None # rest) = first_error rest"
| "first_error (Some e # rest) = Fail e"

lemmas start_simps = base_Init_def base_Set_def base_Get_def plain_server_def SignalServer_def consumer_server_def

text \<open>
  The agent starts: its start fails exactly with the first error of what it asks for outside, the
  pool, the client, the migration and the recovery, in this order, and otherwise succeeds; no global
  variable is read that was not set, whatever the order of the servers, since all are initialised
  before any is post-initialised.
\<close>

theorem agent_starts:
  "snd (snd (base_Init (fst (New_agent A)) (snd (New_agent A)))) =
     first_error [as_NewDbApi A, as_initGrpcClient A, as_MigrateDB A, as_recoverJobs A]"
  by (cases "as_NewDbApi A"; cases "as_initGrpcClient A"; cases "as_MigrateDB A"; cases "as_recoverJobs A")
    (simp_all add: New_agent_def start_simps DbStatusSender_server_def DbTaskHandler_server_def JobHandler_server_def
      GrpcAgentServer_server_def)

lemma watch_files_eq: "watch_files watch files = first_error (map watch files)"
  by (induction files) (auto split: option.split)

theorem server_starts:
  "snd (snd (base_Init (fst (New_server S)) (snd (New_server S)))) =
     first_error ([if su_Enabled S \<and> su_FilePaths S = [] then Some (ErrNew ''no file paths provided'') else None,
        su_NewWatcher S] @ (if su_Enabled S then su_loadSources S # map (su_watch S) (su_FilePaths S) else []))"
  by (cases "su_Enabled S \<and> su_FilePaths S = []"; cases "su_NewWatcher S"; cases "su_loadSources S";
      cases "watch_files (su_watch S) (FilesToWatch (su_Enabled S) (su_FilePaths S))")
    (simp_all add: New_server_def start_simps GrpcServer_server_def SourceHandler_server_def FileMonitor_server_def
      FileMonitor_Init_def FileMonitor_PostInit_def WebServer_server_def FileSource_Init_def FilesToWatch_def
      watch_files_eq split: if_splits)

end
