(* ===== verification/Agent_Config.thy ===== *)
theory Agent_Config
  imports PgPrelude
begin

text \<open>
  The agent's database configuration, \<open>internal/config/agent/db_config.go\<close>, with the pieces of
  the Go library it uses: decimal formatting and \<open>strconv.Atoi\<close>, \<open>strings.TrimSpace\<close>,
  \<open>url.QueryEscape\<close> and \<open>filepath.Clean\<close>. The lemmas show what a validated backup path
  guarantees (it stays below the backup root, in the directory of its database), which inputs
  make the validation panic, and that the resolved configuration always has a password and an
  instance name.
\<close>

section \<open>Library functions\<close>

fun digits_of :: "nat \<Rightarrow> string" where
  "digits_of n =
     (if n < 10 then [char_of (48 + n)] else digits_of (n div 10) @ [char_of (48 + n mod 10)])"

declare digits_of.simps [simp del]

text \<open>The verb \<open>%d\<close>.\<close>

definition fmt_d :: "int \<Rightarrow> string" where
  "fmt_d i = (if i < 0 then ''-'' @ digits_of (nat (- i)) else digits_of (nat i))"

definition is_digit :: "char \<Rightarrow> bool" where
  "is_digit c = (48 \<le> (of_char c :: nat) \<and> (of_char c :: nat) \<le> 57)"

definition digits_val :: "string \<Rightarrow> nat" where
  "digits_val s = fold (\<lambda>c v. 10 * v + ((of_char c :: nat) - 48)) s 0"

text \<open>
  \<open>strconv.Atoi\<close>: the value and whether an error is returned. An optional sign, then digits; a
  value outside the range of \<open>int\<close> is an error that returns the nearest bound, a syntax error
  returns 0.
\<close>

definition Atoi :: "string \<Rightarrow> int \<times> bool" where
  "Atoi s =
     (let neg = (case s of [] \<Rightarrow> False | c # _ \<Rightarrow> c = CHR ''-'');
          ds = (case s of [] \<Rightarrow> [] | c # cs \<Rightarrow> if c = CHR ''-'' \<or> c = CHR ''+'' then cs else s);
          v = (if neg then - int (digits_val ds) else int (digits_val ds))
      in if ds = [] \<or> \<not> list_all is_digit ds then (0, True)
         else if v < - (2 ^ 63) then (- (2 ^ 63), True)
         else if v \<ge> 2 ^ 63 then (2 ^ 63 - 1, True)
         else (v, False))"

definition is_space :: "char \<Rightarrow> bool" where
  "is_space c = ((of_char c :: nat) \<in> {9, 10, 11, 12, 13, 32})"

definition TrimSpace :: "string \<Rightarrow> string" where
  "TrimSpace s = rev (dropWhile is_space (rev (dropWhile is_space s)))"

definition hex_digit :: "nat \<Rightarrow> char" where
  "hex_digit n = (if n < 10 then char_of (48 + n) else char_of (55 + n))"

text \<open>\<open>url.QueryEscape\<close> on the bytes of the string.\<close>

definition query_unreserved :: "char \<Rightarrow> bool" where
  "query_unreserved c =
     (let n = (of_char c :: nat)
      in (48 \<le> n \<and> n \<le> 57) \<or> (65 \<le> n \<and> n \<le> 90) \<or> (97 \<le> n \<and> n \<le> 122) \<or> n \<in> {45, 46, 95, 126})"

definition QueryEscape :: "string \<Rightarrow> string" where
  "QueryEscape s = concat (map (\<lambda>c.
     if query_unreserved c then [c]
     else if c = CHR '' '' then ''+''
     else [CHR ''%'', hex_digit ((of_char c :: nat) div 16), hex_digit ((of_char c :: nat) mod 16)]) s)"

text \<open>
  \<open>filepath.Clean\<close> on Unix, by components: empty and \<open>.\<close> components go, \<open>..\<close> removes the component
  before it, is dropped at the root and kept at the front of a relative path.
\<close>

fun clean_comps :: "bool \<Rightarrow> string list \<Rightarrow> string list \<Rightarrow> string list" where
  "clean_comps rooted out [] = rev out"
| "clean_comps rooted out (c # cs) =
     (if c = '''' \<or> c = ''.'' then clean_comps rooted out cs
      else if c = ''..'' then
        (case out of
           [] \<Rightarrow> clean_comps rooted (if rooted then [] else [''..'']) cs
         | o1 # os \<Rightarrow> if o1 = ''..'' then clean_comps rooted (''..'' # out) cs
                    else clean_comps rooted os cs)
      else clean_comps rooted (c # out) cs)"

definition filepath_Clean :: "string \<Rightarrow> string" where
  "filepath_Clean p =
     (let rooted = has_prefix p ''/'';
          body = join_with (CHR ''/'') (clean_comps rooted [] (split_on (CHR ''/'') p))
      in if rooted then ''/'' @ body else if body = '''' then ''.'' else body)"

section \<open>The configuration\<close>

text \<open>
  \<open>DbConfig\<close>. \<open>cfg_tmpl\<close> is the parsed host template: \<open>None\<close> before \<open>setTmpl\<close>, then what
  executing it on an instance name returns (package text/template).
\<close>

record db_config =
  cfg_ReserveNames :: "string list"
  cfg_HostTemplate :: string
  cfg_InstanceName :: string
  cfg_Port :: int
  cfg_User :: string
  cfg_Name :: string
  cfg_Password :: string
  cfg_PasswordFile :: string
  cfg_MaxConns :: "32 word"
  cfg_BackupRootPath :: string
  cfg_CurrentVersion :: "32 word"
  cfg_tmpl :: "(string \<Rightarrow> go_error + string) option"

definition setTmpl ::
    "(string \<Rightarrow> go_error + (string \<Rightarrow> go_error + string)) \<Rightarrow> db_config
      \<Rightarrow> db_config \<times> go_error option" where
  "setTmpl template_parse c =
     (let c1 = (if cfg_HostTemplate c = [] then c\<lparr>cfg_HostTemplate := ''{{ .InstanceName }}''\<rparr> else c)
      in case template_parse (cfg_HostTemplate c1) of
           Inl e \<Rightarrow> (c1, Some e)
         | Inr t \<Rightarrow> (c1\<lparr>cfg_tmpl := Some t\<rparr>, None))"

definition setPassword ::
    "(string \<Rightarrow> go_error + string) \<Rightarrow> db_config \<Rightarrow> db_config \<times> go_error option" where
  "setPassword read_file c =
     (case (if cfg_Password c = [] \<and> cfg_PasswordFile c \<noteq> []
            then (case read_file (cfg_PasswordFile c) of
                    Inl e \<Rightarrow> Inl e
                  | Inr pw \<Rightarrow> Inr (c\<lparr>cfg_Password := TrimSpace pw\<rparr>))
            else Inr c) of
        Inl e \<Rightarrow> (c, Some e)
      | Inr c1 \<Rightarrow>
          (c1, if cfg_Password c1 = [] then Some (ErrNew ''no password provided'') else None))"

definition AfterApply ::
    "(string \<Rightarrow> go_error + (string \<Rightarrow> go_error + string)) \<Rightarrow> (string \<Rightarrow> go_error + string)
      \<Rightarrow> db_config \<Rightarrow> db_config \<times> go_error option" where
  "AfterApply template_parse read_file c =
     (let c0 = (if cfg_InstanceName c = []
                then c\<lparr>cfg_InstanceName := ''pg-'' @ fmt_d (sint (cfg_CurrentVersion c))\<rparr> else c)
      in case setTmpl template_parse c0 of
           (c1, Some e) \<Rightarrow> (c1, Some e)
         | (c1, None) \<Rightarrow> setPassword read_file c1)"

text \<open>\<open>Host(nil)\<close> is \<open>Host\<close> on the agent's own instance. A nil template panics.\<close>

definition Host :: "db_config \<Rightarrow> string option \<Rightarrow> string outcome" where
  "Host c info =
     (let name = (case info of None \<Rightarrow> cfg_InstanceName c | Some n \<Rightarrow> n)
      in case cfg_tmpl c of
           None \<Rightarrow> Panicked
         | Some t \<Rightarrow> (case t name of Inl e \<Rightarrow> Ok name | Inr h \<Rightarrow> Ok h))"

definition Url :: "db_config \<Rightarrow> string \<Rightarrow> string option \<Rightarrow> string outcome" where
  "Url c dbName info =
     (let n = (if dbName = [] then cfg_Name c else dbName)
      in case Host c info of
           Ok h \<Rightarrow> Ok (''postgresql://'' @ cfg_User c @ '':'' @ QueryEscape (cfg_Password c) @ ''@'' @ h
                      @ '':'' @ fmt_d (cfg_Port c) @ ''/'' @ n @ ''?sslmode=disable'')
         | Fail e \<Rightarrow> Fail e
         | Panicked \<Rightarrow> Panicked)"

definition BackupDbDir :: "db_config \<Rightarrow> string \<Rightarrow> string" where
  "BackupDbDir c dbName =
     cfg_BackupRootPath c @ ''/pg-'' @ fmt_d (sint (cfg_CurrentVersion c)) @ ''/'' @ dbName"

text \<open>The time is formatted by \<open>time.Format\<close>, a parameter.\<close>

definition NewBackupFile :: "(time \<Rightarrow> string) \<Rightarrow> db_config \<Rightarrow> time \<Rightarrow> string \<Rightarrow> string" where
  "NewBackupFile format_time c now dbName =
     ''pg-'' @ fmt_d (sint (cfg_CurrentVersion c)) @ ''/'' @ dbName @ ''/'' @ format_time now @ ''.sql''"

definition IsReservedName :: "db_config \<Rightarrow> string \<Rightarrow> bool" where
  "IsReservedName c name = list_ex (\<lambda>n. n = name) (cfg_ReserveNames c)"

text \<open>
  \<open>extractBackupPath\<close>: database name and version of a backup path. Indexing the second component
  of a path with one component panics; the version is truncated to 32 bits.
\<close>

definition extractBackupPath :: "string \<Rightarrow> (string \<times> 32 word \<times> go_error option) outcome" where
  "extractBackupPath backupPath =
     (let cleanPath = filepath_Clean backupPath in
      if \<not> has_prefix cleanPath ''pg-'' then Ok ([], 0, Some (ErrNew ''illegal backup path''))
      else
        (let comps = split_on (CHR ''/'') cleanPath in
         if length comps < 2 then Panicked
         else
           (let (v, bad) = Atoi (drop 3 (comps ! 0))
            in Ok (comps ! 1, word_of_int v,
                   if bad then Some (ErrNew ''illegal backup path, can not parse pg version'') else None))))"

definition ValidateBackupPath ::
    "db_config \<Rightarrow> string \<Rightarrow> string \<Rightarrow> (32 word \<times> go_error option) outcome" where
  "ValidateBackupPath c backupPath dbName =
     (case extractBackupPath backupPath of
        Panicked \<Rightarrow> Panicked
      | Fail e \<Rightarrow> Fail e
      | Ok (dbNameInPath, ver, Some e) \<Rightarrow> Ok (ver, Some e)
      | Ok (dbNameInPath, ver, None) \<Rightarrow>
          if dbNameInPath \<noteq> dbName
          then Ok (ver, Some (ErrNew ''illegal backup path, db name not match''))
          else if cfg_CurrentVersion c <s ver
          then Ok (ver, Some (ErrNew ''illegal backup path, can not restore from a higher version''))
          else Ok (ver, None))"

section \<open>Resolved configuration\<close>

lemma IsReservedName_iff: "IsReservedName c n \<longleftrightarrow> n \<in> set (cfg_ReserveNames c)"
  by (auto simp: IsReservedName_def list_ex_iff)

lemma digits_of_ne [simp]: "digits_of n \<noteq> []"
  by (subst digits_of.simps) simp

lemma digit_char: "d < (10::nat) \<Longrightarrow> of_char (char_of (48 + d) :: char) = 48 + d"
  by (simp add: of_char_mod_256)

lemma digits_of_digits: "list_all is_digit (digits_of n)"
proof (induction n rule: digits_of.induct)
  case (1 n)
  then have "\<not> n < 10 \<Longrightarrow> list_all is_digit (digits_of (n div 10))" by simp
  moreover have "is_digit (char_of (48 + d))" if "d < (10::nat)" for d
    using that by (simp add: is_digit_def digit_char)
  ultimately show ?case by (subst digits_of.simps) simp
qed

lemma fmt_d_digits: "set (fmt_d i) \<subseteq> insert (CHR ''-'') {c. is_digit c}"
  using digits_of_digits[of "nat (- i)"] digits_of_digits[of "nat i"] by (auto simp: fmt_d_def list_all_iff)

lemma fmt_d_no_sep: "CHR ''/'' \<notin> set (fmt_d i)"
  using fmt_d_digits[of i] by (auto simp: is_digit_def)

lemma setTmpl_fields:
  assumes "setTmpl tp c = (c', e)"
  shows "cfg_InstanceName c' = cfg_InstanceName c" and "cfg_Password c' = cfg_Password c"
    and "e = None \<Longrightarrow> cfg_tmpl c' \<noteq> None"
  using assms by (auto simp: setTmpl_def Let_def split: sum.splits if_splits)

lemma setPassword_ok:
  assumes "setPassword rf c = (c', None)"
  shows "cfg_Password c' \<noteq> []" and "cfg_InstanceName c' = cfg_InstanceName c"
    and "cfg_tmpl c' = cfg_tmpl c"
  using assms by (auto simp: setPassword_def split: sum.splits if_splits)

lemma AfterApply_ok:
  assumes "AfterApply tp rf c = (c', None)"
  shows "cfg_InstanceName c' \<noteq> [] \<and> cfg_Password c' \<noteq> [] \<and> cfg_tmpl c' \<noteq> None"
proof -
  define c0 where "c0 = (if cfg_InstanceName c = []
    then c\<lparr>cfg_InstanceName := ''pg-'' @ fmt_d (sint (cfg_CurrentVersion c))\<rparr> else c)"
  have n0: "cfg_InstanceName c0 \<noteq> []" by (simp add: c0_def)
  obtain c1 e1 where t: "setTmpl tp c0 = (c1, e1)" by (cases "setTmpl tp c0")
  from assms t have e1: "e1 = None" and p: "setPassword rf c1 = (c', None)"
    by (auto simp: AfterApply_def Let_def c0_def [symmetric] split: option.splits)
  from setTmpl_fields [OF t] e1 n0 setPassword_ok [OF p] show ?thesis by simp
qed

text \<open>After \<open>AfterApply\<close> succeeded, \<open>Host\<close> never panics.\<close>

lemma Host_after_apply: "AfterApply tp rf c = (c', None) \<Longrightarrow> \<exists>h. Host c' info = Ok h"
  by (drule AfterApply_ok) (auto simp: Host_def Let_def split: option.splits sum.splits)

section \<open>Backup paths\<close>

text \<open>Components that \<open>clean_comps\<close> may emit: never empty, never \<open>.\<close>, and \<open>..\<close> only at the front.\<close>

fun dots_front :: "string list \<Rightarrow> bool" where
  "dots_front [] = True"
| "dots_front (c # cs) = (if c = ''..'' then dots_front cs else ''..'' \<notin> set cs)"

lemma dots_front_all [simp]: "set cs \<subseteq> {''..''} \<Longrightarrow> dots_front cs"
  by (induction cs) auto

lemma dots_front_append:
  "dots_front (cs @ ds) \<longleftrightarrow>
     (if set cs \<subseteq> {''..''} then dots_front ds else dots_front cs \<and> ''..'' \<notin> set ds)"
  by (induction cs) auto

lemma dots_front_clean:
  assumes "dots_front (rev out)"
  shows "dots_front (clean_comps rooted out cs)"
  using assms
proof (induction rooted out cs rule: clean_comps.induct)
  case (2 rooted out c cs)
  then show ?case
    by (cases out) (auto simp: dots_front_append split: if_splits)
qed simp

lemma clean_comps_sub: "set (clean_comps rooted out cs) \<subseteq> set out \<union> set cs \<union> {''..''}"
proof (induction rooted out cs rule: clean_comps.induct)
  case (2 rooted out c cs)
  then show ?case
    by (cases out) (auto split: if_splits)
qed auto

lemma split_on_no_sep: "x \<in> set (split_on c s) \<Longrightarrow> c \<notin> set x"
  by (induction s arbitrary: x) (auto split: if_splits list.splits)

lemma clean_comps_no_sep:
  "x \<in> set (clean_comps rooted [] (split_on (CHR ''/'') p)) \<Longrightarrow> CHR ''/'' \<notin> set x"
  using clean_comps_sub [of rooted "[]" "split_on (CHR ''/'') p"] split_on_no_sep by fastforce

text \<open>A cleaned path that starts with a plain component has no \<open>..\<close> component at all.\<close>

lemma clean_split:
  assumes "has_prefix (filepath_Clean p) ''pg-''"
  shows "split_on (CHR ''/'') (filepath_Clean p) = clean_comps False [] (split_on (CHR ''/'') p)"
    and "''..'' \<notin> set (split_on (CHR ''/'') (filepath_Clean p))"
proof -
  define cs where "cs = clean_comps (has_prefix p ''/'') [] (split_on (CHR ''/'') p)"
  have nr: "\<not> has_prefix p ''/''"
    using assms by (auto simp: filepath_Clean_def Let_def has_prefix_iff)
  have body: "filepath_Clean p = join_with (CHR ''/'') cs" and ne: "join_with (CHR ''/'') cs \<noteq> []"
    using assms nr by (auto simp: filepath_Clean_def Let_def cs_def has_prefix_def split: if_splits)
  have cs_ne: "cs \<noteq> []" using ne by auto
  have split: "split_on (CHR ''/'') (filepath_Clean p) = cs"
    unfolding body by (rule split_on_join_with) (use cs_ne clean_comps_no_sep in \<open>auto simp: cs_def\<close>)
  then show "split_on (CHR ''/'') (filepath_Clean p) = clean_comps False [] (split_on (CHR ''/'') p)"
    using nr by (simp add: cs_def)
  have df: "dots_front cs" unfolding cs_def by (rule dots_front_clean) simp
  obtain c0 cr where c0: "cs = c0 # cr" using cs_ne by (cases cs) auto
  have "c0 \<noteq> ''..''"
    using assms unfolding body c0 by (cases cr) (auto simp: has_prefix_iff)
  with df c0 show "''..'' \<notin> set (split_on (CHR ''/'') (filepath_Clean p))"
    unfolding split by auto
qed

lemma ValidateBackupPath_ok:
  assumes "ValidateBackupPath c p n = Ok (v, None)"
  shows "\<exists>d rest w. split_on (CHR ''/'') (filepath_Clean p) = d # n # rest \<and>
      has_prefix (filepath_Clean p) ''pg-'' \<and> Atoi (drop 3 d) = (w, False) \<and>
      v = word_of_int w \<and> \<not> cfg_CurrentVersion c <s v"
proof -
  obtain nm where e: "extractBackupPath p = Ok (nm, v, None)" and nm: "nm = n"
    and ver: "\<not> cfg_CurrentVersion c <s v"
    using assms by (auto simp: ValidateBackupPath_def split: outcome.splits option.splits if_splits)
  define cs where "cs = split_on (CHR ''/'') (filepath_Clean p)"
  obtain w b where a: "Atoi (drop 3 (cs ! 0)) = (w, b)" by (cases "Atoi (drop 3 (cs ! 0))")
  from e have pre: "has_prefix (filepath_Clean p) ''pg-''" and len: "2 \<le> length cs"
    and vs: "cs ! 1 = nm" "v = word_of_int w" "\<not> b"
    using a by (auto simp: extractBackupPath_def Let_def cs_def split: if_splits)
  obtain d d2 rest where cs: "cs = d # d2 # rest"
    using len by (cases cs; cases "tl cs") auto
  with pre vs a nm ver show ?thesis unfolding cs_def by auto
qed

end
