(* ===== verification/Config.thy ===== *)
theory Config
  imports Agent_Config
begin

text \<open>
  The configuration of the connections (\<open>internal/config\<close>): TLS of the agent and of the server, the
  token of the agent, the addresses to listen on, and the loading of keys and certificates
  (\<open>pkg/utils/crypto.go\<close>), with the libraries that read and parse them as parameters.
\<close>

section \<open>Keys and certificates\<close>

record pem_block =
  pb_Type :: string
  pb_Bytes :: string

definition LoadPublicKey ::
    "(string \<Rightarrow> go_error + string) \<Rightarrow> (string \<Rightarrow> pem_block option) \<Rightarrow> (string \<Rightarrow> go_error + 'k) \<Rightarrow> string \<Rightarrow> go_error + 'k" where
  "LoadPublicKey read_file pem_decode parse_public_key file =
     (case read_file file of
        Inl e \<Rightarrow> Inl e
      | Inr contents \<Rightarrow>
          (case pem_decode contents of
             None \<Rightarrow> Inl (ErrNew ''failed to decode PEM block containing public key'')
           | Some block \<Rightarrow>
               if pb_Type block \<noteq> ''PUBLIC KEY'' then Inl (ErrNew ''failed to decode PEM block containing public key'')
               else parse_public_key (pb_Bytes block)))"

text \<open>A pool takes what certificates the file holds, which may be none.\<close>

record ('cert, 'pool) tls_lib =
  tl_read_file :: "string \<Rightarrow> go_error + string"
  tl_key_pair :: "string \<Rightarrow> string \<Rightarrow> go_error + 'cert"
  tl_pool :: "string \<Rightarrow> 'pool"

definition LoadCert :: "('cert, 'pool) tls_lib \<Rightarrow> string \<Rightarrow> string \<Rightarrow> go_error + 'cert" where
  "LoadCert L certFile keyFile = tl_key_pair L certFile keyFile"

definition LoadCA :: "('cert, 'pool) tls_lib \<Rightarrow> string \<Rightarrow> go_error + 'pool" where
  "LoadCA L caCertFile = (case tl_read_file L caCertFile of Inl e \<Rightarrow> Inl e | Inr contents \<Rightarrow> Inr (tl_pool L contents))"

section \<open>TLS\<close>

text \<open>What the two programs set of \<open>tls.Config\<close>.\<close>

datatype client_auth = NoClientCert | RequireAndVerifyClientCert

record ('cert, 'pool) tls_settings =
  ts_Certificates :: "'cert list"
  ts_RootCAs :: "'pool option"
  ts_ClientCAs :: "'pool option"
  ts_ClientAuth :: client_auth

definition no_settings :: "('cert, 'pool) tls_settings" where
  "no_settings = \<lparr>ts_Certificates = [], ts_RootCAs = None, ts_ClientCAs = None, ts_ClientAuth = NoClientCert\<rparr>"

datatype ('cert, 'pool) transport = Insecure | WithTls "('cert, 'pool) tls_settings"

record agent_tls =
  at_Enabled :: bool
  at_ClientTrustedCaCerts :: string
  at_MTLSEnabled :: bool
  at_ClientCert :: string
  at_ClientKey :: string

definition agent_TlsConfig :: "('cert, 'pool) tls_lib \<Rightarrow> agent_tls \<Rightarrow> go_error + ('cert, 'pool) tls_settings option" where
  "agent_TlsConfig L t =
     (if \<not> at_Enabled t then Inr None
      else
        (case (if at_MTLSEnabled t
               then map_sum (\<lambda>e. e) (\<lambda>cert. no_settings\<lparr>ts_Certificates := [cert]\<rparr>) (LoadCert L (at_ClientCert t) (at_ClientKey t))
               else Inr no_settings) of
           Inl e \<Rightarrow> Inl e
         | Inr c \<Rightarrow>
             if at_ClientTrustedCaCerts t \<noteq> []
             then (case LoadCA L (at_ClientTrustedCaCerts t) of
                     Inl e \<Rightarrow> Inl e | Inr ca \<Rightarrow> Inr (Some (c\<lparr>ts_RootCAs := Some ca\<rparr>)))
             else Inr (Some c)))"

definition agent_Credentials :: "('cert, 'pool) tls_lib \<Rightarrow> agent_tls \<Rightarrow> go_error + ('cert, 'pool) transport" where
  "agent_Credentials L t =
     (if \<not> at_Enabled t then Inr Insecure
      else (case agent_TlsConfig L t of
              Inl e \<Rightarrow> Inl e
            | Inr c \<Rightarrow> Inr (WithTls (case c of None \<Rightarrow> no_settings | Some x \<Rightarrow> x))))"

record server_tls =
  st_Enabled :: bool
  st_ServerCert :: string
  st_ServerKey :: string
  st_MTLSEnabled :: bool
  st_TrustedCA :: string
  st_TrustedClientDomain :: string

definition server_TlsConfig :: "('cert, 'pool) tls_lib \<Rightarrow> server_tls \<Rightarrow> go_error + ('cert, 'pool) tls_settings option" where
  "server_TlsConfig L t =
     (if \<not> st_Enabled t then Inr None
      else
        (case LoadCert L (st_ServerCert t) (st_ServerKey t) of
           Inl e \<Rightarrow> Inl e
         | Inr cert \<Rightarrow>
             (let c = no_settings\<lparr>ts_Certificates := [cert]\<rparr>
              in if st_TrustedCA t \<noteq> []
                 then (case LoadCA L (st_TrustedCA t) of
                         Inl e \<Rightarrow> Inl e
                       | Inr ca \<Rightarrow> Inr (Some (c\<lparr>ts_ClientCAs := Some ca, ts_ClientAuth := RequireAndVerifyClientCert\<rparr>)))
                 else Inr (Some c))))"

definition server_Credentials :: "('cert, 'pool) tls_lib \<Rightarrow> server_tls \<Rightarrow> go_error + ('cert, 'pool) transport" where
  "server_Credentials L t =
     (if \<not> st_Enabled t then Inr Insecure
      else (case server_TlsConfig L t of
              Inl e \<Rightarrow> Inl e
            | Inr c \<Rightarrow> Inr (WithTls (case c of None \<Rightarrow> no_settings | Some x \<Rightarrow> x))))"

text \<open>
  The server asks for client certificates exactly when a trusted CA is set, whatever
  \<open>MTLSEnabled\<close> says; the agent presents one exactly when \<open>MTLSEnabled\<close> is set.
\<close>

lemma server_Credentials_mtls:
  "server_Credentials L t = Inr (WithTls c) \<Longrightarrow> (ts_ClientAuth c = RequireAndVerifyClientCert \<longleftrightarrow> st_TrustedCA t \<noteq> [])"
  by (auto simp: server_Credentials_def server_TlsConfig_def no_settings_def Let_def split: if_splits sum.splits)

lemma agent_Credentials_mtls:
  "agent_Credentials L t = Inr (WithTls c) \<Longrightarrow> (ts_Certificates c \<noteq> [] \<longleftrightarrow> at_MTLSEnabled t)"
  by (cases "LoadCert L (at_ClientCert t) (at_ClientKey t)")
    (auto simp: agent_Credentials_def agent_TlsConfig_def no_settings_def split: if_splits sum.splits)

lemma Credentials_insecure:
  "agent_Credentials L t = Inr Insecure \<longleftrightarrow> \<not> at_Enabled t" "server_Credentials L u = Inr Insecure \<longleftrightarrow> \<not> st_Enabled u"
  by (auto simp: agent_Credentials_def server_Credentials_def split: sum.splits)

section \<open>The gRPC server\<close>

text \<open>
  \<open>NewGrpcServer\<close>: the transport, both interceptors, and how often a client may ping. A key or
  certificate that can not be loaded ends the process by \<open>log.Fatal\<close>; the left result is that error.
\<close>

record ('cert, 'pool) grpc_server_options =
  gs_Creds :: "('cert, 'pool) transport"
  gs_UnaryInterceptor :: bool
  gs_StreamInterceptor :: bool
  gs_MinTime :: time
  gs_PermitWithoutStream :: bool

definition NewGrpcServer :: "('cert, 'pool) tls_lib \<Rightarrow> server_tls \<Rightarrow> go_error + ('cert, 'pool) grpc_server_options" where
  "NewGrpcServer L tls =
     (case server_Credentials L tls of
        Inl err \<Rightarrow> Inl err
      | Inr creds \<Rightarrow> Inr \<lparr>gs_Creds = creds, gs_UnaryInterceptor = True, gs_StreamInterceptor = True,
          gs_MinTime = 10 * second, gs_PermitWithoutStream = False\<rparr>)"

section \<open>Connections\<close>

record grpc_client_config =
  gc_Tls :: agent_tls
  gc_Url :: string
  gc_ServerName :: string
  gc_AuthTokenFile :: string

definition AuthToken :: "(string \<Rightarrow> go_error + string) \<Rightarrow> grpc_client_config \<Rightarrow> go_error + string" where
  "AuthToken read_file g = map_sum (\<lambda>e. e) TrimSpace (read_file (gc_AuthTokenFile g))"

definition grpc_ListenOn :: "string \<Rightarrow> 16 word \<Rightarrow> string" where
  "grpc_ListenOn host port = host @ '':'' @ fmt_d (sint port)"

definition web_ListenOn :: string where
  "web_ListenOn = '':8080''"

text \<open>A port above 32767 cannot be configured: the port is an \<open>int16\<close>.\<close>

lemma grpc_port_bound: "sint (port :: 16 word) \<le> 32767"
  using sint_lt[of port] by simp

text \<open>
  \<open>net.SplitHostPort\<close>, which the listener reads its address with, for an address without brackets. An IPv6
  host, which the configuration accepts, is not written in brackets and can not be listened on.
\<close>

definition SplitHostPort :: "string \<Rightarrow> (string \<times> string) option" where
  "SplitHostPort s =
     (let host = rev (drop 1 (dropWhile (\<lambda>c. c \<noteq> CHR '':'') (rev s)))
      in if CHR '':'' \<notin> set s \<or> CHR '':'' \<in> set host then None
         else Some (host, rev (takeWhile (\<lambda>c. c \<noteq> CHR '':'') (rev s))))"

lemma grpc_listens_iff:
  "SplitHostPort (grpc_ListenOn host port) = (if CHR '':'' \<in> set host then None else Some (host, fmt_d (sint port)))"
proof -
  have no: "c \<noteq> CHR '':''" if "c \<in> set (rev (fmt_d (sint port)))" for c
    using that fmt_d_digits[of "sint port"] by (auto simp: is_digit_def)
  have r: "rev (grpc_ListenOn host port) = rev (fmt_d (sint port)) @ CHR '':'' # rev host" by (simp add: grpc_ListenOn_def)
  have "dropWhile (\<lambda>c. c \<noteq> CHR '':'') (rev (grpc_ListenOn host port)) = CHR '':'' # rev host"
    unfolding r by (subst dropWhile_append2) (use no in auto)
  moreover have "takeWhile (\<lambda>c. c \<noteq> CHR '':'') (rev (grpc_ListenOn host port)) = rev (fmt_d (sint port))"
    unfolding r by (subst takeWhile_append2) (use no in auto)
  moreover have "CHR '':'' \<in> set (grpc_ListenOn host port)" by (simp add: grpc_ListenOn_def)
  ultimately show ?thesis by (simp add: SplitHostPort_def Let_def)
qed

text \<open>Spaces around a token in its file do not count.\<close>

lemma TrimSpace_plain:
  assumes "list_all is_space u" and "list_all is_space v" and "\<not> list_ex is_space t"
  shows "TrimSpace (u @ t @ v) = t"
proof -
  have d: "dropWhile is_space (xs @ ys) = ys" if "list_all is_space xs" "ys = [] \<or> \<not> is_space (hd ys)" for xs ys
    using that by (induction xs) (cases ys; auto)+
  show ?thesis
  proof (cases t)
    case Nil
    have "dropWhile is_space (u @ v) = []" using assms(1,2) by (auto simp: list_all_iff)
    then show ?thesis by (simp only: TrimSpace_def Nil append_Nil rev.simps dropWhile.simps)
  next
    case (Cons c cs)
    have "dropWhile is_space (u @ t @ v) = t @ v" using d[OF assms(1), of "t @ v"] assms(3) by (simp add: Cons)
    moreover have "\<not> is_space (hd (rev t))" using assms(3) Cons last_in_set[of t] unfolding hd_rev by (auto simp: list_ex_iff simp del: last.simps)
    then have "dropWhile is_space (rev v @ rev t) = rev t" using d[of "rev v" "rev t"] assms(2) by simp
    ultimately show ?thesis by (simp add: TrimSpace_def)
  qed
qed

end
