(* ===== verification/Server_Stop.thy ===== *)
theory Server_Stop
  imports Startup Config Transitions
begin

text \<open>
  How a running program stops (\<open>BaseServer.Run\<close> and \<open>Shutdown\<close> in \<open>pkg/server/server.go\<close>, with the
  \<open>Shutdown\<close> of every part): the quit context ends it, and the parts are shut down one after the other,
  each of which waits for the work it has taken on. Both programs are instances of one step relation.
\<close>

section \<open>A running program\<close>

text \<open>
  The program is serving, or the first part of a list is being shut down and the rest is still to come.
  \<open>run_work\<close> counts what a part has taken on and not finished: requests and streams, elements of a
  consumer from their \<open>Send\<close> to the end of their handling, a file event, functions of the cron server.
\<close>

datatype 'p stop_pc = Serving | Stopping "'p list"

record 'p running =
  run_quit :: bool
  run_pc :: "'p stop_pc"
  run_work :: "'p \<Rightarrow> nat"

text \<open>A part takes on work until its \<open>Shutdown\<close> is called.\<close>

definition accepts :: "'p running \<Rightarrow> 'p \<Rightarrow> bool" where
  "accepts s p = (case run_pc s of Serving \<Rightarrow> True | Stopping ps \<Rightarrow> p \<in> set (tl ps))"

text \<open>
  \<open>order\<close> is the field \<open>Servers\<close>, \<open>works\<close> tells which parts take on work. Quitting is the signal of
  \<open>SignalServer.Run\<close>; each \<open>Shutdown\<close> returns when its part has no work left, whether it is the wait of a
  consumer or of the cron server for its wait group, the file monitor's for its loop, or the graceful
  stop of the web and gRPC libraries for the calls in progress.
\<close>

inductive run_step :: "'p list \<Rightarrow> ('p \<Rightarrow> bool) \<Rightarrow> 'p running \<Rightarrow> 'p running \<Rightarrow> bool"
  for order :: "'p list" and works :: "'p \<Rightarrow> bool" where
  Quit: "run_step order works s (s\<lparr>run_quit := True\<rparr>)"
| Begin: "run_pc s = Serving \<Longrightarrow> run_quit s \<Longrightarrow> run_step order works s (s\<lparr>run_pc := Stopping (rev order)\<rparr>)"
| Return: "run_pc s = Stopping (p # ps) \<Longrightarrow> run_work s p = 0 \<Longrightarrow> run_step order works s (s\<lparr>run_pc := Stopping ps\<rparr>)"
| Take: "works p \<Longrightarrow> accepts s p \<Longrightarrow> run_step order works s (s\<lparr>run_work := (run_work s)(p := Suc (run_work s p))\<rparr>)"
| Finish: "run_work s p = Suc n \<Longrightarrow> run_step order works s (s\<lparr>run_work := (run_work s)(p := n)\<rparr>)"

definition started :: "'p running" where
  "started = \<lparr>run_quit = False, run_pc = Serving, run_work = (\<lambda>p. 0)\<rparr>"

definition down :: "'p running \<Rightarrow> bool" where
  "down s = (run_pc s = Stopping [])"

text \<open>The steps that only end something: no new work, no new signal.\<close>

definition ending_step :: "'p list \<Rightarrow> ('p \<Rightarrow> bool) \<Rightarrow> 'p running \<Rightarrow> 'p running \<Rightarrow> bool" where
  "ending_step order works s s' \<longleftrightarrow> run_step order works s s' \<and> run_quit s' = run_quit s \<and>
     ((\<exists>p n. run_work s p = Suc n \<and> s' = s\<lparr>run_work := (run_work s)(p := n)\<rparr>) \<or>
      (run_work s' = run_work s \<and> run_pc s' \<noteq> run_pc s))"

section \<open>The invariant\<close>

definition run_inv :: "'p list \<Rightarrow> ('p \<Rightarrow> bool) \<Rightarrow> 'p running \<Rightarrow> bool" where
  "run_inv order works s \<longleftrightarrow> (\<forall>p. run_work s p \<noteq> 0 \<longrightarrow> works p) \<and>
     (case run_pc s of
        Serving \<Rightarrow> True
      | Stopping ps \<Rightarrow> (\<exists>xs. rev order = xs @ ps \<and> (\<forall>p \<in> set xs. run_work s p = 0)))"

lemma run_inv_started: "run_inv order works started"
  by (simp add: run_inv_def started_def)

lemma run_inv_step:
  assumes "run_step order works s s'" and "distinct order" and "run_inv order works s"
  shows "run_inv order works s'"
  using assms(1)
proof (cases rule: run_step.cases)
  case (Return p ps)
  then obtain xs where "rev order = (xs @ [p]) @ ps" and "\<forall>q \<in> set (xs @ [p]). run_work s q = 0"
    using assms(3) by (auto simp: run_inv_def)
  with Return assms(3) show ?thesis by (auto simp: run_inv_def)
next
  case (Take p)
  show ?thesis
  proof (cases "run_pc s")
    case (Stopping ps)
    then obtain xs where xs: "rev order = xs @ ps" "\<forall>q \<in> set xs. run_work s q = 0"
      using assms(3) by (auto simp: run_inv_def)
    have "p \<in> set ps" using Take Stopping by (cases ps) (auto simp: accepts_def)
    moreover have "distinct (xs @ ps)" using assms(2) unfolding xs(1)[symmetric] by simp
    ultimately have "p \<notin> set xs" by auto
    with Take Stopping xs assms(3) show ?thesis by (auto simp: run_inv_def)
  qed (use Take assms(3) in \<open>auto simp: run_inv_def\<close>)
next
  case (Finish p n)
  then show ?thesis using assms(3) by (auto simp: run_inv_def split: stop_pc.splits)
qed (use assms(3) in \<open>auto simp: run_inv_def split: stop_pc.splits\<close>)

interpretation stopping: preserved "run_step order works" "\<lambda>s. distinct order \<and> run_inv order works s" for order works
  by unfold_locales (use run_inv_step in blast)

text \<open>A program that is down has nothing left to do.\<close>

lemma down_idle:
  assumes "run_inv order works s" and "down s" and "p \<in> set order"
  shows "run_work s p = 0"
proof -
  obtain xs where "rev order = xs" and "\<forall>q \<in> set xs. run_work s q = 0"
    using assms(1,2) by (auto simp: run_inv_def down_def)
  then show ?thesis using assms(3) by (metis set_rev)
qed

section \<open>Stopping ends\<close>

lemma drain_one: "(ending_step order works)\<^sup>*\<^sup>* s (s\<lparr>run_work := (run_work s)(p := 0)\<rparr>)"
proof (induction "run_work s p" arbitrary: s)
  case 0
  then have "s\<lparr>run_work := (run_work s)(p := 0)\<rparr> = s" by (simp add: fun_upd_idem)
  then show ?case by (simp only: rtranclp.rtrancl_refl)
next
  case (Suc n)
  let ?t = "s\<lparr>run_work := (run_work s)(p := n)\<rparr>"
  have "ending_step order works s ?t"
    unfolding ending_step_def using Suc.hyps(2)[symmetric] run_step.Finish[OF Suc.hyps(2)[symmetric]]
    by (intro conjI disjI1 exI[of _ p] exI[of _ n]) simp_all
  moreover have "(ending_step order works)\<^sup>*\<^sup>* ?t (?t\<lparr>run_work := (run_work ?t)(p := 0)\<rparr>)"
    by (rule Suc.hyps(1)) simp
  ultimately show ?case by (simp add: converse_rtranclp_into_rtranclp del: fun_upd_apply)
qed

lemma return_one:
  "run_pc s = Stopping (p # ps) \<Longrightarrow> run_work s p = 0 \<Longrightarrow> ending_step order works s (s\<lparr>run_pc := Stopping ps\<rparr>)"
  unfolding ending_step_def by (intro conjI disjI2 run_step.Return) simp_all

lemma stopping_ends: "run_pc s = Stopping ps \<Longrightarrow> \<exists>s'. (ending_step order works)\<^sup>*\<^sup>* s s' \<and> down s'"
proof (induction ps arbitrary: s)
  case Nil
  then show ?case by (auto simp: down_def)
next
  case (Cons p ps)
  let ?t = "s\<lparr>run_work := (run_work s)(p := 0)\<rparr>"
  have "ending_step order works ?t (?t\<lparr>run_pc := Stopping ps\<rparr>)" using Cons.prems by (intro return_one[of ?t p]) simp_all
  with drain_one have "(ending_step order works)\<^sup>*\<^sup>* s (?t\<lparr>run_pc := Stopping ps\<rparr>)"
    by (rule rtranclp.rtrancl_into_rtrancl)
  with Cons.IH[of "?t\<lparr>run_pc := Stopping ps\<rparr>"] show ?case by (auto intro: rtranclp_trans)
qed

lemma quit_ends:
  assumes "run_quit s"
  shows "\<exists>s'. (ending_step order works)\<^sup>*\<^sup>* s s' \<and> down s'"
proof (cases "run_pc s")
  case Serving
  have "ending_step order works s (s\<lparr>run_pc := Stopping (rev order)\<rparr>)"
    using Serving assms run_step.Begin[of s order works] by (simp add: ending_step_def)
  with stopping_ends[of "s\<lparr>run_pc := Stopping (rev order)\<rparr>" "rev order" order works]
  show ?thesis by (auto intro: converse_rtranclp_into_rtranclp)
qed (rule stopping_ends)

lemma stops_idle:
  assumes "distinct order" and "\<And>p. p \<in> set order"
    and "(run_step order works)\<^sup>*\<^sup>* started s" and "run_quit s"
  shows "(\<exists>s'. (ending_step order works)\<^sup>*\<^sup>* s s' \<and> down s') \<and>
    {s'. (run_step order works)\<^sup>*\<^sup>* s s' \<and> down s'} \<subseteq> {s'. \<forall>p. run_work s' p = 0}"
proof (intro conjI subsetI CollectI allI)
  show "\<exists>s'. (ending_step order works)\<^sup>*\<^sup>* s s' \<and> down s'" by (rule quit_ends[OF assms(4)])
  fix s' p
  assume s': "s' \<in> {s'. (run_step order works)\<^sup>*\<^sup>* s s' \<and> down s'}"
  have "(run_step order works)\<^sup>*\<^sup>* started s'" using assms(3) s' by auto
  from stopping.steps_last[OF this] assms(1) run_inv_started have "run_inv order works s'" by blast
  from down_idle[OF this _ assms(2)] s' show "run_work s' p = 0" by simp
qed

section \<open>The two programs\<close>

datatype server_part = PSignal | PCron | PGrpc | PSources | PFiles | PWeb

definition server_order :: "server_part list" where
  "server_order = [PSignal, PCron, PGrpc, PSources, PFiles, PWeb]"

fun server_works :: "server_part \<Rightarrow> bool" where
  "server_works PSignal = False"
| "server_works p = True"

datatype agent_part = ASignal | ADbStatus | ADbJobs | AJobs | AGrpcAgent

definition agent_order :: "agent_part list" where
  "agent_order = [ASignal, ADbStatus, ADbJobs, AJobs, AGrpcAgent]"

fun agent_works :: "agent_part \<Rightarrow> bool" where
  "agent_works ASignal = False"
| "agent_works p = True"

text \<open>These are the servers \<open>New\<close> puts together, in the same order.\<close>

fun server_of :: "server_startup \<Rightarrow> server_part \<Rightarrow> global server" where
  "server_of S PSignal = SignalServer"
| "server_of S PCron = plain_server"
| "server_of S PGrpc = GrpcServer_server"
| "server_of S PSources = consumer_server SourceHandler_server"
| "server_of S PFiles = FileMonitor_server S"
| "server_of S PWeb = WebServer_server"

fun agent_of :: "agent_startup \<Rightarrow> agent_part \<Rightarrow> global server" where
  "agent_of A ASignal = SignalServer"
| "agent_of A ADbStatus = consumer_server DbStatusSender_server"
| "agent_of A ADbJobs = consumer_server (DbTaskHandler_server A)"
| "agent_of A AJobs = consumer_server JobHandler_server"
| "agent_of A AGrpcAgent = GrpcAgentServer_server A"

lemma server_order_servers: "map (server_of S) server_order = snd (New_server S)"
  by (simp add: server_order_def New_server_def)

lemma agent_order_servers: "map (agent_of A) agent_order = snd (New_agent A)"
  by (simp add: agent_order_def New_agent_def)

lemma server_order_all: "distinct server_order" "p \<in> set server_order"
  by (simp_all add: server_order_def) (cases p; simp)

lemma agent_order_all: "distinct agent_order" "p \<in> set agent_order"
  by (simp_all add: agent_order_def) (cases p; simp)

text \<open>
  The agent goes down with nothing left to handle: its session, the jobs, the tasks in the hands of its
  workers and the reports to the server have ended by then.
\<close>

theorem agent_stops_idle:
  assumes "(run_step agent_order agent_works)\<^sup>*\<^sup>* started s" and "run_quit s"
  shows "(\<exists>s'. (ending_step agent_order agent_works)\<^sup>*\<^sup>* s s' \<and> down s') \<and>
    {s'. (run_step agent_order agent_works)\<^sup>*\<^sup>* s s' \<and> down s'} \<subseteq> {s'. \<forall>p. run_work s' p = 0}"
  using stops_idle[OF _ _ assms] agent_order_all by blast

section \<open>The parts that serve\<close>

text \<open>\<open>SignalServer.Run\<close> ends on a signal, which quits, or when the context is done already.\<close>

datatype signal_event = SignalReceived | QuitDone

fun SignalServer_Run :: "signal_event \<Rightarrow> 'p running \<Rightarrow> 'p running" where
  "SignalServer_Run SignalReceived s = s\<lparr>run_quit := True\<rparr>"
| "SignalServer_Run QuitDone s = s"

definition SignalServer_Shutdown :: "'p running \<Rightarrow> 'p running" where
  "SignalServer_Shutdown s = s\<lparr>run_quit := True\<rparr>"

text \<open>
  \<open>WebServer.Run\<close> with the results of the two ways to serve; the value is the error it logs. Only the
  branch without TLS knows the error of a server that was shut down.
\<close>

definition ErrServerClosed :: go_error where
  "ErrServerClosed = ErrExt ''http: Server closed''"

definition WebServer_Run :: "bool \<Rightarrow> bool \<Rightarrow> go_error option \<Rightarrow> go_error option \<Rightarrow> go_error option" where
  "WebServer_Run enabled tls ListenAndServeTLS ListenAndServe =
     (if \<not> enabled then None
      else if tls then ListenAndServeTLS
      else (case ListenAndServe of
              None \<Rightarrow> None
            | Some err \<Rightarrow> if err \<noteq> ErrServerClosed then Some err else None))"

text \<open>\<open>GrpcServer.Run\<close>: \<open>log.Fatal\<close> ends the process with status 1.\<close>

definition GrpcServer_Run :: "go_error option \<Rightarrow> go_error option \<Rightarrow> nat option" where
  "GrpcServer_Run Listen Serve =
     (case Listen of
        Some err \<Rightarrow> Some 1
      | None \<Rightarrow> (case Serve of Some err \<Rightarrow> Some 1 | None \<Rightarrow> None))"

section \<open>The commands\<close>

text \<open>
  \<open>Run\<close> of \<open>cmd_serve.go\<close> and \<open>cmd_agent.go\<close>: the configuration is validated, the parts are put together
  and initialised, and run until the program is told to quit. The error is the one the command returns,
  or the one that ended the process while the server was put together; both exit with 1.
\<close>

definition run_program :: "go_error option \<Rightarrow> (string \<rightharpoonup> global) \<times> global server list \<Rightarrow> server_event list \<times> unit outcome" where
  "run_program invalid program =
     (case invalid of
        Some err \<Rightarrow> ([], Fail err)
      | None \<Rightarrow>
          (case base_Init (fst program) (snd program) of
             (evs, g, Ok u) \<Rightarrow> (evs @ base_Run (snd program), Ok ())
           | (evs, g, r) \<Rightarrow> (evs, r)))"

definition ServeCmd_Run ::
    "('cert, 'pool) tls_lib \<Rightarrow> server_tls \<Rightarrow> go_error option \<Rightarrow> server_startup \<Rightarrow> server_event list \<times> unit outcome" where
  "ServeCmd_Run L tls invalid S =
     (case invalid of
        Some err \<Rightarrow> ([], Fail err)
      | None \<Rightarrow>
          (case NewGrpcServer L tls of
             Inl err \<Rightarrow> ([], Fail err)
           | Inr grpcServer \<Rightarrow> run_program None (New_server S)))"

definition AgentCmd_Run :: "go_error option \<Rightarrow> agent_startup \<Rightarrow> server_event list \<times> unit outcome" where
  "AgentCmd_Run invalid A = run_program invalid (New_agent A)"

text \<open>\<open>main\<close>: a command that fails exits with 1, and a panic with 2.\<close>

fun main_exit :: "unit outcome \<Rightarrow> nat" where
  "main_exit (Ok u) = 0"
| "main_exit (Fail e) = 1"
| "main_exit Panicked = 2"

lemma run_program_result: "snd (run_program invalid program) = (case invalid of
    Some err \<Rightarrow> Fail err | None \<Rightarrow> snd (snd (base_Init (fst program) (snd program))))"
  by (auto simp: run_program_def split: option.split prod.split outcome.split)

lemma run_program_trace:
  assumes "snd (run_program invalid program) = Ok ()"
  shows "fst (run_program invalid program) =
    (let n = length (snd program) in map EvInit [0..<n] @ map EvPostInit [0..<n] @ map EvRun [0..<n] @ map EvShutdown (rev [0..<n]))"
proof -
  have i: "invalid = None" using assms by (cases invalid) (simp_all add: run_program_def)
  obtain evs g r where b: "base_Init (fst program) (snd program) = (evs, g, r)" using prod_cases3 by blast
  have "r = Ok ()" using assms by (cases r) (simp_all add: run_program_def i b)
  with base_server_order[of "fst program" "snd program" evs g] b show ?thesis
    by (simp add: run_program_def i Let_def)
qed

text \<open>
  The agent command: it exits with 0 exactly when the configuration is valid and the pool, the
  client, the migration and the recovery give no error, with 1 otherwise, with the first error, and
  it never panics on a global variable that was not set. When it exits with 0, all five parts were
  initialised before any was post-initialised, all were run, and all were shut down in reverse.
\<close>

theorem agent_command_exits:
  "main_exit (snd (AgentCmd_Run invalid A)) =
     (if [invalid, as_NewDbApi A, as_initGrpcClient A, as_MigrateDB A, as_recoverJobs A] = replicate 5 None then 0 else 1) \<and>
   snd (AgentCmd_Run invalid A) = first_error [invalid, as_NewDbApi A, as_initGrpcClient A, as_MigrateDB A, as_recoverJobs A] \<and>
   fst (AgentCmd_Run invalid A) \<in>
     (case snd (AgentCmd_Run invalid A) of
        Ok u \<Rightarrow> {map EvInit [0..<5] @ map EvPostInit [0..<5] @ map EvRun [0..<5] @ map EvShutdown [4, 3, 2, 1, 0]}
      | _ \<Rightarrow> UNIV)"
proof (intro conjI)
  have r: "snd (AgentCmd_Run invalid A) = first_error [invalid, as_NewDbApi A, as_initGrpcClient A, as_MigrateDB A, as_recoverJobs A]"
    using agent_starts[of A] by (simp add: AgentCmd_Run_def run_program_result split: option.split)
  then show "snd (AgentCmd_Run invalid A) = first_error [invalid, as_NewDbApi A, as_initGrpcClient A, as_MigrateDB A, as_recoverJobs A]" .
  show "main_exit (snd (AgentCmd_Run invalid A)) =
     (if [invalid, as_NewDbApi A, as_initGrpcClient A, as_MigrateDB A, as_recoverJobs A] = replicate 5 None then 0 else 1)"
    unfolding r by (cases invalid; cases "as_NewDbApi A"; cases "as_initGrpcClient A"; cases "as_MigrateDB A"; cases "as_recoverJobs A")
      (simp_all add: numeral_eq_Suc)
  have "length (snd (New_agent A)) = 5" by (simp add: New_agent_def)
  then show "fst (AgentCmd_Run invalid A) \<in>
     (case snd (AgentCmd_Run invalid A) of
        Ok u \<Rightarrow> {map EvInit [0..<5] @ map EvPostInit [0..<5] @ map EvRun [0..<5] @ map EvShutdown [4, 3, 2, 1, 0]}
      | _ \<Rightarrow> UNIV)"
    using run_program_trace[of invalid "New_agent A"] by (auto simp: AgentCmd_Run_def upt_rec split: outcome.split)
qed

lemma serve_command_result:
  "snd (ServeCmd_Run L tls invalid S) =
     first_error ([invalid, case server_Credentials L tls of Inl err \<Rightarrow> Some err | Inr creds \<Rightarrow> None,
        if su_Enabled S \<and> su_FilePaths S = [] then Some (ErrNew ''no file paths provided'') else None,
        su_NewWatcher S] @ (if su_Enabled S then su_loadSources S # map (su_watch S) (su_FilePaths S) else []))"
  using server_starts[of S]
  by (simp add: ServeCmd_Run_def NewGrpcServer_def run_program_result split: option.split sum.split)


definition serving_agent :: "server_part running" where
  "serving_agent = \<lparr>run_quit = True, run_pc = Serving, run_work = (\<lambda>p. 0)(PGrpc := 1)\<rparr>"

lemma serving_agent_reach: "(run_step server_order server_works)\<^sup>*\<^sup>* started serving_agent"
proof -
  have "run_step server_order server_works started (started\<lparr>run_work := (run_work started)(PGrpc := Suc (run_work started PGrpc))\<rparr>)"
    by (rule run_step.Take) (simp_all add: accepts_def started_def)
  then have "(run_step server_order server_works)\<^sup>*\<^sup>* started
      (started\<lparr>run_work := (run_work started)(PGrpc := Suc (run_work started PGrpc)), run_quit := True\<rparr>)"
    by (metis (no_types) run_step.Quit r_into_rtranclp rtranclp.rtrancl_into_rtrancl)
  then show ?thesis by (simp add: serving_agent_def started_def)
qed


end
