(* ===== verification/Db_Model.thy ===== *)
theory Db_Model
  imports PgPrelude
begin

text \<open>
  The data the agent and the server talk about: the database record (\<open>dbs\<close> table, sqlc type \<open>Db\<close>),
  its wire form \<open>proto.Database\<close>, their stage and status, and the predicates over both
  (\<open>internal/db/db_utils.go\<close>, \<open>pkg/proto/db_utils.go\<close>, \<open>internal/db/db_to_proto.go\<close>).
  The lemmas show that the predicates of the two forms agree through \<open>ToProto\<close>, and that the
  stage names the server compares as strings identify the stage.
\<close>

section \<open>Stage and status\<close>

datatype DbStatus = DbStatus_Processing | DbStatus_Done | DbStatus_Failed

datatype DbStage =
    DbStage_None
  | DbStage_CreateUser
  | DbStage_CreateDatabase
  | DbStage_BackupDatabase
  | DbStage_RestoreDatabase
  | DbStage_ReadyToUse
  | DbStage_Idle
  | DbStage_DropDatabase

text \<open>The numbers of the protobuf enums, which the columns \<open>status\<close> and \<open>stage\<close> store as \<open>int4\<close>.\<close>

fun status_num :: "DbStatus \<Rightarrow> nat" where
  "status_num DbStatus_Processing = 0"
| "status_num DbStatus_Done = 1"
| "status_num DbStatus_Failed = 2"

fun stage_num :: "DbStage \<Rightarrow> nat" where
  "stage_num DbStage_None = 0"
| "stage_num DbStage_CreateUser = 1"
| "stage_num DbStage_CreateDatabase = 2"
| "stage_num DbStage_BackupDatabase = 3"
| "stage_num DbStage_RestoreDatabase = 4"
| "stage_num DbStage_ReadyToUse = 5"
| "stage_num DbStage_Idle = 6"
| "stage_num DbStage_DropDatabase = 7"

text \<open>The generated \<open>String\<close> methods give the names of the enum constants.\<close>

fun status_string :: "DbStatus \<Rightarrow> string" where
  "status_string DbStatus_Processing = ''Processing''"
| "status_string DbStatus_Done = ''Done''"
| "status_string DbStatus_Failed = ''Failed''"

fun stage_string :: "DbStage \<Rightarrow> string" where
  "stage_string DbStage_None = ''None''"
| "stage_string DbStage_CreateUser = ''CreateUser''"
| "stage_string DbStage_CreateDatabase = ''CreateDatabase''"
| "stage_string DbStage_BackupDatabase = ''BackupDatabase''"
| "stage_string DbStage_RestoreDatabase = ''RestoreDatabase''"
| "stage_string DbStage_ReadyToUse = ''ReadyToUse''"
| "stage_string DbStage_Idle = ''Idle''"
| "stage_string DbStage_DropDatabase = ''DropDatabase''"

lemma status_num_inject [simp]: "status_num a = status_num b \<longleftrightarrow> a = b"
  by (cases a; cases b) simp_all

lemma stage_num_inject [simp]: "stage_num a = stage_num b \<longleftrightarrow> a = b"
  by (cases a; cases b) simp_all

lemma status_string_inject [simp]: "status_string a = status_string b \<longleftrightarrow> a = b"
  by (cases a; cases b) simp_all

lemma stage_string_inject [simp]: "stage_string a = stage_string b \<longleftrightarrow> a = b"
  by (cases a; cases b) simp_all

text \<open>The order of the \<open>int4\<close> columns, which \<open>ORDER BY status\<close> uses.\<close>

instantiation DbStatus :: linorder
begin

definition less_eq_DbStatus :: "DbStatus \<Rightarrow> DbStatus \<Rightarrow> bool" where
  "less_eq_DbStatus a b = (status_num a \<le> status_num b)"

definition less_DbStatus :: "DbStatus \<Rightarrow> DbStatus \<Rightarrow> bool" where
  "less_DbStatus a b = (status_num a < status_num b)"

instance
proof
  fix a b c :: DbStatus
  show "(a < b) = (a \<le> b \<and> \<not> b \<le> a)" by (auto simp: less_eq_DbStatus_def less_DbStatus_def)
  show "a \<le> a" by (simp add: less_eq_DbStatus_def)
  show "a \<le> b \<Longrightarrow> b \<le> c \<Longrightarrow> a \<le> c" by (simp add: less_eq_DbStatus_def)
  show "a \<le> b \<Longrightarrow> b \<le> a \<Longrightarrow> a = b" by (auto simp: less_eq_DbStatus_def)
  show "a \<le> b \<or> b \<le> a" by (auto simp: less_eq_DbStatus_def)
qed

end

section \<open>The two forms of a database record\<close>

text \<open>
  The row of table \<open>dbs\<close>. \<open>expired_at\<close> may be NULL; a NULL \<open>last_job_id\<close> is scanned into
  \<open>uuid.Nil\<close>.
\<close>

record db_row =
  db_ID :: int
  db_Name :: string
  db_Owner :: string
  db_CreatedAt :: time
  db_UpdatedAt :: time
  db_ExpiredAt :: "time option"
  db_MigrateFrom :: string
  db_MigrateTo :: string
  db_Status :: DbStatus
  db_Stage :: DbStage
  db_ErrorMsg :: string
  db_LastJobID :: uuid

text \<open>
  \<open>proto.Database\<close>. Its timestamps are pointers, and the server compares them as pointers; the
  type parameter is what stands for such a pointer: a time (or nil) on the sending side, an address
  with its time on the receiving side (theory \<open>Db_Instance\<close>).
\<close>

record 't proto_database =
  pd_Name :: string
  pd_Owner :: string
  pd_MigrateFrom :: string
  pd_MigrateTo :: string
  pd_Stage :: DbStage
  pd_Status :: DbStatus
  pd_CreatedAt :: "'t option"
  pd_UpdatedAt :: "'t option"
  pd_ExpiredAt :: "'t option"
  pd_InstanceName :: string
  pd_ErrorMsg :: string
  pd_LastJobId :: string

text \<open>\<open>&proto.Database{}\<close>, the message with every field at its zero value.\<close>

definition zero_proto :: "'t proto_database" where
  "zero_proto =
     \<lparr>pd_Name = [], pd_Owner = [], pd_MigrateFrom = [], pd_MigrateTo = [],
      pd_Stage = DbStage_None, pd_Status = DbStatus_Processing,
      pd_CreatedAt = None, pd_UpdatedAt = None, pd_ExpiredAt = None,
      pd_InstanceName = [], pd_ErrorMsg = [], pd_LastJobId = []\<rparr>"

section \<open>Predicates on \<open>*db.Db\<close>\<close>

text \<open>These methods dereference their receiver: callers pass a row, never nil.\<close>

definition Db_IsAlreadyIdle :: "db_row \<Rightarrow> bool" where
  "Db_IsAlreadyIdle d =
     ((db_Stage d = DbStage_Idle \<and> db_Status d = DbStatus_Done) \<or> db_Stage d = DbStage_DropDatabase)"

definition Db_IsNotExist :: "db_row \<Rightarrow> bool" where
  "Db_IsNotExist d = (db_Stage d = DbStage_None)"

definition Db_IsReadyToUse :: "db_row \<Rightarrow> bool" where
  "Db_IsReadyToUse d = (db_Stage d = DbStage_ReadyToUse \<and> db_Status d = DbStatus_Done)"

definition CanRestore :: "db_row \<Rightarrow> bool" where
  "CanRestore d =
     (db_Status d = DbStatus_Done \<and>
      (db_Stage d = DbStage_CreateDatabase \<or> db_Stage d = DbStage_RestoreDatabase))"

definition ShouldBackup :: "db_row \<Rightarrow> bool" where
  "ShouldBackup d =
     ((db_Stage d = DbStage_CreateDatabase \<and> db_Status d = DbStatus_Done) \<or>
      (db_Stage d = DbStage_BackupDatabase \<and> db_Status d = DbStatus_Failed))"

lemmas db_pred_defs =
  Db_IsAlreadyIdle_def Db_IsNotExist_def Db_IsReadyToUse_def CanRestore_def ShouldBackup_def

section \<open>Predicates on \<open>*proto.Database\<close>\<close>

text \<open>The receiver may be nil (\<open>None\<close>), which the code tests.\<close>

definition IsAlreadyIdle :: "'t proto_database option \<Rightarrow> bool" where
  "IsAlreadyIdle p =
     (case p of None \<Rightarrow> False
      | Some d \<Rightarrow> pd_Stage d = DbStage_DropDatabase \<or>
          (pd_Stage d = DbStage_Idle \<and> pd_Status d = DbStatus_Done))"

definition IsNotExist :: "'t proto_database option \<Rightarrow> bool" where
  "IsNotExist p = (case p of None \<Rightarrow> True | Some d \<Rightarrow> pd_Stage d = DbStage_None)"

definition IsReadyToUse :: "'t proto_database option \<Rightarrow> bool" where
  "IsReadyToUse p =
     (case p of None \<Rightarrow> False
      | Some d \<Rightarrow> pd_Stage d = DbStage_ReadyToUse \<and> pd_Status d = DbStatus_Done)"

definition proto_IsFailed :: "'t proto_database option \<Rightarrow> bool" where
  "proto_IsFailed p = (case p of None \<Rightarrow> False | Some d \<Rightarrow> pd_Status d = DbStatus_Failed)"

definition IsReadyToMigrate :: "'t proto_database option \<Rightarrow> bool" where
  "IsReadyToMigrate p = (IsNotExist p \<or> IsAlreadyIdle p)"

definition IsSynced :: "'t proto_database option \<Rightarrow> bool" where
  "IsSynced p =
     (case p of None \<Rightarrow> False
      | Some d \<Rightarrow> pd_Status d = DbStatus_Done \<and>
          (pd_Stage d = DbStage_ReadyToUse \<or> pd_Stage d = DbStage_Idle \<or>
           pd_Stage d = DbStage_DropDatabase))"

lemmas proto_pred_defs =
  IsAlreadyIdle_def IsNotExist_def IsReadyToUse_def proto_IsFailed_def IsReadyToMigrate_def
  IsSynced_def

section \<open>From the row to the message\<close>

text \<open>\<open>uuid.UUID.String\<close> is a parameter (package google/uuid).\<close>

definition UuidToString :: "(uuid \<Rightarrow> string) \<Rightarrow> uuid \<Rightarrow> string" where
  "UuidToString uuid_string u = (if u = uuid_Nil then [] else uuid_string u)"

text \<open>\<open>uuid.Parse\<close> is a parameter: \<open>None\<close> when it returns an error (its value is then \<open>uuid.Nil\<close>).\<close>

definition StringToUuid :: "(string \<Rightarrow> uuid option) \<Rightarrow> string \<Rightarrow> uuid" where
  "StringToUuid uuid_parse s =
     (if s \<noteq> [] \<and> uuid_parse s = None then uuid_Nil
      else (case uuid_parse s of None \<Rightarrow> uuid_Nil | Some u \<Rightarrow> u))"

definition pgTimestampToProto :: "time option \<Rightarrow> time option" where
  "pgTimestampToProto ts = (case ts of None \<Rightarrow> None | Some t \<Rightarrow> Some t)"

definition ToProto :: "(uuid \<Rightarrow> string) \<Rightarrow> db_row option \<Rightarrow> time proto_database option" where
  "ToProto uuid_string db = (case db of None \<Rightarrow> None
    | Some d \<Rightarrow> Some
       \<lparr>pd_Name = db_Name d, pd_Owner = db_Owner d,
        pd_MigrateFrom = db_MigrateFrom d, pd_MigrateTo = db_MigrateTo d,
        pd_Stage = db_Stage d, pd_Status = db_Status d,
        pd_CreatedAt = pgTimestampToProto (Some (db_CreatedAt d)),
        pd_UpdatedAt = pgTimestampToProto (Some (db_UpdatedAt d)),
        pd_ExpiredAt = pgTimestampToProto (db_ExpiredAt d),
        pd_InstanceName = [], pd_ErrorMsg = db_ErrorMsg d,
        pd_LastJobId = UuidToString uuid_string (db_LastJobID d)\<rparr>)"

lemma ToProto_None [simp]: "ToProto us None = None"
  by (simp add: ToProto_def)

lemma ToProto_stage_status [simp]:
  "ToProto us (Some d) = Some p \<Longrightarrow> pd_Stage p = db_Stage d \<and> pd_Status p = db_Status d"
  by (auto simp: ToProto_def)

text \<open>
  Job ids survive the trip through their string form, given the documented contract of
  google/uuid: \<open>Parse\<close> inverts \<open>String\<close>, and rejects the empty string.
\<close>

lemma uuid_string_roundtrip:
  assumes "\<And>u. uuid_parse (uuid_string u) = Some u" and "uuid_parse [] = None"
  shows "StringToUuid uuid_parse (UuidToString uuid_string u) = u"
proof (cases "u = uuid_Nil")
  case True
  with assms(2) show ?thesis by (simp add: StringToUuid_def UuidToString_def)
next
  case False
  with assms(1) show ?thesis by (simp add: StringToUuid_def UuidToString_def)
qed

section \<open>Agreement of the two sides\<close>

lemma proto_db_predicates:
  "IsAlreadyIdle (ToProto us (Some d)) = Db_IsAlreadyIdle d"
  "IsNotExist (ToProto us (Some d)) = Db_IsNotExist d"
  "IsReadyToUse (ToProto us (Some d)) = Db_IsReadyToUse d"
  by (auto simp: ToProto_def db_pred_defs proto_pred_defs)

text \<open>
  The predicates partition what the server may do with a record: one that is synced is not failed,
  and a record that may be created anew (ready to migrate) is never ready to use.
\<close>

lemma synced_not_failed: "IsSynced p \<Longrightarrow> \<not> proto_IsFailed p"
  by (auto simp: proto_pred_defs split: option.splits)

lemma ready_to_migrate_not_ready: "IsReadyToMigrate p \<Longrightarrow> \<not> IsReadyToUse p"
  by (auto simp: proto_pred_defs split: option.splits)

lemma synced_iff:
  "IsSynced p \<longleftrightarrow> IsReadyToUse p \<or>
     (IsAlreadyIdle p \<and> map_option pd_Status p = Some DbStatus_Done)"
  by (auto simp: proto_pred_defs split: option.splits)

text \<open>A record that was just backed up can not be restored.\<close>

lemma CanRestore_not_backed_up: "db_Stage d = DbStage_BackupDatabase \<Longrightarrow> \<not> CanRestore d"
  by (simp add: CanRestore_def)

end
