(* ===== verification/Db_Api.thy ===== *)
theory Db_Api
  imports Db_Model Agent_Config
    "HOL-Library.Product_Lexorder" "HOL-Library.List_Lexorder" "HOL-Library.Char_ord"
begin

text \<open>
  The agent's database layer: the tables \<open>dbs\<close> and \<open>db_tasks\<close> (\<open>internal/db/migrations\<close>), the
  queries over them (\<open>internal/db/queries\<close>) and \<open>DbApi\<close> (\<open>internal/db/db_api.go\<close>). A world holds
  the tables, the messages sent to the status notifier and the external commands run. Every call
  that leaves the process (a query, acquiring a connection, a command, a file operation) may fail:
  the environment gives the fault of the n-th such call. The lemmas give each operation on every
  branch, the table invariant every operation keeps, and optimistic locking by \<open>updated_at\<close>.
\<close>

named_theorems api_simps \<open>the DbApi operations when the environment answers\<close>

section \<open>Tasks as rows\<close>

text \<open>The last constructors stand for the empty string, Go's zero value of these string types.\<close>

datatype DbTaskStatus =
    DbTaskStatusPending | DbTaskStatusRunning | DbTaskStatusCancelling
  | DbTaskStatusCompleted | DbTaskStatusFailed | DbTaskStatusCancelled | DbTaskStatusZero

datatype DbAction =
    DbActionMigrateOut | DbActionCreateUser | DbActionCreate | DbActionBackup
  | DbActionDailyBackup | DbActionRestore | DbActionWaitReady | DbActionDrop | DbActionZero

record db_task_data =
  td_DependsOn :: "uuid list"
  td_ErrReason :: string
  td_BackupFrom :: string
  td_BackupPath :: string
  td_Owner :: string
  td_Password :: string

record db_task_row =
  tk_ID :: uuid
  tk_DbID :: int
  tk_DbName :: string
  tk_Action :: DbAction
  tk_Reason :: string
  tk_Status :: DbTaskStatus
  tk_CreatedAt :: time
  tk_UpdatedAt :: time
  tk_Data :: db_task_data
  tk_JobID :: uuid

definition zero_task_data :: db_task_data where
  "zero_task_data = \<lparr>td_DependsOn = [], td_ErrReason = [], td_BackupFrom = [], td_BackupPath = [],
     td_Owner = [], td_Password = []\<rparr>"

definition zero_task :: db_task_row where
  "zero_task = \<lparr>tk_ID = uuid_Nil, tk_DbID = 0, tk_DbName = [], tk_Action = DbActionZero,
     tk_Reason = [], tk_Status = DbTaskStatusZero, tk_CreatedAt = 0, tk_UpdatedAt = 0,
     tk_Data = zero_task_data, tk_JobID = uuid_Nil\<rparr>"

section \<open>World and environment\<close>

text \<open>
  What the agent asks other programs and the file system to do; \<open>RunCmd\<close> has the program, its
  arguments, its working directory and its standard input.
\<close>

datatype ext_cmd =
    ExecSql string
  | RunCmd string "string list" string string
  | MkdirAll string
  | StatFile string
  | RemoveFile string
  | RenameFile string string

record agent_world =
  w_dbs :: "db_row list"
  w_tasks :: "db_task_row list"
  w_next_id :: int
  w_calls :: nat
  w_notified :: "time proto_database list"
  w_cmds :: "ext_cmd list"

text \<open>
  The environment, indexed by the number of the external call: the fault of the call, PostgreSQL's
  \<open>now()\<close>, \<open>gen_random_uuid()\<close> or \<open>uuid.New()\<close>, whether a role exists, and whether the quit
  context is done. The rest are library functions the agent calls.
\<close>

record agent_env =
  env_fault :: "nat \<Rightarrow> go_error option"
  env_now :: "nat \<Rightarrow> time"
  env_uuid :: "nat \<Rightarrow> uuid"
  env_user_exists :: "nat \<Rightarrow> string \<Rightarrow> bool"
  env_quit :: "nat \<Rightarrow> bool"
  env_uuid_string :: "uuid \<Rightarrow> string"
  env_escape :: "string \<Rightarrow> string"
  env_format_time :: "time \<Rightarrow> string"
  env_cfg :: db_config

definition ext :: "agent_env \<Rightarrow> agent_world \<Rightarrow> go_error option \<times> agent_world" where
  "ext E w = (env_fault E (w_calls w), w\<lparr>w_calls := Suc (w_calls w)\<rparr>)"

text \<open>An external command: it is recorded when it is issued, and fails when the environment says so.\<close>

definition run_cmd :: "agent_env \<Rightarrow> ext_cmd \<Rightarrow> agent_world \<Rightarrow> go_error option \<times> agent_world" where
  "run_cmd E c w = ext E (w\<lparr>w_cmds := w_cmds w @ [c]\<rparr>)"

text \<open>Every call is answered without a fault.\<close>

definition healthy :: "agent_env \<Rightarrow> bool" where
  "healthy E = (\<forall>n. env_fault E n = None)"

lemma ext_healthy [api_simps]: "healthy E \<Longrightarrow> ext E w = (None, w\<lparr>w_calls := Suc (w_calls w)\<rparr>)"
  by (simp add: ext_def healthy_def)

lemma run_cmd_healthy [api_simps]:
  "healthy E \<Longrightarrow> run_cmd E c w = (None, w\<lparr>w_cmds := w_cmds w @ [c], w_calls := Suc (w_calls w)\<rparr>)"
  by (simp add: run_cmd_def api_simps)

section \<open>Queries\<close>

text \<open>A query that returns an error leaves the tables as they are.\<close>

definition query1 ::
    "agent_env \<Rightarrow> agent_world \<Rightarrow> (agent_world \<Rightarrow> (go_error + 'a) \<times> agent_world)
      \<Rightarrow> (go_error + 'a) \<times> agent_world" where
  "query1 E w f = (case ext E w of (Some e, w1) \<Rightarrow> (Inl e, w1) | (None, w1) \<Rightarrow> f w1)"

definition one_row :: "'r option \<Rightarrow> go_error + 'r" where
  "one_row r = (case r of None \<Rightarrow> Inl ErrNoRows | Some x \<Rightarrow> Inr x)"

definition q_SetDbTaskStatus ::
    "agent_env \<Rightarrow> uuid \<Rightarrow> DbTaskStatus \<Rightarrow> string \<Rightarrow> time \<Rightarrow> agent_world
      \<Rightarrow> (go_error + db_task_row) \<times> agent_world" where
  "q_SetDbTaskStatus E tid status err_reason updated_at w = query1 E w (\<lambda>w1.
     let P = (\<lambda>r. tk_ID r = tid \<and> tk_UpdatedAt r = updated_at);
         f = (\<lambda>r. r\<lparr>tk_Status := status, tk_Data := (tk_Data r)\<lparr>td_ErrReason := err_reason\<rparr>,
                   tk_UpdatedAt := env_now E (w_calls w)\<rparr>)
     in (one_row (map_option f (find P (w_tasks w1))),
         w1\<lparr>w_tasks := upd_where P f (w_tasks w1)\<rparr>))"

record create_task_params =
  cp_JobID :: uuid
  cp_DbID :: int
  cp_DbName :: string
  cp_Action :: DbAction
  cp_Reason :: string
  cp_Status :: DbTaskStatus
  cp_Data :: db_task_data

text \<open>The column \<open>data\<close> is JSON; the password is tagged \<open>json:"-"\<close> and is not stored.\<close>

definition stored_data :: "db_task_data \<Rightarrow> db_task_data" where
  "stored_data d = d\<lparr>td_Password := []\<rparr>"

definition q_CreateDbTask ::
    "agent_env \<Rightarrow> create_task_params \<Rightarrow> agent_world \<Rightarrow> (go_error + db_task_row) \<times> agent_world" where
  "q_CreateDbTask E p w = query1 E w (\<lambda>w1.
     let r = \<lparr>tk_ID = env_uuid E (w_calls w), tk_DbID = cp_DbID p, tk_DbName = cp_DbName p,
              tk_Action = cp_Action p, tk_Reason = cp_Reason p, tk_Status = cp_Status p,
              tk_CreatedAt = env_now E (w_calls w), tk_UpdatedAt = env_now E (w_calls w),
              tk_Data = stored_data (cp_Data p), tk_JobID = cp_JobID p\<rparr>
     in if tk_ID r \<in> tk_ID ` set (w_tasks w1)
        then (Inl (ErrExt ''duplicate key value violates unique constraint''), w1)
        else (Inr r, w1\<lparr>w_tasks := w_tasks w1 @ [r]\<rparr>))"

definition q_ListDbTasksByJobID ::
    "agent_env \<Rightarrow> uuid \<Rightarrow> agent_world \<Rightarrow> (go_error + db_task_row list) \<times> agent_world" where
  "q_ListDbTasksByJobID E job w =
     query1 E w (\<lambda>w1. (Inr (filter (\<lambda>r. tk_JobID r = job) (w_tasks w1)), w1))"

definition q_CreateDb ::
    "agent_env \<Rightarrow> string \<Rightarrow> string \<Rightarrow> agent_world \<Rightarrow> (go_error + db_row) \<times> agent_world" where
  "q_CreateDb E name owner w = query1 E w (\<lambda>w1.
     let now = env_now E (w_calls w);
         r = \<lparr>db_ID = w_next_id w1, db_Name = name, db_Owner = owner, db_CreatedAt = now,
              db_UpdatedAt = now, db_ExpiredAt = None, db_MigrateFrom = [], db_MigrateTo = [],
              db_Status = DbStatus_Processing, db_Stage = DbStage_None, db_ErrorMsg = [],
              db_LastJobID = uuid_Nil\<rparr>;
         w2 = w1\<lparr>w_next_id := w_next_id w1 + 1\<rparr>
     in if name \<in> db_Name ` set (w_dbs w1)
        then (Inl (ErrExt ''duplicate key value violates unique constraint''), w2)
        else (Inr r, w2\<lparr>w_dbs := w_dbs w2 @ [r]\<rparr>))"

definition q_SetDbStatus ::
    "agent_env \<Rightarrow> db_row \<Rightarrow> agent_world \<Rightarrow> (go_error + db_row) \<times> agent_world" where
  "q_SetDbStatus E p w = query1 E w (\<lambda>w1.
     let P = (\<lambda>r. db_ID r = db_ID p \<and> db_UpdatedAt r = db_UpdatedAt p);
         f = (\<lambda>r. r\<lparr>db_Status := db_Status p, db_Stage := db_Stage p, db_ErrorMsg := db_ErrorMsg p,
                   db_UpdatedAt := env_now E (w_calls w), db_ExpiredAt := db_ExpiredAt p,
                   db_LastJobID := db_LastJobID p, db_MigrateFrom := db_MigrateFrom p,
                   db_MigrateTo := db_MigrateTo p\<rparr>)
     in (one_row (map_option f (find P (w_dbs w1))),
         w1\<lparr>w_dbs := upd_where P f (w_dbs w1)\<rparr>))"

definition q_GetDbByName ::
    "agent_env \<Rightarrow> string \<Rightarrow> agent_world \<Rightarrow> (go_error + db_row) \<times> agent_world" where
  "q_GetDbByName E name w = query1 E w (\<lambda>w1. (one_row (sel_by db_Name name (w_dbs w1)), w1))"

definition q_GetDbByID ::
    "agent_env \<Rightarrow> int \<Rightarrow> agent_world \<Rightarrow> (go_error + db_row) \<times> agent_world" where
  "q_GetDbByID E did w = query1 E w (\<lambda>w1. (one_row (sel_by db_ID did (w_dbs w1)), w1))"

definition q_ListDbs :: "agent_env \<Rightarrow> agent_world \<Rightarrow> (go_error + db_row list) \<times> agent_world" where
  "q_ListDbs E w = query1 E w (\<lambda>w1. (Inr (sort_key (\<lambda>r. (db_Status r, db_Name r)) (w_dbs w1)), w1))"

text \<open>\<open>SELECT true FROM pg_user\<close>: no row when the role does not exist.\<close>

definition q_IsUserExists ::
    "agent_env \<Rightarrow> string \<Rightarrow> agent_world \<Rightarrow> (go_error + bool) \<times> agent_world" where
  "q_IsUserExists E owner w = query1 E w (\<lambda>w1.
     (if env_user_exists E (w_calls w) owner then Inr True else Inl ErrNoRows, w1))"

section \<open>DbApi\<close>

text \<open>\<open>Query\<close>: acquire a connection, then run the function on it.\<close>

definition api_Query ::
    "agent_env \<Rightarrow> (agent_world \<Rightarrow> 'a \<times> agent_world) \<Rightarrow> (go_error \<Rightarrow> 'a) \<Rightarrow> agent_world
      \<Rightarrow> 'a \<times> agent_world" where
  "api_Query E f fail w = (case ext E w of (Some e, w1) \<Rightarrow> (fail e, w1) | (None, w1) \<Rightarrow> f w1)"

text \<open>
  \<open>QueryWithRollback\<close>: acquire, begin, run; the deferred rollback undoes the changes of the tables
  unless the function committed. Sequences and sent notifications are not undone.
\<close>

definition api_QueryWithRollback ::
    "agent_env \<Rightarrow> (agent_world \<Rightarrow> bool \<times> 'a outcome \<times> agent_world) \<Rightarrow> agent_world
      \<Rightarrow> 'a outcome \<times> agent_world" where
  "api_QueryWithRollback E f w =
     (case ext E w of
        (Some e, w1) \<Rightarrow> (Fail e, w1)
      | (None, w1) \<Rightarrow>
          (case ext E w1 of
             (Some e, w2) \<Rightarrow> (Fail e, w2)
           | (None, w2) \<Rightarrow>
               (case f w2 of (committed, r, w3) \<Rightarrow>
                  (r, if committed then w3
                      else w3\<lparr>w_dbs := w_dbs w2, w_tasks := w_tasks w2\<rparr>))))"

text \<open>\<open>tx.Commit\<close>: whether the transaction is committed.\<close>

definition tx_Commit :: "agent_env \<Rightarrow> agent_world \<Rightarrow> bool \<times> agent_world" where
  "tx_Commit E w = (case ext E w of (Some e, w1) \<Rightarrow> (False, w1) | (None, w1) \<Rightarrow> (True, w1))"

definition NotifyDbStatusChanged :: "agent_env \<Rightarrow> db_row \<Rightarrow> agent_world \<Rightarrow> agent_world" where
  "NotifyDbStatusChanged E d w =
     (case ToProto (env_uuid_string E) (Some d) of
        None \<Rightarrow> w
      | Some p \<Rightarrow> w\<lparr>w_notified := w_notified w @ [p\<lparr>pd_InstanceName := cfg_InstanceName (env_cfg E)\<rparr>]\<rparr>)"

text \<open>
  The operations take the flag \<open>qnil\<close> for a nil \<open>*Queries\<close> argument: they then acquire a connection
  of their own. They return the record they were given a pointer to, as they leave it.
\<close>

definition UpdateTaskStatus ::
    "agent_env \<Rightarrow> bool \<Rightarrow> db_task_row \<Rightarrow> agent_world
      \<Rightarrow> (db_task_row \<times> go_error option) \<times> agent_world" where
  "UpdateTaskStatus E qnil task w =
     (let run = (\<lambda>w1. case q_SetDbTaskStatus E (tk_ID task) (tk_Status task)
                     (td_ErrReason (tk_Data task)) (tk_UpdatedAt task) w1 of
                   (Inl e, w2) \<Rightarrow> ((task, Some e), w2)
                 | (Inr r, w2) \<Rightarrow> ((task\<lparr>tk_UpdatedAt := tk_UpdatedAt r\<rparr>, None), w2))
      in if qnil then api_Query E run (\<lambda>e. (task, Some e)) w else run w)"

definition UpdateDbStatus ::
    "agent_env \<Rightarrow> bool \<Rightarrow> db_row \<Rightarrow> agent_world \<Rightarrow> (db_row \<times> go_error option) \<times> agent_world" where
  "UpdateDbStatus E qnil d w =
     (let run = (\<lambda>w1. case q_SetDbStatus E d w1 of
                   (Inl e, w2) \<Rightarrow> ((d, Some e), w2)
                 | (Inr r, w2) \<Rightarrow>
                     (let d' = d\<lparr>db_UpdatedAt := db_UpdatedAt r\<rparr>
                      in ((d', None), NotifyDbStatusChanged E d' w2)))
      in if qnil then api_Query E run (\<lambda>e. (d, Some e)) w else run w)"

text \<open>
  \<open>GetDb\<close>, \<open>GetDbByName\<close>, \<open>CreateDb\<close> and \<open>ListDbs\<close> drop the result of \<open>Query\<close> when they are
  given no connection: if none can be acquired they return a nil record and a nil error.
\<close>

definition GetDb ::
    "agent_env \<Rightarrow> bool \<Rightarrow> int \<Rightarrow> agent_world \<Rightarrow> (go_error + db_row option) \<times> agent_world" where
  "GetDb E qnil dbId w =
     (let run = (\<lambda>w1. case q_GetDbByID E dbId w1 of
                   (Inl e, w2) \<Rightarrow> (Inl e, w2) | (Inr r, w2) \<Rightarrow> (Inr (Some r), w2))
      in if qnil then api_Query E run (\<lambda>e. Inr None) w else run w)"

definition GetDbByName ::
    "agent_env \<Rightarrow> bool \<Rightarrow> string \<Rightarrow> agent_world \<Rightarrow> (go_error + db_row option) \<times> agent_world" where
  "GetDbByName E qnil name w =
     (let run = (\<lambda>w1. case q_GetDbByName E name w1 of
                   (Inl e, w2) \<Rightarrow> (Inl e, w2) | (Inr r, w2) \<Rightarrow> (Inr (Some r), w2))
      in if qnil then api_Query E run (\<lambda>e. Inr None) w else run w)"

definition CreateDb ::
    "agent_env \<Rightarrow> bool \<Rightarrow> string \<Rightarrow> string \<Rightarrow> agent_world
      \<Rightarrow> (go_error + db_row option) \<times> agent_world" where
  "CreateDb E qnil name owner w =
     (let run = (\<lambda>w1. case q_CreateDb E name owner w1 of
                   (Inl e, w2) \<Rightarrow> (Inl (AlreadyLogged e ErrorLevel), w2)
                 | (Inr r, w2) \<Rightarrow> (Inr (Some r), w2))
      in if qnil then api_Query E run (\<lambda>e. Inr None) w else run w)"

definition CreateDbTask ::
    "agent_env \<Rightarrow> bool \<Rightarrow> create_task_params \<Rightarrow> agent_world \<Rightarrow> (go_error + db_task_row) \<times> agent_world" where
  "CreateDbTask E qnil p w =
     (let run = (\<lambda>w1. case q_CreateDbTask E p w1 of
                   (Inl e, w2) \<Rightarrow> (Inl (AlreadyLogged e ErrorLevel), w2)
                 | (Inr r, w2) \<Rightarrow> (Inr r, w2))
      in if qnil then api_Query E run (\<lambda>e. Inl (AlreadyLogged e ErrorLevel)) w else run w)"

definition ListDbs ::
    "agent_env \<Rightarrow> bool \<Rightarrow> agent_world \<Rightarrow> (go_error + db_row list) \<times> agent_world" where
  "ListDbs E qnil w =
     (let run = (\<lambda>w1. case q_ListDbs E w1 of
                   (Inl e, w2) \<Rightarrow> (if e = ErrNoRows then Inr [] else Inl e, w2)
                 | (Inr rs, w2) \<Rightarrow> (Inr rs, w2))
      in if qnil then api_Query E run (\<lambda>e. Inr []) w else run w)"

definition ToProtoDatabases :: "agent_env \<Rightarrow> db_row list \<Rightarrow> time proto_database option list" where
  "ToProtoDatabases E dbs = map (\<lambda>d. ToProto (env_uuid_string E) (Some d)) dbs"

text \<open>
  \<open>MigrateDB\<close> pings until the database answers or the quit context is done, then runs goose. It
  need not return: \<open>None\<close>.
\<close>

partial_function (option) ping_loop ::
    "agent_env \<Rightarrow> agent_world \<Rightarrow> (go_error option \<times> agent_world) option" where
  "ping_loop E w =
     (case ext E w of
        (None, w1) \<Rightarrow> Some (None, w1)
      | (Some e, w1) \<Rightarrow>
          if env_quit E (w_calls w) then Some (Some (ErrExt ''context canceled''), w1)
          else ping_loop E w1)"

definition MigrateDB :: "agent_env \<Rightarrow> agent_world \<Rightarrow> (go_error option \<times> agent_world) option" where
  "MigrateDB E w =
     (case ping_loop E w of
        None \<Rightarrow> None
      | Some (Some e, w1) \<Rightarrow> Some (Some e, w1)
      | Some (None, w1) \<Rightarrow> Some (ext E w1))"

section \<open>The operations when the environment answers\<close>

text \<open>The version of a row a caller holds is current when the table holds it with this \<open>updated_at\<close>.\<close>

definition task_current :: "agent_world \<Rightarrow> db_task_row \<Rightarrow> bool" where
  "task_current w t =
     (find (\<lambda>r. tk_ID r = tk_ID t \<and> tk_UpdatedAt r = tk_UpdatedAt t) (w_tasks w) \<noteq> None)"

definition db_current :: "agent_world \<Rightarrow> db_row \<Rightarrow> bool" where
  "db_current w d =
     (find (\<lambda>r. db_ID r = db_ID d \<and> db_UpdatedAt r = db_UpdatedAt d) (w_dbs w) \<noteq> None)"

text \<open>What the two updates write.\<close>

definition write_task :: "db_task_row \<Rightarrow> time \<Rightarrow> db_task_row \<Rightarrow> db_task_row" where
  "write_task t now r = r\<lparr>tk_Status := tk_Status t,
     tk_Data := (tk_Data r)\<lparr>td_ErrReason := td_ErrReason (tk_Data t)\<rparr>, tk_UpdatedAt := now\<rparr>"

definition write_db :: "db_row \<Rightarrow> time \<Rightarrow> db_row \<Rightarrow> db_row" where
  "write_db d now r = r\<lparr>db_Status := db_Status d, db_Stage := db_Stage d,
     db_ErrorMsg := db_ErrorMsg d, db_UpdatedAt := now, db_ExpiredAt := db_ExpiredAt d,
     db_LastJobID := db_LastJobID d, db_MigrateFrom := db_MigrateFrom d,
     db_MigrateTo := db_MigrateTo d\<rparr>"

definition put_task :: "db_task_row \<Rightarrow> time \<Rightarrow> db_task_row list \<Rightarrow> db_task_row list" where
  "put_task t now = upd_where (\<lambda>r. tk_ID r = tk_ID t \<and> tk_UpdatedAt r = tk_UpdatedAt t) (write_task t now)"

definition put_db :: "db_row \<Rightarrow> time \<Rightarrow> db_row list \<Rightarrow> db_row list" where
  "put_db d now = upd_where (\<lambda>r. db_ID r = db_ID d \<and> db_UpdatedAt r = db_UpdatedAt d) (write_db d now)"

lemma write_task_key [simp]:
  "tk_ID (write_task t now r) = tk_ID r" "tk_UpdatedAt (write_task t now r) = now"
  "tk_Status (write_task t now r) = tk_Status t" "tk_JobID (write_task t now r) = tk_JobID r"
  by (simp_all add: write_task_def)

lemma write_db_key [simp]:
  "db_ID (write_db d now r) = db_ID r" "db_Name (write_db d now r) = db_Name r"
  "db_Owner (write_db d now r) = db_Owner r" "db_UpdatedAt (write_db d now r) = now"
  "db_Stage (write_db d now r) = db_Stage d" "db_Status (write_db d now r) = db_Status d"
  "db_LastJobID (write_db d now r) = db_LastJobID d"
  by (simp_all add: write_db_def)

lemma map_put_task [simp]: "map tk_ID (put_task t now rows) = map tk_ID rows"
  by (simp add: put_task_def map_upd_where)

lemma map_put_db [simp]:
  "map db_ID (put_db d now rows) = map db_ID rows" "map db_Name (put_db d now rows) = map db_Name rows"
  by (simp_all add: put_db_def map_upd_where)

lemma put_task_stale:
  "\<not> task_current w t \<Longrightarrow> put_task t now (w_tasks w) = w_tasks w"
  by (auto simp: task_current_def put_task_def find_None_iff intro!: upd_where_id)

lemma put_db_stale: "\<not> db_current w d \<Longrightarrow> put_db d now (w_dbs w) = w_dbs w"
  by (auto simp: db_current_def put_db_def find_None_iff intro!: upd_where_id)

lemma sel_put_task [tbl_simps]:
  "sel_by tk_ID k (put_task t now rows) =
     map_option (\<lambda>r. if tk_ID r = tk_ID t \<and> tk_UpdatedAt r = tk_UpdatedAt t
                     then write_task t now r else r) (sel_by tk_ID k rows)"
  by (simp add: put_task_def sel_by_upd_where)

lemma sel_put_db [tbl_simps]:
  "sel_by db_ID k (put_db d now rows) =
     map_option (\<lambda>r. if db_ID r = db_ID d \<and> db_UpdatedAt r = db_UpdatedAt d
                     then write_db d now r else r) (sel_by db_ID k rows)"
  by (simp add: put_db_def sel_by_upd_where)

text \<open>
  The two updates on every branch: with a connection (if it needs one) and the current version
  they write the row; with a stale version they return \<open>ErrNoRows\<close> and change nothing; a fault
  changes nothing.
\<close>

lemma q_SetDbTaskStatus_eq:
  "q_SetDbTaskStatus E (tk_ID t) (tk_Status t) (td_ErrReason (tk_Data t)) (tk_UpdatedAt t) w =
     (case env_fault E (w_calls w) of
        Some e \<Rightarrow> (Inl e, w\<lparr>w_calls := Suc (w_calls w)\<rparr>)
      | None \<Rightarrow>
          (one_row (map_option (write_task t (env_now E (w_calls w)))
             (find (\<lambda>r. tk_ID r = tk_ID t \<and> tk_UpdatedAt r = tk_UpdatedAt t) (w_tasks w))),
           w\<lparr>w_calls := Suc (w_calls w), w_tasks := put_task t (env_now E (w_calls w)) (w_tasks w)\<rparr>))"
  by (simp add: q_SetDbTaskStatus_def query1_def ext_def Let_def put_task_def write_task_def [abs_def]
      split: option.splits)

lemma q_SetDbStatus_eq:
  "q_SetDbStatus E d w =
     (case env_fault E (w_calls w) of
        Some e \<Rightarrow> (Inl e, w\<lparr>w_calls := Suc (w_calls w)\<rparr>)
      | None \<Rightarrow>
          (one_row (map_option (write_db d (env_now E (w_calls w)))
             (find (\<lambda>r. db_ID r = db_ID d \<and> db_UpdatedAt r = db_UpdatedAt d) (w_dbs w))),
           w\<lparr>w_calls := Suc (w_calls w), w_dbs := put_db d (env_now E (w_calls w)) (w_dbs w)\<rparr>))"
  by (simp add: q_SetDbStatus_def query1_def ext_def Let_def put_db_def write_db_def [abs_def]
      split: option.splits)


lemma task_current_iff:
  "distinct (map tk_ID (w_tasks w)) \<Longrightarrow>
     task_current w t \<longleftrightarrow> (\<exists>r. sel_by tk_ID (tk_ID t) (w_tasks w) = Some r \<and> tk_UpdatedAt r = tk_UpdatedAt t)"
  by (auto simp: task_current_def find_key_and split: option.splits)

lemma db_current_iff:
  "distinct (map db_ID (w_dbs w)) \<Longrightarrow>
     db_current w d \<longleftrightarrow> (\<exists>r. sel_by db_ID (db_ID d) (w_dbs w) = Some r \<and> db_UpdatedAt r = db_UpdatedAt d)"
  by (auto simp: db_current_def find_key_and split: option.splits)

text \<open>The call at which the \<open>UPDATE\<close> itself runs: one later when a connection is acquired first.\<close>

definition stmt_call :: "bool \<Rightarrow> agent_world \<Rightarrow> nat" where
  "stmt_call qnil w = (if qnil then Suc (w_calls w) else w_calls w)"

definition proto_of :: "agent_env \<Rightarrow> db_row \<Rightarrow> time proto_database" where
  "proto_of E d = (the (ToProto (env_uuid_string E) (Some d)))
     \<lparr>pd_InstanceName := cfg_InstanceName (env_cfg E)\<rparr>"

lemma proto_of_fields [simp]:
  "pd_Stage (proto_of E d) = db_Stage d" "pd_Status (proto_of E d) = db_Status d"
  "pd_Name (proto_of E d) = db_Name d" "pd_InstanceName (proto_of E d) = cfg_InstanceName (env_cfg E)"
  by (simp_all add: proto_of_def ToProto_def)

lemma NotifyDbStatusChanged_eq:
  "NotifyDbStatusChanged E d w = w\<lparr>w_notified := w_notified w @ [proto_of E d]\<rparr>"
  by (simp add: NotifyDbStatusChanged_def proto_of_def ToProto_def)

lemma UpdateTaskStatus_healthy [api_simps]:
  assumes "healthy E"
  shows "UpdateTaskStatus E qnil t w =
     ((if task_current w t then (t\<lparr>tk_UpdatedAt := env_now E (stmt_call qnil w)\<rparr>, None)
       else (t, Some ErrNoRows)),
      w\<lparr>w_calls := Suc (stmt_call qnil w),
         w_tasks := put_task t (env_now E (stmt_call qnil w)) (w_tasks w)\<rparr>)"
  using assms
  by (auto simp: UpdateTaskStatus_def api_Query_def q_SetDbTaskStatus_eq ext_healthy healthy_def
      task_current_def one_row_def stmt_call_def split: option.splits)

lemma UpdateDbStatus_healthy [api_simps]:
  assumes "healthy E"
  shows "UpdateDbStatus E qnil d w =
     (if db_current w d
      then ((d\<lparr>db_UpdatedAt := env_now E (stmt_call qnil w)\<rparr>, None),
            w\<lparr>w_calls := Suc (stmt_call qnil w),
               w_dbs := put_db d (env_now E (stmt_call qnil w)) (w_dbs w),
               w_notified := w_notified w @ [proto_of E (d\<lparr>db_UpdatedAt := env_now E (stmt_call qnil w)\<rparr>)]\<rparr>)
      else ((d, Some ErrNoRows), w\<lparr>w_calls := Suc (stmt_call qnil w)\<rparr>))"
  using assms put_db_stale [of w d]
  by (auto simp: UpdateDbStatus_def api_Query_def q_SetDbStatus_eq ext_healthy healthy_def
      db_current_def one_row_def stmt_call_def NotifyDbStatusChanged_eq Let_def split: option.splits)

lemma GetDb_healthy [api_simps]:
  "healthy E \<Longrightarrow> GetDb E qnil i w =
     ((case sel_by db_ID i (w_dbs w) of None \<Rightarrow> Inl ErrNoRows | Some r \<Rightarrow> Inr (Some r)),
      w\<lparr>w_calls := Suc (stmt_call qnil w)\<rparr>)"
  by (simp add: GetDb_def api_Query_def q_GetDbByID_def query1_def ext_healthy one_row_def
      stmt_call_def split: option.splits)

lemma GetDbByName_healthy [api_simps]:
  "healthy E \<Longrightarrow> GetDbByName E qnil n w =
     ((case sel_by db_Name n (w_dbs w) of None \<Rightarrow> Inl ErrNoRows | Some r \<Rightarrow> Inr (Some r)),
      w\<lparr>w_calls := Suc (stmt_call qnil w)\<rparr>)"
  by (simp add: GetDbByName_def api_Query_def q_GetDbByName_def query1_def ext_healthy one_row_def
      stmt_call_def split: option.splits)

text \<open>
  Without a connection the four readers that drop the error of \<open>Query\<close> answer nil, nil.
\<close>

lemma dropped_acquire_error:
  assumes "env_fault E (w_calls w) = Some e"
  shows "fst (GetDb E True i w) = Inr None" and "fst (GetDbByName E True n w) = Inr None"
    and "fst (CreateDb E True n o' w) = Inr None" and "fst (ListDbs E True w) = Inr []"
    and "fst (CreateDbTask E True p w) = Inl (AlreadyLogged e ErrorLevel)"
  using assms
  by (simp_all add: GetDb_def GetDbByName_def CreateDb_def ListDbs_def CreateDbTask_def
      api_Query_def ext_def)

section \<open>The table invariant\<close>

text \<open>
  Ids and names are unique, ids come from the sequence, and no stored task holds a password.
\<close>

definition wf_tables :: "db_row list \<Rightarrow> int \<Rightarrow> db_task_row list \<Rightarrow> bool" where
  "wf_tables dbs next_id tasks \<longleftrightarrow>
     distinct (map db_ID dbs) \<and> distinct (map db_Name dbs) \<and>
     (\<forall>r \<in> set dbs. db_ID r < next_id) \<and>
     distinct (map tk_ID tasks) \<and>
     (\<forall>r \<in> set tasks. td_Password (tk_Data r) = [])"

definition wf_world :: "agent_world \<Rightarrow> bool" where
  "wf_world w = wf_tables (w_dbs w) (w_next_id w) (w_tasks w)"

lemma set_put_task:
  "r \<in> set (put_task t now rows) \<Longrightarrow> \<exists>r0 \<in> set rows. r = r0 \<or> r = write_task t now r0"
  by (auto simp: put_task_def dest!: set_upd_where_cases)

lemma set_put_db:
  "r \<in> set (put_db d now rows) \<Longrightarrow> \<exists>r0 \<in> set rows. r = r0 \<or> r = write_db d now r0"
  by (auto simp: put_db_def dest!: set_upd_where_cases)

lemma write_task_password [simp]:
  "td_Password (tk_Data (write_task t now r)) = td_Password (tk_Data r)"
  by (simp add: write_task_def)

lemma wf_put_task [simp]: "wf_tables dbs n tasks \<Longrightarrow> wf_tables dbs n (put_task t now tasks)"
  by (auto simp: wf_tables_def dest!: set_put_task)

lemma wf_put_db [simp]: "wf_tables dbs n tasks \<Longrightarrow> wf_tables (put_db d now dbs) n tasks"
  by (auto simp: wf_tables_def dest!: set_put_db)

text \<open>A \<open>DbApi\<close> operation only repackages the result of its query.\<close>

lemma snd_case_result [simp]:
  "snd (case p of (Inl e, w2) \<Rightarrow> (f e w2, w2) | (Inr r, w2) \<Rightarrow> (g r w2, w2)) = snd p"
  by (auto split: prod.splits sum.splits)

section \<open>Atomicity, locking, termination\<close>

text \<open>A transaction that does not commit leaves both tables as it found them.\<close>

lemma QueryWithRollback_atomic:
  assumes "\<And>w1. \<not> fst (f w1)"
  shows "w_dbs (snd (api_QueryWithRollback E f w)) = w_dbs w"
    and "w_tasks (snd (api_QueryWithRollback E f w)) = w_tasks w"
  using assms
  by (auto simp: api_QueryWithRollback_def ext_def split: option.splits prod.splits) (metis fst_conv)+

text \<open>The two updates succeed exactly against the current version of the row, on every branch.\<close>

lemma UpdateDbStatus_cases:
  "(\<exists>now. fst (UpdateDbStatus E qnil d w) = (d\<lparr>db_UpdatedAt := now\<rparr>, None) \<and> db_current w d \<and>
       w_dbs (snd (UpdateDbStatus E qnil d w)) = put_db d now (w_dbs w) \<and>
       w_notified (snd (UpdateDbStatus E qnil d w)) = w_notified w @ [proto_of E (d\<lparr>db_UpdatedAt := now\<rparr>)]) \<or>
   (\<exists>e. fst (UpdateDbStatus E qnil d w) = (d, Some e) \<and>
       w_dbs (snd (UpdateDbStatus E qnil d w)) = w_dbs w \<and>
       w_notified (snd (UpdateDbStatus E qnil d w)) = w_notified w)"
  using put_db_stale [of w d]
  by (auto simp: UpdateDbStatus_def api_Query_def q_SetDbStatus_eq ext_def Let_def one_row_def
      db_current_def NotifyDbStatusChanged_eq split: option.splits)

lemma ping_loop_unfold:
  "ping_loop E w =
     (if env_fault E (w_calls w) = None then Some (None, w\<lparr>w_calls := Suc (w_calls w)\<rparr>)
      else if env_quit E (w_calls w)
      then Some (Some (ErrExt ''context canceled''), w\<lparr>w_calls := Suc (w_calls w)\<rparr>)
      else ping_loop E (w\<lparr>w_calls := Suc (w_calls w)\<rparr>))"
  by (subst ping_loop.simps) (auto simp: ext_def split: option.splits)

text \<open>The ping loop returns as soon as a ping is answered or the quit context is done.\<close>

lemma ping_loop_returns:
  assumes "env_fault E (w_calls w + k) = None \<or> env_quit E (w_calls w + k)"
  shows "\<exists>r. ping_loop E w = Some r"
  using assms
proof (induction k arbitrary: w)
  case 0
  then show ?case by (subst ping_loop_unfold) auto
next
  case (Suc k)
  then have "\<exists>r. ping_loop E (w\<lparr>w_calls := Suc (w_calls w)\<rparr>) = Some r" by simp
  then show ?case by (subst ping_loop_unfold) auto
qed

end
