(* ===== verification/Agent_Queues.thy ===== *)
theory Agent_Queues
  imports Db_Api Transitions
begin

text \<open>
  The agent under load. Requests of the server, the job handler and the workers share a pool of
  \<open>MaxConns\<close> connections (\<open>db_api.go\<close>) and talk over unbuffered channels (\<open>pkg/server/consumer.go\<close>,
  put together in \<open>internal/agent/agent.go\<close>). A step is an acquire or release of a connection or one
  communication. The properties say exactly when this comes to a standstill. The reports of a changed
  status, which go to a consumer of their own and on to the server, are taken to be sent.
\<close>

section \<open>Connections\<close>

datatype conn_op = AcquireConn | ReleaseConn

text \<open>
  What an action does with the pool when all goes well. \<open>DbApi.Query\<close> holds a connection while its
  function runs, and a call of \<open>DbApi\<close> without a query object takes one for itself; a call with one takes
  none. The lists name these calls in order, the deferred ones last.
\<close>

abbreviation own_conn :: "conn_op list" where
  "own_conn \<equiv> [AcquireConn, ReleaseConn]"

definition in_Query :: "conn_op list \<Rightarrow> conn_op list" where
  "in_Query ops = AcquireConn # ops @ [ReleaseConn]"

text \<open>Update of the task, reading the database; then its final status and the task's.\<close>

definition createUser_conns :: "conn_op list" where
  "createUser_conns = in_Query (own_conn @ own_conn @ own_conn @ own_conn)"

text \<open>Only the two final updates.\<close>

definition createDatabase_conns :: "conn_op list" where
  "createDatabase_conns = in_Query (own_conn @ own_conn)"

text \<open>Reading the database and the final update of the task.\<close>

definition migrateOut_conns :: "conn_op list" where
  "migrateOut_conns = in_Query (own_conn @ own_conn)"

text \<open>Update of the task, reading and updating the database; then both final updates.\<close>

definition BackupDb_conns :: "conn_op list" where
  "BackupDb_conns = own_conn @ own_conn @ own_conn @ own_conn @ own_conn"

definition RestoreDb_conns :: "conn_op list" where
  "RestoreDb_conns = own_conn @ own_conn @ own_conn @ own_conn @ own_conn"

text \<open>Update of the task, reading and updating the database, and the final update of the task.\<close>

definition WaitReadyDb_conns :: "conn_op list" where
  "WaitReadyDb_conns = own_conn @ own_conn @ own_conn @ own_conn"

definition conn_use :: "DbAction \<Rightarrow> conn_op list" where
  "conn_use action =
     (case action of
        DbActionMigrateOut \<Rightarrow> migrateOut_conns
      | DbActionCreateUser \<Rightarrow> createUser_conns
      | DbActionCreate \<Rightarrow> createDatabase_conns
      | DbActionBackup \<Rightarrow> BackupDb_conns
      | DbActionRestore \<Rightarrow> RestoreDb_conns
      | DbActionWaitReady \<Rightarrow> WaitReadyDb_conns
      | _ \<Rightarrow> [])"

lemmas conn_use_defs = conn_use_def in_Query_def createUser_conns_def createDatabase_conns_def migrateOut_conns_def
  BackupDb_conns_def RestoreDb_conns_def WaitReadyDb_conns_def

text \<open>\<open>depth\<close> connections are held, never more than two, and all are given back.\<close>

fun nested :: "nat \<Rightarrow> conn_op list \<Rightarrow> bool" where
  "nested depth [] = (depth = 0)"
| "nested depth (AcquireConn # ops) = (depth < 2 \<and> nested (Suc depth) ops)"
| "nested depth (ReleaseConn # ops) = (0 < depth \<and> nested (depth - 1) ops)"

lemma conn_use_nested: "nested 0 (conn_use action)"
  by (simp add: conn_use_defs split: DbAction.split)

section \<open>The queues\<close>

text \<open>
  A job is the actions it has still to run. A request waits for a connection, then holds it until its
  job is sent. The consumer of jobs handles one message at a time, the consumer of tasks \<open>MaxWorkers\<close>;
  each holds one more element, received before there is room. A worker has its connections, what it
  will still do with the pool, and the rest of its job; after that it sends its task back.
\<close>

type_synonym job_rest = "conn_op list list"

record agent_queues =
  aq_requests :: "job_rest list"
  aq_sending :: "job_rest list"
  aq_jobRun :: "job_rest option"
  aq_handler :: "job_rest list option"
  aq_taskRun :: "job_rest option"
  aq_workers :: "(nat \<times> conn_op list \<times> job_rest) list"

definition MaxWorkers :: nat where
  "MaxWorkers = 4"

definition held_conns :: "agent_queues \<Rightarrow> nat" where
  "held_conns s = length (aq_sending s) + sum_list (map fst (aq_workers s))"

datatype queue_step =
    RequestAcquire
  | SendJob
  | StartHandle
  | SendTask
  | EndHandle
  | StartWork
  | WorkConn nat
  | SendDone nat

text \<open>The tasks a message makes ready: the next action of its job.\<close>

fun next_tasks :: "job_rest \<Rightarrow> job_rest list" where
  "next_tasks [] = []"
| "next_tasks (ops # rest) = [ops # rest]"

fun queue_do :: "nat \<Rightarrow> queue_step \<Rightarrow> agent_queues \<Rightarrow> agent_queues option" where
  "queue_do c RequestAcquire s =
     (case aq_requests s of
        j # js \<Rightarrow> if held_conns s < c then Some (s\<lparr>aq_requests := js, aq_sending := aq_sending s @ [j]\<rparr>) else None
      | [] \<Rightarrow> None)"
| "queue_do c SendJob s =
     (case (aq_sending s, aq_jobRun s) of
        (j # js, None) \<Rightarrow> Some (s\<lparr>aq_sending := js, aq_jobRun := Some j\<rparr>)
      | _ \<Rightarrow> None)"
| "queue_do c StartHandle s =
     (case (aq_jobRun s, aq_handler s) of
        (Some j, None) \<Rightarrow> Some (s\<lparr>aq_jobRun := None, aq_handler := Some (next_tasks j)\<rparr>)
      | _ \<Rightarrow> None)"
| "queue_do c SendTask s =
     (case (aq_handler s, aq_taskRun s) of
        (Some (t # ts), None) \<Rightarrow> Some (s\<lparr>aq_handler := Some ts, aq_taskRun := Some t\<rparr>)
      | _ \<Rightarrow> None)"
| "queue_do c EndHandle s =
     (case aq_handler s of Some [] \<Rightarrow> Some (s\<lparr>aq_handler := None\<rparr>) | _ \<Rightarrow> None)"
| "queue_do c StartWork s =
     (case aq_taskRun s of
        Some (ops # rest) \<Rightarrow>
          if length (aq_workers s) < MaxWorkers
          then Some (s\<lparr>aq_taskRun := None, aq_workers := aq_workers s @ [(0, ops, rest)]\<rparr>) else None
      | _ \<Rightarrow> None)"
| "queue_do c (WorkConn i) s =
     (if i < length (aq_workers s)
      then (case aq_workers s ! i of
              (h, AcquireConn # ops, rest) \<Rightarrow>
                if held_conns s < c then Some (s\<lparr>aq_workers := (aq_workers s)[i := (Suc h, ops, rest)]\<rparr>) else None
            | (h, ReleaseConn # ops, rest) \<Rightarrow> Some (s\<lparr>aq_workers := (aq_workers s)[i := (h - 1, ops, rest)]\<rparr>)
            | _ \<Rightarrow> None)
      else None)"
| "queue_do c (SendDone i) s =
     (if i < length (aq_workers s)
      then (case (aq_workers s ! i, aq_jobRun s) of
              ((h, [], rest), None) \<Rightarrow>
                Some (s\<lparr>aq_workers := del_at i (aq_workers s), aq_jobRun := Some rest\<rparr>)
            | _ \<Rightarrow> None)
      else None)"

definition queue_steps :: "nat \<Rightarrow> agent_queues \<Rightarrow> agent_queues \<Rightarrow> bool" where
  "queue_steps c s s' = (\<exists>l. queue_do c l s = Some s')"

definition finished_queues :: "agent_queues \<Rightarrow> bool" where
  "finished_queues s = (aq_requests s = [] \<and> aq_sending s = [] \<and> aq_jobRun s = None \<and> aq_handler s = None \<and>
     aq_taskRun s = None \<and> aq_workers s = [])"

text \<open>The requests to create \<open>n\<close> new databases have arrived.\<close>

definition create_rest :: job_rest where
  "create_rest = map conn_use [DbActionCreateUser, DbActionCreate, DbActionWaitReady]"

definition requested :: "nat \<Rightarrow> agent_queues" where
  "requested n = \<lparr>aq_requests = replicate n create_rest, aq_sending = [], aq_jobRun = None, aq_handler = None,
     aq_taskRun = None, aq_workers = []\<rparr>"

definition standstill :: "nat \<Rightarrow> agent_queues \<Rightarrow> bool" where
  "standstill c s \<longleftrightarrow> \<not> finished_queues s \<and> {s'. queue_steps c s s'} = {}"

section \<open>The invariant\<close>

definition jobs_in :: "agent_queues \<Rightarrow> nat" where
  "jobs_in s = length (aq_requests s) + length (aq_sending s) + (case aq_jobRun s of None \<Rightarrow> 0 | Some j \<Rightarrow> 1) +
     (case aq_handler s of None \<Rightarrow> 0 | Some ts \<Rightarrow> length ts) + (case aq_taskRun s of None \<Rightarrow> 0 | Some t \<Rightarrow> 1) +
     length (aq_workers s)"

abbreviation good_job :: "job_rest \<Rightarrow> bool" where
  "good_job j \<equiv> list_all (nested 0) j"

definition queues_inv :: "nat \<Rightarrow> agent_queues \<Rightarrow> bool" where
  "queues_inv n s \<longleftrightarrow> jobs_in s \<le> n \<and> length (aq_workers s) \<le> MaxWorkers \<and>
     list_all good_job (aq_requests s @ aq_sending s) \<and>
     pred_option good_job (aq_jobRun s) \<and>
     pred_option (list_all (\<lambda>t. t \<noteq> [] \<and> good_job t)) (aq_handler s) \<and>
     pred_option (\<lambda>t. t \<noteq> [] \<and> good_job t) (aq_taskRun s) \<and>
     list_all (\<lambda>(h, ops, rest). nested h ops \<and> good_job rest) (aq_workers s)"

lemma list_all_update: "list_all P xs \<Longrightarrow> P x \<Longrightarrow> list_all P (xs[i := x])"
  by (auto simp: list_all_iff dest: set_update_subset_insert[THEN subsetD])

lemma list_all_del_at: "list_all P xs \<Longrightarrow> list_all P (del_at i xs)"
  by (auto simp: del_at_def list_all_iff dest: in_set_takeD in_set_dropD)

lemma list_all_nthD: "list_all P xs \<Longrightarrow> i < length xs \<Longrightarrow> P (xs ! i)"
  by (simp add: list_all_length)

text \<open>What each step does when it is possible.\<close>

lemma queue_do_RequestAcquire:
  "queue_do c RequestAcquire s = Some s' \<longleftrightarrow> (\<exists>j js. aq_requests s = j # js \<and> held_conns s < c \<and>
     s' = s\<lparr>aq_requests := js, aq_sending := aq_sending s @ [j]\<rparr>)"
  by (auto split: list.splits)

lemma queue_do_SendJob:
  "queue_do c SendJob s = Some s' \<longleftrightarrow> (\<exists>j js. aq_sending s = j # js \<and> aq_jobRun s = None \<and>
     s' = s\<lparr>aq_sending := js, aq_jobRun := Some j\<rparr>)"
  by (auto split: list.splits option.splits)

lemma queue_do_StartHandle:
  "queue_do c StartHandle s = Some s' \<longleftrightarrow> (\<exists>j. aq_jobRun s = Some j \<and> aq_handler s = None \<and>
     s' = s\<lparr>aq_jobRun := None, aq_handler := Some (next_tasks j)\<rparr>)"
  by (auto split: option.splits)

lemma queue_do_SendTask:
  "queue_do c SendTask s = Some s' \<longleftrightarrow> (\<exists>t ts. aq_handler s = Some (t # ts) \<and> aq_taskRun s = None \<and>
     s' = s\<lparr>aq_handler := Some ts, aq_taskRun := Some t\<rparr>)"
  by (auto split: option.splits list.splits)

lemma queue_do_EndHandle:
  "queue_do c EndHandle s = Some s' \<longleftrightarrow> aq_handler s = Some [] \<and> s' = s\<lparr>aq_handler := None\<rparr>"
  by (auto split: option.splits list.splits)

lemma queue_do_StartWork:
  "queue_do c StartWork s = Some s' \<longleftrightarrow> (\<exists>ops rest. aq_taskRun s = Some (ops # rest) \<and>
     length (aq_workers s) < MaxWorkers \<and> s' = s\<lparr>aq_taskRun := None, aq_workers := aq_workers s @ [(0, ops, rest)]\<rparr>)"
  by (auto split: option.splits list.splits)

lemma queue_do_WorkConn:
  "queue_do c (WorkConn i) s = Some s' \<longleftrightarrow> i < length (aq_workers s) \<and>
     (\<exists>h ops rest. aq_workers s ! i = (h, AcquireConn # ops, rest) \<and> held_conns s < c \<and>
        s' = s\<lparr>aq_workers := (aq_workers s)[i := (Suc h, ops, rest)]\<rparr> \<or>
      aq_workers s ! i = (h, ReleaseConn # ops, rest) \<and> s' = s\<lparr>aq_workers := (aq_workers s)[i := (h - 1, ops, rest)]\<rparr>)"
  by (auto split: prod.splits list.splits conn_op.splits)

lemma queue_do_SendDone:
  "queue_do c (SendDone i) s = Some s' \<longleftrightarrow> i < length (aq_workers s) \<and>
     (\<exists>h rest. aq_workers s ! i = (h, [], rest) \<and> aq_jobRun s = None \<and>
        s' = s\<lparr>aq_workers := del_at i (aq_workers s), aq_jobRun := Some rest\<rparr>)"
  by (auto split: prod.splits list.splits option.splits)

lemmas queue_do_iffs = queue_do_RequestAcquire queue_do_SendJob queue_do_StartHandle queue_do_SendTask
  queue_do_EndHandle queue_do_StartWork queue_do_WorkConn queue_do_SendDone

declare queue_do.simps [simp del]

lemma next_tasks_good: "good_job j \<Longrightarrow> list_all (\<lambda>t. t \<noteq> [] \<and> good_job t) (next_tasks j)"
  by (cases j) simp_all

lemma next_tasks_length: "length (next_tasks j) \<le> 1"
  by (cases j) simp_all

lemma queues_inv_step:
  assumes do: "queue_do c l s = Some s'" and inv: "queues_inv n s"
  shows "queues_inv n s'"
proof (cases l)
  case (WorkConn i)
  then obtain h op ops rest where w: "i < length (aq_workers s)" "aq_workers s ! i = (h, op # ops, rest)"
    and s': "op = AcquireConn \<and> s' = s\<lparr>aq_workers := (aq_workers s)[i := (Suc h, ops, rest)]\<rparr> \<or>
      op = ReleaseConn \<and> s' = s\<lparr>aq_workers := (aq_workers s)[i := (h - 1, ops, rest)]\<rparr>"
    using do by (auto simp: queue_do_WorkConn)
  have "nested h (op # ops) \<and> good_job rest" using inv list_all_nthD[OF _ w(1)] w(2) by (fastforce simp: queues_inv_def)
  with inv s' show ?thesis by (auto simp: queues_inv_def jobs_in_def list_all_update)
next
  case (SendDone i)
  then obtain h rest where w: "i < length (aq_workers s)" "aq_workers s ! i = (h, [], rest)" "aq_jobRun s = None"
    and s': "s' = s\<lparr>aq_workers := del_at i (aq_workers s), aq_jobRun := Some rest\<rparr>"
    using do by (auto simp: queue_do_SendDone)
  have "good_job rest" using inv list_all_nthD[OF _ w(1)] w(2) by (fastforce simp: queues_inv_def)
  with inv w s' show ?thesis by (auto simp: queues_inv_def jobs_in_def list_all_del_at)
next
  case StartHandle
  then obtain j where "aq_jobRun s = Some j" "aq_handler s = None"
    and "s' = s\<lparr>aq_jobRun := None, aq_handler := Some (next_tasks j)\<rparr>"
    using do by (auto simp: queue_do_StartHandle)
  with inv next_tasks_good[of j] next_tasks_length[of j] show ?thesis by (auto simp: queues_inv_def jobs_in_def)
qed (use do inv in \<open>auto simp: queue_do_iffs queues_inv_def jobs_in_def\<close>)

abbreviation queue_reaches :: "nat \<Rightarrow> agent_queues \<Rightarrow> agent_queues \<Rightarrow> bool" where
  "queue_reaches c \<equiv> (queue_steps c)\<^sup>*\<^sup>*"

interpretation queues: preserved "queue_steps c" "queues_inv n" for c n
  by unfold_locales (auto simp: queue_steps_def intro: queues_inv_step)

lemma queues_inv_requested: "queues_inv n (requested n)"
  by (simp add: queues_inv_def requested_def jobs_in_def create_rest_def conn_use_nested list_all_iff)

section \<open>A standstill needs load\<close>

text \<open>A worker that waits for a connection holds at most one, and one that has finished holds none.\<close>

lemma waiting_workers_hold:
  assumes "list_all (\<lambda>(h, ops, rest). nested h ops \<and> good_job rest) ws"
    and "\<And>h ops rest. (h, ReleaseConn # ops, rest) \<notin> set ws"
  shows "sum_list (map fst ws) \<le> length ws"
  using assms
proof (induction ws)
  case (Cons w ws)
  obtain h ops rest where w: "w = (h, ops, rest)" using prod_cases3 by blast
  have "h \<le> 1"
  proof (cases ops)
    case (Cons op more)
    then show ?thesis using Cons.prems w by (cases op) auto
  qed (use Cons.prems w in simp)
  moreover have "sum_list (map fst ws) \<le> length ws" using Cons by simp
  ultimately show ?case using w by simp
qed simp

lemma can_release:
  "i < length (aq_workers s) \<Longrightarrow> aq_workers s ! i = (h, ReleaseConn # ops, rest) \<Longrightarrow> \<exists>s'. queue_do c (WorkConn i) s = Some s'"
  by (auto simp: queue_do_WorkConn)

lemma can_acquire:
  "i < length (aq_workers s) \<Longrightarrow> aq_workers s ! i = (h, AcquireConn # ops, rest) \<Longrightarrow> held_conns s < c \<Longrightarrow>
     \<exists>s'. queue_do c (WorkConn i) s = Some s'"
  by (auto simp: queue_do_WorkConn)

lemma can_send_done:
  "i < length (aq_workers s) \<Longrightarrow> aq_workers s ! i = (h, [], rest) \<Longrightarrow> aq_jobRun s = None \<Longrightarrow>
     \<exists>s'. queue_do c (SendDone i) s = Some s'"
  by (auto simp: queue_do_SendDone)

lemma standstill_needs_load:
  assumes "queues_inv n s" and "standstill c s"
  shows "7 \<le> n \<or> c \<le> 4 \<and> c \<le> n"
proof -
  have no: "queue_do c l s \<noteq> Some s'" for l s' using assms(2) by (auto simp: standstill_def queue_steps_def)
  have handler: "aq_handler s \<noteq> Some []" using no[of EndHandle] by (auto simp: queue_do_EndHandle)
  have job_run: "aq_handler s \<noteq> None" if "aq_jobRun s \<noteq> None"
    using no[of StartHandle] that by (auto simp: queue_do_StartHandle)
  have sending: "aq_sending s = []" if "aq_jobRun s = None"
    using no[of SendJob] that by (cases "aq_sending s") (auto simp: queue_do_SendJob)
  have task_run: "aq_taskRun s \<noteq> None" if "aq_handler s \<noteq> None"
    using no[of SendTask] that handler by (cases "aq_handler s") (auto simp: queue_do_SendTask neq_Nil_conv)
  have busy: "length (aq_workers s) = 4" if some: "aq_taskRun s \<noteq> None"
  proof -
    obtain u where u: "aq_taskRun s = Some u" using some by auto
    with assms(1) have "u \<noteq> []" and m: "length (aq_workers s) \<le> MaxWorkers" by (simp_all add: queues_inv_def)
    then obtain ops rest where "aq_taskRun s = Some (ops # rest)" using u by (cases u) simp_all
    with m show ?thesis using no[of StartWork] by (auto simp: queue_do_StartWork MaxWorkers_def)
  qed
  have release: "(h, ReleaseConn # ops, rest) \<notin> set (aq_workers s)" for h ops rest
    using no can_release by (metis in_set_conv_nth)
  have acquire: "c \<le> held_conns s" if "(h, AcquireConn # ops, rest) \<in> set (aq_workers s)" for h ops rest
    using no can_acquire that by (metis in_set_conv_nth not_less)
  have idle: "aq_jobRun s \<noteq> None" if "(h, [], rest) \<in> set (aq_workers s)" for h rest
    using no can_send_done that by (metis in_set_conv_nth)
  have request: "c \<le> held_conns s" if "aq_requests s \<noteq> []"
    using no[of RequestAcquire] that by (auto simp: queue_do_RequestAcquire neq_Nil_conv not_less)
  have n: "jobs_in s \<le> n" and ws: "list_all (\<lambda>(h, ops, rest). nested h ops \<and> good_job rest) (aq_workers s)"
    using assms(1) by (simp_all add: queues_inv_def)
  show ?thesis
  proof (cases "aq_jobRun s")
    case (Some j)
    then obtain t ts where h: "aq_handler s = Some (t # ts)" using job_run handler by (cases "aq_handler s") (auto simp: neq_Nil_conv)
    obtain u where "aq_taskRun s = Some u" using task_run h by auto
    with busy Some h n show ?thesis by (auto simp: jobs_in_def)
  next
    case None
    show ?thesis
    proof (cases "c \<le> held_conns s")
      case True
      have "held_conns s \<le> length (aq_workers s)"
        using waiting_workers_hold[OF ws release] sending[OF None] by (simp add: held_conns_def)
      moreover have "length (aq_workers s) \<le> 4" using assms(1) by (simp add: queues_inv_def MaxWorkers_def)
      moreover have "length (aq_workers s) \<le> n" using n by (simp add: jobs_in_def)
      ultimately show ?thesis using True by linarith
    next
      case False
      have "aq_workers s = []"
      proof (rule ccontr)
        assume "aq_workers s \<noteq> []"
        then obtain h ops rest where w: "(h, ops, rest) \<in> set (aq_workers s)" by (metis list.set_sel(1) prod_cases3)
        then show False
        proof (cases ops)
          case (Cons op more)
          then show ?thesis using w acquire False release by (cases op) auto
        qed (use w idle None in simp)
      qed
      then have "finished_queues s"
        using None False request sending task_run busy by (force simp: finished_queues_def)
      then show ?thesis using assms(2) by (simp add: standstill_def)
    qed
  qed
qed

section \<open>A standstill comes with load\<close>

lemma queue_reaches_step: "queue_do c l s = Some s' \<Longrightarrow> queue_reaches c s' t \<Longrightarrow> queue_reaches c s t"
  by (rule converse_rtranclp_into_rtranclp[of "queue_steps c"]) (auto simp: queue_steps_def)

abbreviation queues_at :: "job_rest list \<Rightarrow> job_rest option \<Rightarrow> job_rest list option \<Rightarrow> job_rest option \<Rightarrow>
    (nat \<times> conn_op list \<times> job_rest) list \<Rightarrow> agent_queues" where
  "queues_at rs m h t ws \<equiv> \<lparr>aq_requests = rs, aq_sending = [], aq_jobRun = m, aq_handler = h, aq_taskRun = t, aq_workers = ws\<rparr>"

text \<open>A request gets its job to the job handler, the handler its task to the consumer, and on to a worker.\<close>

lemma request_sends:
  assumes "sum_list (map fst ws) < c"
  shows "queue_reaches c (queues_at (j # js) None h t ws) (queues_at js (Some j) h t ws)"
  by (rule queue_reaches_step[of _ RequestAcquire], simp add: queue_do_RequestAcquire held_conns_def assms)
    (rule queue_reaches_step[of _ SendJob], simp add: queue_do_SendJob, rule rtranclp.rtrancl_refl)

lemma request_handled:
  assumes "sum_list (map fst ws) < c"
  shows "queue_reaches c (queues_at (j # js) None None t ws) (queues_at js None (Some (next_tasks j)) t ws)"
  by (rule rtranclp_trans[OF request_sends[OF assms]])
    (rule queue_reaches_step[of _ StartHandle], simp add: queue_do_StartHandle, rule rtranclp.rtrancl_refl)

lemma request_queued:
  assumes "sum_list (map fst ws) < c"
  shows "queue_reaches c (queues_at ((ops # rest) # js) None None None ws) (queues_at js None None (Some (ops # rest)) ws)"
  by (rule rtranclp_trans[OF request_handled[OF assms]], rule queue_reaches_step[of _ SendTask], simp add: queue_do_SendTask)
    (rule queue_reaches_step[of _ EndHandle], simp add: queue_do_EndHandle, rule rtranclp.rtrancl_refl)

lemma request_worked:
  assumes "sum_list (map fst ws) < c" and "length ws < MaxWorkers"
  shows "queue_reaches c (queues_at ((ops # rest) # js) None None None ws) (queues_at js None None None (ws @ [(0, ops, rest)]))"
  by (rule rtranclp_trans[OF request_queued[OF assms(1)]], rule queue_reaches_step[of _ StartWork])
    (simp add: queue_do_StartWork assms(2), rule rtranclp.rtrancl_refl)

lemma requests_worked:
  "0 < c \<Longrightarrow> k \<le> MaxWorkers \<Longrightarrow>
     queue_reaches c (queues_at (replicate (k + n) (ops # rest)) None None None [])
       (queues_at (replicate n (ops # rest)) None None None (replicate k (0, ops, rest)))"
proof (induction k arbitrary: n)
  case (Suc k)
  have "queue_reaches c (queues_at (replicate (k + Suc n) (ops # rest)) None None None [])
      (queues_at (replicate (Suc n) (ops # rest)) None None None (replicate k (0, ops, rest)))"
    using Suc.IH[of "Suc n"] Suc.prems by simp
  moreover have "queue_reaches c (queues_at ((ops # rest) # replicate n (ops # rest)) None None None (replicate k (0, ops, rest)))
      (queues_at (replicate n (ops # rest)) None None None (replicate k (0, ops, rest) @ [(0, ops, rest)]))"
    using Suc.prems by (intro request_worked) (simp_all add: sum_list_replicate)
  ultimately show ?case by (simp add: replicate_append_same)
qed simp

text \<open>A worker takes one connection; and while two are free it runs its action to the end.\<close>

lemma worker_acquires:
  assumes "sum_list (map fst xs) + h + sum_list (map fst ys) < c"
  shows "queue_reaches c (queues_at rs m g t (xs @ (h, AcquireConn # ops, rest) # ys)) (queues_at rs m g t (xs @ (Suc h, ops, rest) # ys))"
  by (rule queue_reaches_step[of _ "WorkConn (length xs)"])
    (use assms in \<open>simp add: queue_do_WorkConn held_conns_def\<close>, rule rtranclp.rtrancl_refl)

lemma worker_runs:
  "nested h ops \<Longrightarrow> sum_list (map fst xs) + sum_list (map fst ys) + 2 \<le> c \<Longrightarrow>
     queue_reaches c (queues_at rs m g t (xs @ (h, ops, rest) # ys)) (queues_at rs m g t (xs @ (0, [], rest) # ys))"
proof (induction ops arbitrary: h)
  case (Cons op ops)
  show ?case
  proof (cases op)
    case AcquireConn
    with Cons.prems have "nested (Suc h) ops" "h < 2" by simp_all
    with Cons.prems(2) have "sum_list (map fst xs) + h + sum_list (map fst ys) < c" by simp
    from rtranclp_trans[OF worker_acquires[OF this] Cons.IH[OF \<open>nested (Suc h) ops\<close> Cons.prems(2)]]
    show ?thesis by (simp add: AcquireConn)
  next
    case ReleaseConn
    with Cons.prems have "nested (h - 1) ops" by simp
    note rest = Cons.IH[OF this Cons.prems(2)]
    have "queue_do c (WorkConn (length xs)) (queues_at rs m g t (xs @ (h, op # ops, rest) # ys)) =
        Some (queues_at rs m g t (xs @ (h - 1, ops, rest) # ys))"
      by (simp add: queue_do_WorkConn ReleaseConn)
    from queue_reaches_step[OF this rest] show ?thesis .
  qed
qed simp

text \<open>What each worker can do, they all can.\<close>

lemma each_worker:
  assumes "\<And>j d. j + Suc d = k \<Longrightarrow> queue_reaches c (queues_at rs m g t (replicate j y @ x # replicate d x))
      (queues_at rs m g t (replicate j y @ y # replicate d x))"
  shows "queue_reaches c (queues_at rs m g t (replicate k x)) (queues_at rs m g t (replicate k y))"
proof -
  have "queue_reaches c (queues_at rs m g t (replicate k x)) (queues_at rs m g t (replicate j y @ replicate (k - j) x))"
    if "j \<le> k" for j
    using that
  proof (induction j)
    case (Suc j)
    then obtain d where d: "k - j = Suc d" "k - Suc j = d" by (metis Suc_diff_Suc Suc_le_lessD)
    with Suc.prems have "j + Suc d = k" by simp
    from rtranclp_trans[OF _ assms[OF this]] Suc.IH Suc.prems show ?case
      by (simp add: d replicate_app_Cons_same)
  qed simp
  from this[of k] show ?thesis by simp
qed

lemma workers_acquire:
  assumes "k \<le> c"
  shows "queue_reaches c (queues_at rs m g t (replicate k (0, AcquireConn # ops, rest)))
    (queues_at rs m g t (replicate k (Suc 0, ops, rest)))"
proof (rule each_worker)
  fix j d
  assume "j + Suc d = k"
  then show "queue_reaches c (queues_at rs m g t (replicate j (Suc 0, ops, rest) @ (0, AcquireConn # ops, rest) # replicate d (0, AcquireConn # ops, rest)))
      (queues_at rs m g t (replicate j (Suc 0, ops, rest) @ (Suc 0, ops, rest) # replicate d (0, AcquireConn # ops, rest)))"
    using assms by (intro worker_acquires) (simp add: sum_list_replicate)
qed

lemma workers_run:
  assumes "nested 0 ops" and "2 \<le> c"
  shows "queue_reaches c (queues_at rs m g t (replicate k (0, ops, rest))) (queues_at rs m g t (replicate k (0, [], rest)))"
  by (rule each_worker, rule worker_runs) (use assms in \<open>simp_all add: sum_list_replicate\<close>)

text \<open>Requests take connections as long as there are any.\<close>

lemma requests_acquire:
  "\<exists>rs' ss'. queue_reaches c \<lparr>aq_requests = rs, aq_sending = ss, aq_jobRun = m, aq_handler = g, aq_taskRun = t, aq_workers = ws\<rparr>
      \<lparr>aq_requests = rs', aq_sending = ss', aq_jobRun = m, aq_handler = g, aq_taskRun = t, aq_workers = ws\<rparr> \<and>
     (rs' = [] \<or> c \<le> length ss' + sum_list (map fst ws))"
proof (induction rs arbitrary: ss)
  case (Cons r rs)
  show ?case
  proof (cases "length ss + sum_list (map fst ws) < c")
    case True
    then have "queue_do c RequestAcquire \<lparr>aq_requests = r # rs, aq_sending = ss, aq_jobRun = m, aq_handler = g, aq_taskRun = t, aq_workers = ws\<rparr>
       = Some \<lparr>aq_requests = rs, aq_sending = ss @ [r], aq_jobRun = m, aq_handler = g, aq_taskRun = t, aq_workers = ws\<rparr>"
      by (simp add: queue_do_RequestAcquire held_conns_def)
    from queue_reaches_step[OF this] Cons.IH[of "ss @ [r]"] show ?thesis by blast
  next
    case False
    then show ?thesis by (meson not_less rtranclp.rtrancl_refl)
  qed
qed blast

lemma standstill_workers:
  assumes "c \<le> k" and "0 < k" and "k \<le> MaxWorkers"
  shows "standstill c (queues_at rs None None None (replicate k (Suc 0, AcquireConn # ops, rest)))"
proof -
  have "queue_do c l (queues_at rs None None None (replicate k (Suc 0, AcquireConn # ops, rest))) \<noteq> Some s'" for l s'
    using assms by (cases l) (auto simp: queue_do_iffs held_conns_def sum_list_replicate)
  then show ?thesis using assms by (auto simp: standstill_def queue_steps_def finished_queues_def)
qed

lemma standstill_full:
  assumes "rs = [] \<or> c \<le> length ss"
  shows "standstill c \<lparr>aq_requests = rs, aq_sending = ss, aq_jobRun = Some m, aq_handler = Some [g], aq_taskRun = Some t,
    aq_workers = replicate MaxWorkers (0, [], rest)\<rparr>"
proof -
  have "queue_do c l \<lparr>aq_requests = rs, aq_sending = ss, aq_jobRun = Some m, aq_handler = Some [g], aq_taskRun = Some t,
    aq_workers = replicate MaxWorkers (0, [], rest)\<rparr> \<noteq> Some s'" for l s'
    using assms by (cases l) (auto simp: queue_do_iffs held_conns_def sum_list_replicate)
  then show ?thesis by (auto simp: standstill_def queue_steps_def finished_queues_def)
qed

section \<open>Every run ends\<close>

definition job_cost :: "job_rest \<Rightarrow> nat" where
  "job_cost j = sum_list (map (\<lambda>ops. length ops + 5) j)"

definition queues_cost :: "agent_queues \<Rightarrow> nat" where
  "queues_cost s = sum_list (map (\<lambda>j. job_cost j + 5) (aq_requests s)) + sum_list (map (\<lambda>j. job_cost j + 4) (aq_sending s)) +
     (case aq_jobRun s of None \<Rightarrow> 0 | Some j \<Rightarrow> job_cost j + 3) +
     (case aq_handler s of None \<Rightarrow> 0 | Some ts \<Rightarrow> 1 + sum_list (map (\<lambda>j. job_cost j + 1) ts)) +
     (case aq_taskRun s of None \<Rightarrow> 0 | Some t \<Rightarrow> job_cost t) +
     sum_list (map (\<lambda>(h, ops, rest). length ops + job_cost rest + 4) (aq_workers s))"

lemma next_tasks_cost: "sum_list (map (\<lambda>j. job_cost j + 1) (next_tasks j)) \<le> job_cost j + 1"
  by (cases j) simp_all

lemma split_at_worker:
  "i < length ws \<Longrightarrow> \<exists>xs ys. ws = xs @ ws ! i # ys \<and> (\<forall>x. ws[i := x] = xs @ x # ys) \<and> del_at i ws = xs @ ys"
  using id_take_nth_drop[of i ws] by (auto simp: upd_conv_take_nth_drop del_at_def)

lemma queues_cost_step:
  assumes do: "queue_do c l s = Some s'"
  shows "queues_cost s' < queues_cost s"
proof (cases l)
  case (WorkConn i)
  then have i: "i < length (aq_workers s)" using do by (simp add: queue_do_WorkConn)
  then obtain xs ys where "aq_workers s = xs @ aq_workers s ! i # ys" "\<forall>x. (aq_workers s)[i := x] = xs @ x # ys" "del_at i (aq_workers s) = xs @ ys"
    using split_at_worker by blast
  note split = arg_cong[OF this(1), of "\<lambda>ws. sum_list (map (\<lambda>(h, ops, rest). length ops + job_cost rest + 4) ws)"] this(2)
  show ?thesis using do WorkConn split(1) by (auto simp: queue_do_WorkConn queues_cost_def split(2))
next
  case (SendDone i)
  then have i: "i < length (aq_workers s)" using do by (simp add: queue_do_SendDone)
  then obtain xs ys where "aq_workers s = xs @ aq_workers s ! i # ys" "\<forall>x. (aq_workers s)[i := x] = xs @ x # ys" "del_at i (aq_workers s) = xs @ ys"
    using split_at_worker by blast
  note split = arg_cong[OF this(1), of "\<lambda>ws. sum_list (map (\<lambda>(h, ops, rest). length ops + job_cost rest + 4) ws)"] this(3)
  show ?thesis using do SendDone split(1) by (auto simp: queue_do_SendDone queues_cost_def split(2))
next
  case StartHandle
  then obtain j where "aq_jobRun s = Some j" "aq_handler s = None"
    and "s' = s\<lparr>aq_jobRun := None, aq_handler := Some (next_tasks j)\<rparr>"
    using do by (auto simp: queue_do_StartHandle)
  with next_tasks_cost[of j] show ?thesis by (simp add: queues_cost_def)
qed (use do in \<open>auto simp: queue_do_iffs queues_cost_def job_cost_def\<close>)

text \<open>With fewer than seven requests and a connection for each worker and one more, every run can be finished.\<close>

interpretation light_load: finishing "queue_steps c" "\<lambda>s. n < 7 \<and> 4 < c \<and> queues_inv n s" queues_cost finished_queues for c n
proof
  show "queues_cost s' < queues_cost s" if "queue_steps c s s'" for s s'
    using that queues_cost_step by (auto simp: queue_steps_def)
  show "finished_queues s" if "n < 7 \<and> 4 < c \<and> queues_inv n s" and "{t. queue_steps c s t} = {}" for s
    using that standstill_needs_load[of n s c] by (auto simp: standstill_def)
qed (use queues.preserves in blast)

lemma requested_cost: "queues_cost (requested n) = 44 * n"
  by (simp add: queues_cost_def requested_def sum_list_replicate job_cost_def create_rest_def conn_use_defs)

section \<open>Properties\<close>

lemma pool_standstill:
  assumes "0 < c" and "c \<le> 4" and "c \<le> n"
  shows "\<exists>s. queue_reaches c (requested n) s \<and> standstill c s"
proof -
  obtain ops rest where r: "create_rest = (AcquireConn # AcquireConn # ops) # rest"
    by (simp add: create_rest_def conn_use_defs)
  obtain k where k: "n = c + k" using assms(3) le_Suc_ex by blast
  have "queue_reaches c (requested n) (queues_at (replicate k create_rest) None None None (replicate c (0, AcquireConn # AcquireConn # ops, rest)))"
    using requests_worked[of c c k "AcquireConn # AcquireConn # ops" rest] assms by (simp add: requested_def k r MaxWorkers_def)
  from rtranclp_trans[OF this workers_acquire[of c c]]
    standstill_workers[of c c "replicate k create_rest" "ops" rest] assms
  show ?thesis by (auto simp: MaxWorkers_def)
qed

lemma queue_standstill:
  assumes "4 < c" and "7 \<le> n"
  shows "\<exists>s. queue_reaches c (requested n) s \<and> standstill c s"
proof -
  obtain ops rest where r: "create_rest = ops # rest" and ops: "nested 0 ops"
    using conn_use_nested by (simp add: create_rest_def)
  obtain k where k: "n = 7 + k" using assms(2) le_Suc_ex by blast
  let ?done = "replicate MaxWorkers (0::nat, [] :: conn_op list, rest)"
  have free: "sum_list (map fst ?done) < c" using assms by (simp add: sum_list_replicate)
  have seven: "replicate (3 + k) create_rest = create_rest # create_rest # create_rest # replicate k create_rest"
    by (simp add: numeral_3_eq_3)
  have "queue_reaches c (requested n) (queues_at (replicate (3 + k) create_rest) None None None (replicate MaxWorkers (0, ops, rest)))"
    using requests_worked[of c MaxWorkers "3 + k" ops rest] assms by (simp add: requested_def k r MaxWorkers_def)
  also have "queue_reaches c \<dots> (queues_at (create_rest # create_rest # create_rest # replicate k create_rest) None None None ?done)"
    using workers_run[OF ops, of c _ None None None MaxWorkers rest] assms(1) unfolding seven by simp
  also have "queue_reaches c \<dots> (queues_at (create_rest # create_rest # replicate k create_rest) None None (Some create_rest) ?done)"
    unfolding r by (rule request_queued[OF free])
  also have "queue_reaches c \<dots> (queues_at (create_rest # replicate k create_rest) None (Some [create_rest]) (Some create_rest) ?done)"
    using request_handled[OF free, of create_rest] by (simp add: r)
  also have "queue_reaches c \<dots> (queues_at (replicate k create_rest) (Some create_rest) (Some [create_rest]) (Some create_rest) ?done)"
    by (rule request_sends[OF free])
  finally have all: "queue_reaches c (requested n) (queues_at (replicate k create_rest) (Some create_rest) (Some [create_rest]) (Some create_rest) ?done)" .
  obtain rs ss where s: "queue_reaches c (queues_at (replicate k create_rest) (Some create_rest) (Some [create_rest]) (Some create_rest) ?done)
      \<lparr>aq_requests = rs, aq_sending = ss, aq_jobRun = Some create_rest, aq_handler = Some [create_rest],
        aq_taskRun = Some create_rest, aq_workers = ?done\<rparr>" and "rs = [] \<or> c \<le> length ss + sum_list (map fst ?done)"
    using requests_acquire[of c "replicate k create_rest" "[]" "Some create_rest" "Some [create_rest]" "Some create_rest" ?done] by blast
  then have "rs = [] \<or> c \<le> length ss" by (simp add: sum_list_replicate)
  from standstill_full[OF this] rtranclp_trans[OF all s] show ?thesis by blast
qed

text \<open>
  C3. When the agent comes to a standstill. With \<open>n\<close> requests to create databases at once and a pool of
  \<open>c\<close> connections, the agent can get into a state in which nothing moves any more and work is left
  exactly if there are seven requests, or no more than four connections and as many requests as
  connections. In the first case the job handler waits for a worker, the workers for the job handler,
  and each consumer holds an element it has no room for; in the second the workers hold all the
  connections and each waits for another one. The default pool has four connections.
\<close>

theorem agent_stands_still_exactly:
  assumes "0 < c"
  shows "(\<exists>s. queue_reaches c (requested n) s \<and> standstill c s) \<longleftrightarrow> 7 \<le> n \<or> c \<le> 4 \<and> c \<le> n"
proof
  assume "\<exists>s. queue_reaches c (requested n) s \<and> standstill c s"
  then show "7 \<le> n \<or> c \<le> 4 \<and> c \<le> n"
    using queues.steps_last[OF _ queues_inv_requested] standstill_needs_load by blast
next
  assume "7 \<le> n \<or> c \<le> 4 \<and> c \<le> n"
  then show "\<exists>s. queue_reaches c (requested n) s \<and> standstill c s"
    using pool_standstill[OF assms] queue_standstill by (cases "4 < c") auto
qed

theorem agent_stands_still_exactly_witness: "\<exists>s. queue_reaches 4 (requested 4) s \<and> standstill 4 s"
  using agent_stands_still_exactly[of 4 4] by simp

text \<open>
  C17. Below that load the agent finishes: with fewer than seven requests and a pool larger than the
  number of workers it can go on, from any state it can reach, to have no request, job or task left.
  Every step brings every run closer to its end, and no run has more than 44 steps for a request.
\<close>

theorem agent_finishes_light_load:
  assumes "n < 7" and "4 < c" and "queue_reaches c (requested n) s"
  shows "(\<exists>s'. queue_reaches c s s' \<and> finished_queues s') \<and>
    {s'. queue_steps c s s'} \<subseteq> {s'. queues_cost s' < queues_cost s} \<and>
    {k. (queue_steps c ^^ k) (requested n) s} \<subseteq> {..44 * n}"
proof (intro conjI subsetI CollectI)
  have "n < 7 \<and> 4 < c \<and> queues_inv n (requested n)" using assms(1,2) queues_inv_requested by simp
  from light_load.steps_last[OF assms(3) this] light_load.finishes[of n c s]
  show "\<exists>s'. queue_reaches c s s' \<and> finished_queues s'" by blast
  show "queues_cost s' < queues_cost s" if "s' \<in> {s'. queue_steps c s s'}" for s'
    using that light_load.lowers by blast
  show "k \<in> {..44 * n}" if "k \<in> {k. (queue_steps c ^^ k) (requested n) s}" for k
    using that light_load.run_length[of k c "requested n" s] by (simp add: requested_cost)
qed

theorem agent_finishes_light_load_witness: "\<exists>s'. queue_reaches 5 (requested 6) s' \<and> finished_queues s'"
  using agent_finishes_light_load[of 6 5 "requested 6"] by simp

end
