(* ===== verification/Auth.thy ===== *)
theory Auth
  imports PgPrelude
begin

text \<open>
  Authentication and authorization (\<open>pkg/auth\<close>): what a token or a client certificate says about its
  bearer, the permission checks on it, the merge of two identities, the cache of verification keys,
  and the interceptors of the gRPC and web servers. The libraries golang-jwt, crypto/x509, gRPC and
  gin are parameters. The two permission kinds, scopes and resources, share the locale \<open>permission\<close>.
\<close>

section \<open>AuthInfo\<close>

record auth_info =
  ai_Subject :: string
  ai_Audiences :: "string list"
  ai_ScopeEnabled :: bool
  ai_Scopes :: "string list"
  ai_ResourceEnabled :: bool
  ai_Resources :: "string list"
  ai_Uuid :: string

definition new_auth_info :: "bool \<Rightarrow> bool \<Rightarrow> auth_info" where
  "new_auth_info scopes resources = \<lparr>ai_Subject = [], ai_Audiences = [], ai_ScopeEnabled = scopes,
     ai_Scopes = [], ai_ResourceEnabled = resources, ai_Resources = [], ai_Uuid = []\<rparr>"

text \<open>
  \<open>jwt.MapClaims\<close> maps claim names to JSON values; its methods \<open>GetSubject\<close> and \<open>GetAudience\<close> are
  parameters. When they fail they return the zero value, which the code stores before it returns.
\<close>

datatype claim_value = ClaimString string | ClaimStrings "string list" | ClaimOther

type_synonym claims = "string \<rightharpoonup> claim_value"

definition claim_string :: "claims \<Rightarrow> string \<Rightarrow> string option" where
  "claim_string c k = (case c k of Some (ClaimString s) \<Rightarrow> Some s | _ \<Rightarrow> None)"

definition FromClaims ::
    "(claims \<Rightarrow> go_error + string) \<Rightarrow> (claims \<Rightarrow> go_error + string list) \<Rightarrow> claims \<Rightarrow> auth_info \<Rightarrow> auth_info" where
  "FromClaims get_subject get_audience c a =
     (case get_subject c of
        Inl e \<Rightarrow> a\<lparr>ai_Subject := []\<rparr>
      | Inr s \<Rightarrow>
          (let a1 = a\<lparr>ai_Subject := s\<rparr> in
           case get_audience c of
             Inl e \<Rightarrow> a1\<lparr>ai_Audiences := []\<rparr>
           | Inr auds \<Rightarrow>
               (let a2 = a1\<lparr>ai_Audiences := auds\<rparr>;
                    a3 = (case claim_string c ''scope'' of
                            Some x \<Rightarrow> a2\<lparr>ai_Scopes := split_on (CHR '' '') x\<rparr> | None \<Rightarrow> a2);
                    a4 = (case claim_string c ''resource'' of
                            Some x \<Rightarrow> a3\<lparr>ai_Resources := split_on (CHR '' '') x\<rparr> | None \<Rightarrow> a3)
                in (case claim_string c ''jti'' of Some x \<Rightarrow> a4\<lparr>ai_Uuid := x\<rparr> | None \<Rightarrow> a4))))"

definition FromDNSName :: "string \<Rightarrow> auth_info \<Rightarrow> auth_info" where
  "FromDNSName dnsName a =
     (let names = splitn_on 3 (CHR ''.'') dnsName in
      if length names < 2 then a
      else
        (let kind = names ! (length names - 1);
             name = (if length names = 3 then names ! 1 @ '':'' @ names ! 0 else names ! 0)
         in if kind = ''user'' then a\<lparr>ai_Subject := name\<rparr>
            else if kind = ''audience'' then a\<lparr>ai_Audiences := ai_Audiences a @ [name]\<rparr>
            else if kind = ''scope'' then a\<lparr>ai_Scopes := ai_Scopes a @ [name]\<rparr>
            else if kind = ''resource'' then a\<lparr>ai_Resources := ai_Resources a @ [name]\<rparr>
            else a))"

fun FromDNSNames :: "string list \<Rightarrow> auth_info \<Rightarrow> auth_info" where
  "FromDNSNames [] a = a"
| "FromDNSNames (n # ns) a = FromDNSNames ns (FromDNSName n a)"

definition info_Validate :: "auth_info \<Rightarrow> go_error option" where
  "info_Validate a = (if ai_Subject a = [] then Some (ErrNew ''invalid subject'') else None)"

definition ValidateAudience :: "auth_info \<Rightarrow> string \<Rightarrow> bool" where
  "ValidateAudience a audience = list_ex (\<lambda>x. x = audience) (ai_Audiences a)"

text \<open>\<open>strings.SplitN(s, ":", 2)[0]\<close>.\<close>

definition category :: "string \<Rightarrow> string" where
  "category s = hd (splitn_on 2 (CHR '':'') s)"

definition ValidateScope :: "auth_info \<Rightarrow> string \<Rightarrow> bool" where
  "ValidateScope a scope =
     (if \<not> ai_ScopeEnabled a then False
      else list_ex (\<lambda>s. s = category scope \<or> s = scope) (ai_Scopes a))"

definition ValidateScopes :: "auth_info \<Rightarrow> string list \<Rightarrow> string list \<times> bool" where
  "ValidateScopes a scopes =
     (if \<not> ai_ScopeEnabled a then (scopes, False)
      else (let missing = filter (\<lambda>s. \<not> ValidateScope a s) scopes in (missing, length missing = 0)))"

definition ValidateResource :: "auth_info \<Rightarrow> string \<Rightarrow> bool" where
  "ValidateResource a resource =
     (if \<not> ai_ResourceEnabled a then False
      else list_ex (\<lambda>r. r = category resource \<or> r = resource) (ai_Resources a))"

definition ValidateResources :: "auth_info \<Rightarrow> string list \<Rightarrow> string list \<times> bool" where
  "ValidateResources a resources =
     (if \<not> ai_ResourceEnabled a then (resources, False)
      else (let missing = filter (\<lambda>r. \<not> ValidateResource a r) resources in (missing, length missing = 0)))"

text \<open>\<open>removeScope\<close> deletes the first occurrence; \<open>removeScopes\<close> deletes one per element.\<close>

fun remove_first :: "string \<Rightarrow> string list \<Rightarrow> string list" where
  "remove_first x [] = []"
| "remove_first x (s # ss) = (if s = x then ss else s # remove_first x ss)"

definition removeScope :: "string \<Rightarrow> auth_info \<Rightarrow> auth_info" where
  "removeScope scope a = a\<lparr>ai_Scopes := remove_first scope (ai_Scopes a)\<rparr>"

definition removeScopes :: "string list \<Rightarrow> auth_info \<Rightarrow> auth_info" where
  "removeScopes scopes a = fold removeScope scopes a"

definition minimizeScopes :: "auth_info \<Rightarrow> auth_info \<Rightarrow> auth_info" where
  "minimizeScopes a other =
     (case ValidateScopes other (ai_Scopes a) of
        (missing, ok) \<Rightarrow> if \<not> ok then removeScopes missing a else a)"

definition removeResource :: "string \<Rightarrow> auth_info \<Rightarrow> auth_info" where
  "removeResource resource a = a\<lparr>ai_Resources := remove_first resource (ai_Resources a)\<rparr>"

definition removeResources :: "string list \<Rightarrow> auth_info \<Rightarrow> auth_info" where
  "removeResources resources a = fold removeResource resources a"

definition minimizeResources :: "auth_info \<Rightarrow> auth_info \<Rightarrow> auth_info" where
  "minimizeResources a other =
     (case ValidateResources other (ai_Resources a) of
        (missing, ok) \<Rightarrow> if \<not> ok then removeResources missing a else a)"

text \<open>The receiver as \<open>Merge\<close> leaves it; a nil argument is dereferenced.\<close>

definition Merge :: "auth_info \<Rightarrow> auth_info option \<Rightarrow> auth_info outcome" where
  "Merge a other =
     (case other of
        None \<Rightarrow> Panicked
      | Some b \<Rightarrow>
          if ai_Subject a \<noteq> ai_Subject b then Fail (ErrNew ''subject mismatch'')
          else
            (let a1 = (if ai_ScopeEnabled b then minimizeScopes a b else a);
                 a2 = (if ai_ResourceEnabled b then minimizeResources a1 b else a1)
             in Ok a2))"

section \<open>Verification keys\<close>

text \<open>
  \<open>JwtVerifyKey\<close>: the configured key types with their files, and the cache, nil (\<open>None\<close>) before
  the first load. \<open>utils.LoadPublicKey\<close> reads and parses a file: a parameter.
\<close>

record 'k verify_key =
  vk_Types :: "string list"
  vk_Files :: "string list"
  vk_keys :: "(string \<rightharpoonup> 'k) option"

definition cached_key :: "'k verify_key \<Rightarrow> string \<Rightarrow> 'k option" where
  "cached_key k t = (case vk_keys k of None \<Rightarrow> None | Some m \<Rightarrow> m t)"

definition loadKey ::
    "(string \<Rightarrow> go_error + 'k) \<Rightarrow> nat \<Rightarrow> 'k verify_key \<Rightarrow> 'k outcome \<times> 'k verify_key" where
  "loadKey load_public_key index k0 =
     (let k = (if vk_keys k0 = None then k0\<lparr>vk_keys := Some Map.empty\<rparr> else k0);
          kind = vk_Types k ! index
      in case cached_key k kind of
           Some key \<Rightarrow> (Ok key, k)
         | None \<Rightarrow>
             if length (vk_Files k) \<le> index then (Panicked, k)
             else (case load_public_key (vk_Files k ! index) of
                     Inl e \<Rightarrow> (Fail e, k)
                   | Inr key \<Rightarrow> (Ok key, k\<lparr>vk_keys := Some ((the (vk_keys k))(kind \<mapsto> key))\<rparr>)))"

text \<open>The index of the first configured type that is the algorithm of the token.\<close>

fun first_index :: "string \<Rightarrow> string list \<Rightarrow> nat option" where
  "first_index a [] = None"
| "first_index a (t # ts) = (if t = a then Some 0 else map_option Suc (first_index a ts))"

definition LoadVerifyKey ::
    "(string \<Rightarrow> go_error + 'k) \<Rightarrow> string \<Rightarrow> 'k verify_key \<Rightarrow> 'k outcome \<times> 'k verify_key" where
  "LoadVerifyKey load_public_key alg k =
     (case cached_key k alg of
        Some key \<Rightarrow> (Ok key, k)
      | None \<Rightarrow>
          (case first_index alg (vk_Types k) of
             Some i \<Rightarrow> loadKey load_public_key i k
           | None \<Rightarrow> (Fail (ErrNew (''no key found for algorithm '' @ alg)), k)))"

definition ResetKey :: "'k verify_key \<Rightarrow> 'k verify_key" where
  "ResetKey k = k\<lparr>vk_keys := Some Map.empty\<rparr>"

section \<open>Tokens\<close>

record 'k jwt_auth_config =
  jc_Enabled :: bool
  jc_Audience :: string
  jc_verify_key :: "'k verify_key"

text \<open>
  What the code uses of golang-jwt: \<open>jwt.Parse\<close> decodes the token, asks the key function for the key
  of its algorithm, and verifies the token with it; it returns the claims and \<open>token.Valid\<close>.
\<close>

record 'k jwt_lib =
  jwt_alg :: "string \<Rightarrow> go_error + string"
  jwt_verify :: "'k \<Rightarrow> string \<Rightarrow> go_error + (claims \<times> bool)"
  jwt_subject :: "claims \<Rightarrow> go_error + string"
  jwt_audience :: "claims \<Rightarrow> go_error + string list"
  jwt_load_public_key :: "string \<Rightarrow> go_error + 'k"

definition jwt_Parse ::
    "'k jwt_lib \<Rightarrow> string \<Rightarrow> 'k verify_key \<Rightarrow> (claims \<times> bool) outcome \<times> 'k verify_key" where
  "jwt_Parse J tokenStr k =
     (case jwt_alg J tokenStr of
        Inl e \<Rightarrow> (Fail e, k)
      | Inr alg \<Rightarrow>
          (case LoadVerifyKey (jwt_load_public_key J) alg k of
             (Ok key, k1) \<Rightarrow>
               (case jwt_verify J key tokenStr of Inl e \<Rightarrow> (Fail e, k1) | Inr r \<Rightarrow> (Ok r, k1))
           | (Fail e, k1) \<Rightarrow> (Fail e, k1)
           | (Panicked, k1) \<Rightarrow> (Panicked, k1)))"

text \<open>The argument \<open>header\<close> is what the token function returned.\<close>

definition getToken :: "go_error + string \<Rightarrow> go_error + string" where
  "getToken header =
     (case header of
        Inl e \<Rightarrow> Inl e
      | Inr h \<Rightarrow>
          if \<not> has_prefix h ''Bearer '' then Inl (ErrNew ''invalid authorization header'')
          else Inr (trim_prefix h ''Bearer ''))"

definition jwt_Validate :: "'k jwt_auth_config \<Rightarrow> auth_info \<Rightarrow> go_error option" where
  "jwt_Validate c a =
     (case info_Validate a of
        Some e \<Rightarrow> Some e
      | None \<Rightarrow> if \<not> ValidateAudience a (jc_Audience c) then Some (ErrNew ''invalid audience'') else None)"

definition jwt_auth_Parse ::
    "'k jwt_lib \<Rightarrow> go_error + string \<Rightarrow> 'k jwt_auth_config \<Rightarrow> auth_info option outcome \<times> 'k jwt_auth_config" where
  "jwt_auth_Parse J header c =
     (case getToken header of
        Inl e \<Rightarrow> (Fail e, c)
      | Inr tokenStr \<Rightarrow>
          (case jwt_Parse J tokenStr (jc_verify_key c) of
             (Fail e, k) \<Rightarrow> (Fail e, c\<lparr>jc_verify_key := k\<rparr>)
           | (Panicked, k) \<Rightarrow> (Panicked, c\<lparr>jc_verify_key := k\<rparr>)
           | (Ok (claims, valid), k) \<Rightarrow>
               (let c1 = c\<lparr>jc_verify_key := k\<rparr> in
                if valid
                then (let a = FromClaims (jwt_subject J) (jwt_audience J) claims (new_auth_info True True)
                      in case jwt_Validate c1 a of Some e \<Rightarrow> (Fail e, c1) | None \<Rightarrow> (Ok (Some a), c1))
                else (Fail (ErrNew ''invalid token''), c1))))"

section \<open>Client certificates\<close>

record mtls_auth_config =
  mc_Enabled :: bool
  mc_BaseDomain :: string
  mc_ScopeEnabled :: bool
  mc_ResourceEnabled :: bool

text \<open>The DNS names of a certificate stand for the certificate.\<close>

definition stripBaseDomain :: "mtls_auth_config \<Rightarrow> string \<Rightarrow> string \<times> bool" where
  "stripBaseDomain c san =
     (if mc_BaseDomain c = [] then (san, True)
      else (let baseDomain = ''.'' @ mc_BaseDomain c in
            if \<not> has_suffix san baseDomain then ([], False) else (trim_suffix san baseDomain, True)))"

fun mtls_names :: "mtls_auth_config \<Rightarrow> string list \<Rightarrow> auth_info \<Rightarrow> auth_info" where
  "mtls_names c [] a = a"
| "mtls_names c (san # sans) a =
     (case stripBaseDomain c san of
        (s, ok) \<Rightarrow> mtls_names c sans (if ok then FromDNSName s a else a))"

definition mtls_Validate :: "auth_info \<Rightarrow> go_error option" where
  "mtls_Validate a = info_Validate a"

definition mtls_auth_Parse :: "mtls_auth_config \<Rightarrow> go_error + string list \<Rightarrow> auth_info option outcome" where
  "mtls_auth_Parse c cert =
     (case cert of
        Inl e \<Rightarrow> Fail e
      | Inr dnsNames \<Rightarrow>
          (let a = mtls_names c dnsNames (new_auth_info (mc_ScopeEnabled c) (mc_ResourceEnabled c))
           in case mtls_Validate a of Some e \<Rightarrow> Fail e | None \<Rightarrow> Ok None))"

section \<open>Auth\<close>

text \<open>An \<open>AuthApi\<close>: whether it is enabled, and its \<open>Parse\<close> on the state of the configuration.\<close>

type_synonym 's auth_api = "bool \<times> ('s \<Rightarrow> auth_info option outcome \<times> 's)"

fun auth_loop :: "auth_info option \<Rightarrow> 's auth_api list \<Rightarrow> 's \<Rightarrow> auth_info option outcome \<times> 's" where
  "auth_loop final [] s = (Ok final, s)"
| "auth_loop final ((enabled, parse) # rest) s =
     (if \<not> enabled then auth_loop final rest s
      else (case parse s of
              (Fail e, s1) \<Rightarrow> (Fail e, s1)
            | (Panicked, s1) \<Rightarrow> (Panicked, s1)
            | (Ok info, s1) \<Rightarrow>
                (case final of
                   None \<Rightarrow> auth_loop info rest s1
                 | Some a \<Rightarrow>
                     (case Merge a info of
                        Ok a' \<Rightarrow> auth_loop (Some a') rest s1
                      | Fail e \<Rightarrow> (Fail e, s1)
                      | Panicked \<Rightarrow> (Panicked, s1)))))"

definition Auth_Parse :: "'s auth_api list \<Rightarrow> 's \<Rightarrow> auth_info outcome \<times> 's" where
  "Auth_Parse authes s =
     (case auth_loop None authes s of
        (Ok (Some a), s1) \<Rightarrow> (Ok a, s1)
      | (Ok None, s1) \<Rightarrow> (Fail (ErrNew ''no auth method succeeded''), s1)
      | (Fail e, s1) \<Rightarrow> (Fail e, s1)
      | (Panicked, s1) \<Rightarrow> (Panicked, s1))"

section \<open>The gRPC and web servers\<close>

text \<open>
  What a request context holds. gRPC: the values of the metadata key \<open>authorization\<close> (\<open>None\<close> without
  metadata), the peer with its TLS information and certificates. Web: the header (\<open>[]\<close> if absent),
  whether there is a request, and its TLS peer certificates. Certificates are their DNS names.
\<close>

record grpc_ctx =
  gc_authorization :: "string list option"
  gc_peer :: "string list list option option"

definition JwtTokenFunc :: "grpc_ctx \<Rightarrow> go_error + string" where
  "JwtTokenFunc ctx =
     (case gc_authorization ctx of
        None \<Rightarrow> Inl (ErrNew ''metadata not found'')
      | Some vs \<Rightarrow> if length vs = 0 then Inl (ErrNew ''no Authorization header provided'') else Inr (vs ! 0))"

definition MtlsClientCertFunc :: "grpc_ctx \<Rightarrow> go_error + string list" where
  "MtlsClientCertFunc ctx =
     (case gc_peer ctx of
        None \<Rightarrow> Inl (ErrNew ''no transport security info available'')
      | Some None \<Rightarrow> Inl (ErrNew ''unable to get TLS info'')
      | Some (Some certs) \<Rightarrow>
          if length certs = 0 then Inl (ErrNew ''no client certificate provided'') else Inr (certs ! 0))"

record gin_ctx =
  gn_is_gin :: bool
  gn_header :: string
  gn_request :: bool
  gn_tls :: "string list list option"

definition jwtTokenFunc :: "gin_ctx \<Rightarrow> go_error + string" where
  "jwtTokenFunc ctx =
     (if gn_is_gin ctx then Inr (gn_header ctx) else Inl (ErrNew ''no Authorization header provided''))"

definition mtlsClientCertFunc :: "gin_ctx \<Rightarrow> go_error + string list" where
  "mtlsClientCertFunc ctx =
     (if \<not> gn_is_gin ctx then Inl (ErrNew ''context is not a *gin.Context'')
      else if \<not> gn_request ctx then Inl (ErrNew ''request is nil'')
      else (case gn_tls ctx of
              None \<Rightarrow> Inl (ErrNew ''no client certificate provided'')
            | Some certs \<Rightarrow>
                if length certs = 0 then Inl (ErrNew ''no client certificate provided'') else Inr (certs ! 0)))"

record 'k auth_config =
  ac_Jwt :: "'k jwt_auth_config"
  ac_Mtls :: mtls_auth_config

text \<open>\<open>NewGrpcAuth\<close> and \<open>NewGinAuth\<close>: first the token, then the certificate.\<close>

definition auth_apis ::
    "'k jwt_lib \<Rightarrow> ('c \<Rightarrow> go_error + string) \<Rightarrow> ('c \<Rightarrow> go_error + string list) \<Rightarrow> 'k auth_config \<Rightarrow> 'c
      \<Rightarrow> 'k auth_config auth_api list" where
  "auth_apis J token cert cfg ctx =
     [(jc_Enabled (ac_Jwt cfg),
       \<lambda>s. case jwt_auth_Parse J (token ctx) (ac_Jwt s) of (r, j) \<Rightarrow> (r, s\<lparr>ac_Jwt := j\<rparr>)),
      (mc_Enabled (ac_Mtls cfg), \<lambda>s. (mtls_auth_Parse (ac_Mtls s) (cert ctx), s))]"

definition GrpcAuth_Parse :: "'k jwt_lib \<Rightarrow> grpc_ctx \<Rightarrow> 'k auth_config \<Rightarrow> auth_info outcome \<times> 'k auth_config" where
  "GrpcAuth_Parse J ctx cfg = Auth_Parse (auth_apis J JwtTokenFunc MtlsClientCertFunc cfg ctx) cfg"

definition GinAuth_Parse :: "'k jwt_lib \<Rightarrow> gin_ctx \<Rightarrow> 'k auth_config \<Rightarrow> auth_info outcome \<times> 'k auth_config" where
  "GinAuth_Parse J ctx cfg = Auth_Parse (auth_apis J jwtTokenFunc mtlsClientCertFunc cfg ctx) cfg"

text \<open>
  The interceptors: the handler runs, on the context with the identity, only after \<open>Parse\<close>
  succeeded. An error that is no gRPC status becomes \<open>Unauthenticated\<close> with its text, as the errors
  of the certificate function already are.
\<close>

datatype grpc_status = Unauthenticated string

definition Interceptor ::
    "'k jwt_lib \<Rightarrow> grpc_ctx \<Rightarrow> 'k auth_config \<Rightarrow> (auth_info \<Rightarrow> grpc_status + 'r)
      \<Rightarrow> (grpc_status + 'r) outcome \<times> 'k auth_config" where
  "Interceptor J ctx cfg handler =
     (case GrpcAuth_Parse J ctx cfg of
        (Ok a, s) \<Rightarrow> (Ok (handler a), s)
      | (Fail e, s) \<Rightarrow> (Ok (Inl (Unauthenticated (error_text e))), s)
      | (Panicked, s) \<Rightarrow> (Panicked, s))"

text \<open>
  The middleware answers 401 with the error's text and ends the chain, or runs the rest of the chain
  on the context with the identity. \<open>respond\<close> writes a JSON response.
\<close>

definition AuthMiddleware ::
    "'k jwt_lib \<Rightarrow> gin_ctx \<Rightarrow> 'k auth_config \<Rightarrow> (nat \<Rightarrow> string \<Rightarrow> 'r) \<Rightarrow> (auth_info \<Rightarrow> 'r)
      \<Rightarrow> 'r outcome \<times> 'k auth_config" where
  "AuthMiddleware J ctx cfg respond chain =
     (case GinAuth_Parse J ctx cfg of
        (Ok a, s) \<Rightarrow> (Ok (chain a), s)
      | (Fail e, s) \<Rightarrow> (Ok (respond 401 (error_text e)), s)
      | (Panicked, s) \<Rightarrow> (Panicked, s))"

text \<open>\<open>LoadAuthInfo\<close> and \<open>FetchAuthInfo\<close>: the identity stored in the context, if any.\<close>

definition LoadAuthInfo :: "auth_info option \<Rightarrow> auth_info option \<times> bool" where
  "LoadAuthInfo stored = (stored, stored \<noteq> None)"

section \<open>Issuing tokens\<close>

text \<open>
  The claims \<open>pg-helper genjwt\<close> signs. \<open>omitempty\<close> leaves out an empty scope or resource claim.
  The subject, if not given, and the token id are fresh uuids.
\<close>

record genjwt_cmd =
  gj_Subject :: string
  gj_Audiences :: "string list"
  gj_Scopes :: "string list"
  gj_Resources :: "string list"

definition genjwt_claims :: "string \<Rightarrow> string \<Rightarrow> genjwt_cmd \<Rightarrow> claims" where
  "genjwt_claims new_subject jti g =
     (let scope = join_with (CHR '' '') (gj_Scopes g);
          resource = join_with (CHR '' '') (gj_Resources g);
          subject = (if gj_Subject g = [] then new_subject else gj_Subject g);
          c0 = [''jti'' \<mapsto> ClaimString jti, ''sub'' \<mapsto> ClaimString subject,
                ''iat'' \<mapsto> ClaimOther, ''exp'' \<mapsto> ClaimOther];
          c1 = (if gj_Audiences g = [] then c0 else c0(''aud'' \<mapsto> ClaimStrings (gj_Audiences g)));
          c2 = (if scope = [] then c1 else c1(''scope'' \<mapsto> ClaimString scope))
      in if resource = [] then c2 else c2(''resource'' \<mapsto> ClaimString resource))"

section \<open>Permissions\<close>

lemma remove_first_eq: "remove_first x xs = remove1 x xs"
  by (induction xs) auto

lemma fold_remove1_notin: "x \<notin> set ms \<Longrightarrow> fold remove1 ms (x # xs) = x # fold remove1 ms xs"
  by (induction ms arbitrary: xs) auto

lemma fold_remove1_filter: "fold remove1 (filter (\<lambda>x. \<not> P x) xs) xs = filter P xs"
  by (induction xs) (auto simp: fold_remove1_notin)

lemma category_eq: "category s = takeWhile (\<lambda>c. c \<noteq> CHR '':'') s"
  by (simp add: category_def hd_splitn2)

lemma category_idem [simp]: "category (category s) = category s"
  by (simp add: category_eq)

text \<open>
  The interface shared by scopes and resources: a check of one permission, of many, and the removal
  of one. The client is the intersection of two identities.
\<close>

locale permission =
  fixes enabled :: "'a \<Rightarrow> bool"
    and items :: "'a \<Rightarrow> string list"
    and check :: "'a \<Rightarrow> string \<Rightarrow> bool"
    and check_all :: "'a \<Rightarrow> string list \<Rightarrow> string list \<times> bool"
    and remove :: "string \<Rightarrow> 'a \<Rightarrow> 'a"
  assumes check_iff: "check a q \<longleftrightarrow> enabled a \<and> (\<exists>s \<in> set (items a). s = category q \<or> s = q)"
    and check_all_enabled: "enabled a \<Longrightarrow>
      check_all a qs = (filter (\<lambda>q. \<not> check a q) qs, \<forall>q \<in> set qs. check a q)"
    and items_remove: "items (remove x a) = remove_first x (items a)"
    and enabled_remove: "enabled (remove x a) = enabled a"
begin

lemma items_fold_remove: "items (fold remove xs a) = fold remove1 xs (items a)"
  by (induction xs arbitrary: a) (simp_all add: items_remove remove_first_eq)

lemma enabled_fold_remove: "enabled (fold remove xs a) = enabled a"
  by (induction xs arbitrary: a) (simp_all add: enabled_remove)

text \<open>Dropping what another identity misses leaves exactly what it has.\<close>

lemma items_minimize:
  assumes "enabled b"
  shows "items (case check_all b (items a) of (missing, ok) \<Rightarrow> if \<not> ok then fold remove missing a else a)
    = filter (check b) (items a)"
  using assms by (auto simp: check_all_enabled items_fold_remove fold_remove1_filter filter_id_conv)

text \<open>A permission granted on what both have is granted by each.\<close>

lemma check_common:
  assumes b: "enabled b" and m: "items m = filter (check b) (items a)" "enabled m = enabled a"
    and q: "check m q"
  shows "check a q \<and> check b q"
proof -
  obtain s where s: "s \<in> set (items a)" "check b s" "s = category q \<or> s = q" and e: "enabled a"
    using q m by (auto simp: check_iff)
  have "check b q"
    using s(3)
  proof
    assume "s = category q"
    with s(2) show ?thesis by (auto simp: check_iff)
  qed (use s(2) in simp)
  with s e show ?thesis by (auto simp: check_iff)
qed

text \<open>A category grants every permission below it.\<close>

lemma check_category: "check a (category q) \<Longrightarrow> check a q"
  by (auto simp: check_iff)

end

interpretation scopes: permission ai_ScopeEnabled ai_Scopes ValidateScope ValidateScopes removeScope
  by unfold_locales (auto simp: ValidateScope_def ValidateScopes_def removeScope_def list_ex_iff filter_empty_conv)

interpretation resources: permission ai_ResourceEnabled ai_Resources ValidateResource ValidateResources removeResource
  by unfold_locales (auto simp: ValidateResource_def ValidateResources_def removeResource_def list_ex_iff filter_empty_conv)

lemma fold_removeScope [simp]:
  "ai_Resources (fold removeScope xs a) = ai_Resources a"
  "ai_ResourceEnabled (fold removeScope xs a) = ai_ResourceEnabled a"
  "ai_Subject (fold removeScope xs a) = ai_Subject a"
  by (induction xs arbitrary: a) (simp_all add: removeScope_def)

lemma fold_removeResource [simp]:
  "ai_Scopes (fold removeResource xs a) = ai_Scopes a"
  "ai_ScopeEnabled (fold removeResource xs a) = ai_ScopeEnabled a"
  "ai_Subject (fold removeResource xs a) = ai_Subject a"
  by (induction xs arbitrary: a) (simp_all add: removeResource_def)

lemma minimizeScopes_items: "ai_ScopeEnabled b \<Longrightarrow> ai_Scopes (minimizeScopes a b) = filter (ValidateScope b) (ai_Scopes a)"
  unfolding minimizeScopes_def removeScopes_def by (rule scopes.items_minimize)

lemma minimizeResources_items:
  "ai_ResourceEnabled b \<Longrightarrow> ai_Resources (minimizeResources a b) = filter (ValidateResource b) (ai_Resources a)"
  unfolding minimizeResources_def removeResources_def by (rule resources.items_minimize)

lemma minimizeScopes_fields [simp]:
  "ai_Resources (minimizeScopes a b) = ai_Resources a"
  "ai_ResourceEnabled (minimizeScopes a b) = ai_ResourceEnabled a"
  "ai_Subject (minimizeScopes a b) = ai_Subject a"
  "ai_ScopeEnabled (minimizeScopes a b) = ai_ScopeEnabled a"
  by (simp_all add: minimizeScopes_def removeScopes_def scopes.enabled_fold_remove split: prod.splits)

lemma minimizeResources_fields [simp]:
  "ai_Scopes (minimizeResources a b) = ai_Scopes a"
  "ai_ScopeEnabled (minimizeResources a b) = ai_ScopeEnabled a"
  "ai_Subject (minimizeResources a b) = ai_Subject a"
  "ai_ResourceEnabled (minimizeResources a b) = ai_ResourceEnabled a"
  by (simp_all add: minimizeResources_def removeResources_def resources.enabled_fold_remove split: prod.splits)

lemma Merge_ok:
  assumes "Merge a (Some b) = Ok m"
  shows "ai_Subject m = ai_Subject a" and "ai_Subject b = ai_Subject a"
    and "ai_ScopeEnabled m = ai_ScopeEnabled a" and "ai_ResourceEnabled m = ai_ResourceEnabled a"
    and "ai_Scopes m = (if ai_ScopeEnabled b then filter (ValidateScope b) (ai_Scopes a) else ai_Scopes a)"
    and "ai_Resources m = (if ai_ResourceEnabled b then filter (ValidateResource b) (ai_Resources a) else ai_Resources a)"
  using assms by (auto simp: Merge_def Let_def minimizeScopes_items minimizeResources_items split: if_splits)

section \<open>Verification keys\<close>

text \<open>What loading a key without the cache gives.\<close>

definition direct_key :: "(string \<Rightarrow> go_error + 'k) \<Rightarrow> 'k verify_key \<Rightarrow> string \<Rightarrow> 'k outcome" where
  "direct_key load k alg =
     (case first_index alg (vk_Types k) of
        None \<Rightarrow> Fail (ErrNew (''no key found for algorithm '' @ alg))
      | Some i \<Rightarrow>
          if length (vk_Files k) \<le> i then Panicked
          else (case load (vk_Files k ! i) of Inl e \<Rightarrow> Fail e | Inr key \<Rightarrow> Ok key))"

definition cache_ok :: "(string \<Rightarrow> go_error + 'k) \<Rightarrow> 'k verify_key \<Rightarrow> bool" where
  "cache_ok load k \<longleftrightarrow> (\<forall>t key. cached_key k t = Some key \<longrightarrow> direct_key load k t = Ok key)"

lemma first_index_nth: "first_index a ts = Some i \<Longrightarrow> i < length ts \<and> ts ! i = a"
  by (induction ts arbitrary: i) (auto split: if_splits)

lemma direct_key_cong [simp]: "direct_key load (k\<lparr>vk_keys := m\<rparr>) alg = direct_key load k alg"
  by (cases "first_index alg (vk_Types k)") (simp_all add: direct_key_def)

lemma cached_key_update [simp]: "cached_key (k\<lparr>vk_keys := Some m\<rparr>) = m"
  by (simp add: cached_key_def fun_eq_iff)

lemma cached_key_fresh: "vk_keys k = None \<Longrightarrow> cached_key k = Map.empty"
  by (simp add: cached_key_def fun_eq_iff)

lemma cached_key_some: "vk_keys k = Some m \<Longrightarrow> cached_key k = m"
  by (simp add: cached_key_def fun_eq_iff)

text \<open>A load answers as the configuration says, and caches only a key it found.\<close>

lemma loadKey_direct:
  assumes "first_index alg (vk_Types k) = Some i" and "cached_key k alg = None"
  shows "fst (loadKey load i k) = direct_key load k alg"
    and "cached_key (snd (loadKey load i k)) =
      (case direct_key load k alg of Ok key \<Rightarrow> (cached_key k)(alg \<mapsto> key) | _ \<Rightarrow> cached_key k)"
    and "vk_Types (snd (loadKey load i k)) = vk_Types k" and "vk_Files (snd (loadKey load i k)) = vk_Files k"
  using assms first_index_nth [OF assms(1)]
  by (auto simp: loadKey_def direct_key_def Let_def cached_key_fresh cached_key_some
      split: option.splits sum.splits)

lemma LoadVerifyKey_direct:
  assumes "cache_ok load k"
  shows "fst (LoadVerifyKey load alg k) = direct_key load k alg"
    and "cache_ok load (snd (LoadVerifyKey load alg k))"
    and "vk_Types (snd (LoadVerifyKey load alg k)) = vk_Types k"
    and "vk_Files (snd (LoadVerifyKey load alg k)) = vk_Files k"
proof -
  have "fst (LoadVerifyKey load alg k) = direct_key load k alg \<and> cache_ok load (snd (LoadVerifyKey load alg k)) \<and>
    vk_Types (snd (LoadVerifyKey load alg k)) = vk_Types k \<and> vk_Files (snd (LoadVerifyKey load alg k)) = vk_Files k"
  proof (cases "cached_key k alg")
    case (Some key)
    with assms show ?thesis by (auto simp: LoadVerifyKey_def cache_ok_def)
  next
    case None
    show ?thesis
    proof (cases "first_index alg (vk_Types k)")
      case (Some i)
      note L = loadKey_direct [OF Some None, of load]
      have same: "direct_key load (snd (loadKey load i k)) t = direct_key load k t" for t
        unfolding direct_key_def L(3,4) by (rule refl)
      have "cache_ok load (snd (loadKey load i k))"
        using assms unfolding cache_ok_def L(2) same by (auto split: outcome.splits)
      with L None Some show ?thesis by (simp add: LoadVerifyKey_def)
    qed (use assms None in \<open>simp add: LoadVerifyKey_def direct_key_def\<close>)
  qed
  then show "fst (LoadVerifyKey load alg k) = direct_key load k alg"
    "cache_ok load (snd (LoadVerifyKey load alg k))"
    "vk_Types (snd (LoadVerifyKey load alg k)) = vk_Types k"
    "vk_Files (snd (LoadVerifyKey load alg k)) = vk_Files k"
    by blast+
qed

lemma cache_ok_reset: "cache_ok load (ResetKey k)"
  by (simp add: cache_ok_def ResetKey_def cached_key_def)

section \<open>Who gets through\<close>

lemma jwt_auth_Parse_ok:
  assumes "fst (jwt_auth_Parse J header c) = Ok r" and "cache_ok (jwt_load_public_key J) (jc_verify_key c)"
  shows "\<exists>a token alg key cl. r = Some a \<and> getToken header = Inr token \<and> jwt_alg J token = Inr alg \<and>
    direct_key (jwt_load_public_key J) (jc_verify_key c) alg = Ok key \<and> jwt_verify J key token = Inr (cl, True) \<and>
    a = FromClaims (jwt_subject J) (jwt_audience J) cl (new_auth_info True True) \<and>
    ai_Subject a \<noteq> [] \<and> jc_Audience c \<in> set (ai_Audiences a)"
  using assms(1) LoadVerifyKey_direct(1) [OF assms(2)]
  by (auto simp: jwt_auth_Parse_def jwt_Parse_def jwt_Validate_def info_Validate_def ValidateAudience_def
      list_ex_iff Let_def split: sum.splits prod.splits outcome.splits if_splits option.splits)
    (metis fst_conv)+

lemma mtls_none: "mtls_auth_Parse c cert = Ok r \<Longrightarrow> r = None"
  by (auto simp: mtls_auth_Parse_def Let_def split: sum.splits option.splits)

lemma apis_authenticate:
  assumes "fst (Auth_Parse (auth_apis J token cert cfg ctx) cfg) = Ok a"
  shows "jc_Enabled (ac_Jwt cfg) \<and> \<not> mc_Enabled (ac_Mtls cfg) \<and>
    fst (jwt_auth_Parse J (token ctx) (ac_Jwt cfg)) = Ok (Some a)"
  using assms
  by (auto simp: Auth_Parse_def auth_apis_def Merge_def Let_def dest: mtls_none
      split: prod.splits outcome.splits option.splits if_splits)

section \<open>Issued tokens\<close>

lemma genjwt_scope_claim:
  "claim_string (genjwt_claims ns jti g) ''scope'' =
     (if join_with (CHR '' '') (gj_Scopes g) = [] then None else Some (join_with (CHR '' '') (gj_Scopes g)))"
  by (simp add: claim_string_def genjwt_claims_def Let_def)

lemma genjwt_other_claims:
  "claim_string (genjwt_claims ns jti g) ''resource'' =
     (if join_with (CHR '' '') (gj_Resources g) = [] then None else Some (join_with (CHR '' '') (gj_Resources g)))"
  "claim_string (genjwt_claims ns jti g) ''jti'' = Some jti"
  "genjwt_claims ns jti g ''sub'' = Some (ClaimString (if gj_Subject g = [] then ns else gj_Subject g))"
  "genjwt_claims ns jti g ''aud'' =
     (if gj_Audiences g = [] then None else Some (ClaimStrings (gj_Audiences g)))"
  by (simp_all add: claim_string_def genjwt_claims_def Let_def)

text \<open>A permission name that a space-separated claim can carry.\<close>

definition plain_names :: "string list \<Rightarrow> bool" where
  "plain_names xs \<longleftrightarrow> (\<forall>x \<in> set xs. x \<noteq> [] \<and> CHR '' '' \<notin> set x)"

lemma split_join_names:
  assumes "plain_names xs"
  shows "(if join_with (CHR '' '') xs = [] then [] else split_on (CHR '' '') (join_with (CHR '' '') xs)) = xs"
proof (cases "xs = []")
  case False
  with assms have "xs \<noteq> [[]]" by (auto simp: plain_names_def)
  with False assms show ?thesis
    by (auto simp: join_with_eq_Nil plain_names_def intro!: split_on_join_with)
qed simp

section \<open>Properties\<close>

text \<open>The identity comes from a valid token: signed with the key configured for its algorithm, for the
  configured audience, with a subject.\<close>

definition authentic :: "'k jwt_lib \<Rightarrow> go_error + string \<Rightarrow> 'k auth_config \<Rightarrow> auth_info \<Rightarrow> bool" where
  "authentic J header cfg a \<longleftrightarrow> (\<exists>token alg key cl. getToken header = Inr token \<and> jwt_alg J token = Inr alg \<and>
     direct_key (jwt_load_public_key J) (jc_verify_key (ac_Jwt cfg)) alg = Ok key \<and>
     jwt_verify J key token = Inr (cl, True) \<and>
     a = FromClaims (jwt_subject J) (jwt_audience J) cl (new_auth_info True True) \<and>
     ai_Subject a \<noteq> [] \<and> jc_Audience (ac_Jwt cfg) \<in> set (ai_Audiences a))"

lemma apis_authentic:
  assumes "fst (Auth_Parse (auth_apis J token cert cfg ctx) cfg) = Ok a"
    and "cache_ok (jwt_load_public_key J) (jc_verify_key (ac_Jwt cfg))"
  shows "authentic J (token ctx) cfg a"
  using jwt_auth_Parse_ok [OF apis_authenticate [OF assms(1), THEN conjunct2, THEN conjunct2] assms(2)]
  by (auto simp: authentic_def)

text \<open>
  C13. A handler behind the gRPC interceptor or the web middleware runs only for an authentic identity:
  two handlers that agree on those behave alike, whatever the request. So without a token that
  verifies, no handler code runs.
\<close>

theorem handlers_run_only_authenticated:
  assumes "cache_ok (jwt_load_public_key J) (jc_verify_key (ac_Jwt cfg))"
    and "\<And>a. authentic J (JwtTokenFunc gctx) cfg a \<Longrightarrow> h1 a = h2 a"
    and "\<And>a. authentic J (jwtTokenFunc wctx) cfg a \<Longrightarrow> c1 a = c2 a"
  shows "Interceptor J gctx cfg h1 = Interceptor J gctx cfg h2 \<and>
    AuthMiddleware J wctx cfg respond c1 = AuthMiddleware J wctx cfg respond c2"
proof -
  have "authentic J (JwtTokenFunc gctx) cfg a" if "GrpcAuth_Parse J gctx cfg = (Ok a, s)" for a s
    using that assms(1)
    by (intro apis_authentic [where token = JwtTokenFunc and cert = MtlsClientCertFunc]) (simp_all add: GrpcAuth_Parse_def)
  moreover have "authentic J (jwtTokenFunc wctx) cfg a" if "GinAuth_Parse J wctx cfg = (Ok a, s)" for a s
    using that assms(1)
    by (intro apis_authentic [where token = jwtTokenFunc and cert = mtlsClientCertFunc]) (simp_all add: GinAuth_Parse_def)
  ultimately show ?thesis
    using assms(2,3) by (simp add: Interceptor_def AuthMiddleware_def split: prod.splits outcome.splits)
qed

text \<open>One key, one token, and a configuration for the witnesses.\<close>

definition sample_lib :: "nat jwt_lib" where
  "sample_lib = \<lparr>jwt_alg = (\<lambda>t. Inr ''EdDSA''),
     jwt_verify = (\<lambda>k t. if t = ''good'' then Inr ([''sub'' \<mapsto> ClaimString ''joe'', ''aud'' \<mapsto> ClaimStrings [''pg-helper'']], True)
       else Inl (ErrExt ''signature is invalid'')),
     jwt_subject = (\<lambda>c. case c ''sub'' of Some (ClaimString s) \<Rightarrow> Inr s | None \<Rightarrow> Inr [] | _ \<Rightarrow> Inl (ErrExt ''sub is invalid'')),
     jwt_audience = (\<lambda>c. case c ''aud'' of Some (ClaimStrings xs) \<Rightarrow> Inr xs | Some (ClaimString s) \<Rightarrow> Inr [s]
       | None \<Rightarrow> Inr [] | _ \<Rightarrow> Inl (ErrExt ''aud is invalid'')),
     jwt_load_public_key = (\<lambda>f. Inr 7)\<rparr>"

definition sample_auth :: "nat auth_config" where
  "sample_auth = \<lparr>ac_Jwt = \<lparr>jc_Enabled = True, jc_Audience = ''pg-helper'',
       jc_verify_key = \<lparr>vk_Types = [''EdDSA''], vk_Files = [''key.pem''], vk_keys = None\<rparr>\<rparr>,
     ac_Mtls = \<lparr>mc_Enabled = False, mc_BaseDomain = [], mc_ScopeEnabled = False, mc_ResourceEnabled = False\<rparr>\<rparr>"

definition sample_info :: "string list \<Rightarrow> string list \<Rightarrow> auth_info" where
  "sample_info sc rs = \<lparr>ai_Subject = ''joe'', ai_Audiences = [''pg-helper''], ai_ScopeEnabled = True,
     ai_Scopes = sc, ai_ResourceEnabled = True, ai_Resources = rs, ai_Uuid = []\<rparr>"

definition sample_grpc :: "string \<Rightarrow> grpc_ctx" where
  "sample_grpc token = \<lparr>gc_authorization = Some [''Bearer '' @ token], gc_peer = None\<rparr>"

definition sample_gin :: "string \<Rightarrow> gin_ctx" where
  "sample_gin token = \<lparr>gn_is_gin = True, gn_header = ''Bearer '' @ token, gn_request = True, gn_tls = None\<rparr>"

lemma sample_cache_ok: "cache_ok load (jc_verify_key (ac_Jwt sample_auth))"
  by (simp add: sample_auth_def cache_ok_def cached_key_def)

lemma sample_bad_token:
  "\<not> authentic sample_lib (JwtTokenFunc (sample_grpc ''bad'')) sample_auth a"
  "\<not> authentic sample_lib (jwtTokenFunc (sample_gin ''bad'')) sample_auth a"
  by (auto simp: authentic_def sample_lib_def sample_grpc_def sample_gin_def JwtTokenFunc_def jwtTokenFunc_def
      getToken_def split: if_splits) (simp add: trim_prefix_def has_prefix_def)+

theorem handlers_run_only_authenticated_witness:
  "Interceptor sample_lib (sample_grpc ''bad'') sample_auth (\<lambda>a. Inr (2::nat)) =
   Interceptor sample_lib (sample_grpc ''bad'') sample_auth (\<lambda>a. Inr 3)"
  using handlers_run_only_authenticated [of sample_lib sample_auth "sample_grpc ''bad''" "\<lambda>a. Inr 2" "\<lambda>a. Inr 3"
      "sample_gin ''bad''" "\<lambda>_. ()" "\<lambda>_. ()" "\<lambda>_ _. ()"]
  by (simp add: sample_cache_ok sample_bad_token)

text \<open>
  Mutual TLS never identifies anybody: its \<open>Parse\<close> returns a nil identity even when the
  certificate is accepted. With it enabled no request gets through, on either server; together with
  a valid token the merge dereferences that nil.
\<close>

theorem mtls_never_authenticates:
  assumes "mc_Enabled (ac_Mtls cfg)"
  shows "fst (GrpcAuth_Parse J gctx cfg) \<noteq> Ok a \<and> fst (GinAuth_Parse J wctx cfg) \<noteq> Ok a \<and>
    (fst (jwt_auth_Parse J (JwtTokenFunc gctx) (ac_Jwt cfg)) = Ok (Some b) \<and> jc_Enabled (ac_Jwt cfg) \<and>
       mtls_auth_Parse (ac_Mtls cfg) (MtlsClientCertFunc gctx) = Ok r
     \<longrightarrow> fst (GrpcAuth_Parse J gctx cfg) = Panicked)"
proof (intro conjI impI)
  show "fst (GrpcAuth_Parse J gctx cfg) \<noteq> Ok a" "fst (GinAuth_Parse J wctx cfg) \<noteq> Ok a"
    using assms apis_authenticate by (fastforce simp: GrpcAuth_Parse_def GinAuth_Parse_def)+
  assume h: "fst (jwt_auth_Parse J (JwtTokenFunc gctx) (ac_Jwt cfg)) = Ok (Some b) \<and> jc_Enabled (ac_Jwt cfg) \<and>
       mtls_auth_Parse (ac_Mtls cfg) (MtlsClientCertFunc gctx) = Ok r"
  then have "r = None" using mtls_none by blast
  with assms h show "fst (GrpcAuth_Parse J gctx cfg) = Panicked"
    by (auto simp: GrpcAuth_Parse_def Auth_Parse_def auth_apis_def Merge_def split: prod.splits)
qed

theorem mtls_never_authenticates_witness:
  "fst (GrpcAuth_Parse sample_lib
     \<lparr>gc_authorization = Some [''Bearer good''], gc_peer = Some (Some [[''joe.user'']])\<rparr>
     (sample_auth\<lparr>ac_Mtls := (ac_Mtls sample_auth)\<lparr>mc_Enabled := True\<rparr>\<rparr>)) = Panicked"
proof -
  have "fst (jwt_auth_Parse sample_lib (JwtTokenFunc \<lparr>gc_authorization = Some [''Bearer good''], gc_peer = Some (Some [[''joe.user'']])\<rparr>)
      (ac_Jwt (sample_auth\<lparr>ac_Mtls := (ac_Mtls sample_auth)\<lparr>mc_Enabled := True\<rparr>\<rparr>))) = Ok (Some (sample_info [] []))"
    by code_simp
  moreover have "mtls_auth_Parse (ac_Mtls (sample_auth\<lparr>ac_Mtls := (ac_Mtls sample_auth)\<lparr>mc_Enabled := True\<rparr>\<rparr>))
      (MtlsClientCertFunc \<lparr>gc_authorization = Some [''Bearer good''], gc_peer = Some (Some [[''joe.user'']])\<rparr>) = Ok None"
    by code_simp
  ultimately show ?thesis
    using mtls_never_authenticates [of "sample_auth\<lparr>ac_Mtls := (ac_Mtls sample_auth)\<lparr>mc_Enabled := True\<rparr>\<rparr>" sample_lib]
    by (auto simp: sample_auth_def)
qed

text \<open>
  C30. Merging two identities grants only what both grant: a scope or resource that passes on the
  merged identity passes on the first, and on the second where the second has that check enabled. The
  subjects agree.
\<close>

theorem merge_grants_only_common:
  assumes "Merge a (Some b) = Ok m"
  shows "(ValidateScope m q \<longrightarrow> ValidateScope a q \<and> (ai_ScopeEnabled b \<longrightarrow> ValidateScope b q)) \<and>
    (ValidateResource m q \<longrightarrow> ValidateResource a q \<and> (ai_ResourceEnabled b \<longrightarrow> ValidateResource b q)) \<and>
    ai_Subject m = ai_Subject a \<and> ai_Subject m = ai_Subject b"
proof -
  note M = Merge_ok [OF assms]
  have "ValidateScope a q \<and> (ai_ScopeEnabled b \<longrightarrow> ValidateScope b q)" if q: "ValidateScope m q"
  proof (cases "ai_ScopeEnabled b")
    case True
    with scopes.check_common [of b m a q] M q show ?thesis by simp
  next
    case False
    with M(3,5) q show ?thesis by (simp add: scopes.check_iff)
  qed
  moreover have "ValidateResource a q \<and> (ai_ResourceEnabled b \<longrightarrow> ValidateResource b q)" if q: "ValidateResource m q"
  proof (cases "ai_ResourceEnabled b")
    case True
    with resources.check_common [of b m a q] M q show ?thesis by simp
  next
    case False
    with M(4,6) q show ?thesis by (simp add: resources.check_iff)
  qed
  ultimately show ?thesis using M(1,2) by simp
qed

theorem merge_grants_only_common_witness:
  "ValidateScope (sample_info [''db:read'', ''db:write''] [''db'']) ''db:write'' \<and>
   ValidateScope (sample_info [''db''] [''db:app'']) ''db:write''"
proof -
  have m: "Merge (sample_info [''db:read'', ''db:write''] [''db'']) (Some (sample_info [''db''] [''db:app'']))
      = Ok (sample_info [''db:read'', ''db:write''] [])" by code_simp
  have "ValidateScope (sample_info [''db:read'', ''db:write''] []) ''db:write''"
    "ai_ScopeEnabled (sample_info [''db''] [''db:app''])" by code_simp+
  with merge_grants_only_common [OF m, of "''db:write''"] show ?thesis by blast
qed

text \<open>
  The key cache is transparent: with a cache that holds what the files hold, looking a key up
  gives what reading the file configured for the algorithm gives, an error for an algorithm that is
  not configured, and leaves such a cache. A token cannot choose a key of another algorithm.
\<close>

theorem key_cache_transparent:
  assumes "cache_ok load k"
  shows "fst (LoadVerifyKey load alg k) = direct_key load k alg \<and>
    cache_ok load (snd (LoadVerifyKey load alg k)) \<and> cache_ok load (ResetKey k) \<and>
    (alg \<notin> set (vk_Types k) \<longrightarrow> (\<forall>key. fst (LoadVerifyKey load alg k) \<noteq> Ok key))"
proof -
  have "first_index alg ts = None" if "alg \<notin> set ts" for ts using that by (induction ts) auto
  then show ?thesis
    using LoadVerifyKey_direct [OF assms, of alg] cache_ok_reset by (auto simp: direct_key_def)
qed

theorem key_cache_transparent_witness:
  "fst (LoadVerifyKey (\<lambda>f. Inr (7::nat)) ''HS256'' (jc_verify_key (ac_Jwt sample_auth))) \<noteq> Ok 7"
proof -
  have "''HS256'' \<notin> set (vk_Types (jc_verify_key (ac_Jwt sample_auth)))" by (simp add: sample_auth_def)
  with key_cache_transparent [OF sample_cache_ok, of "\<lambda>f. Inr (7::nat)" "''HS256''"] show ?thesis by blast
qed

text \<open>What \<open>FromClaims\<close> reads from them, given the documented reading of the registered claims.\<close>

lemma FromClaims_genjwt:
  assumes "\<And>c s. c ''sub'' = Some (ClaimString s) \<Longrightarrow> get_subject c = Inr s"
    and "\<And>c xs. c ''aud'' = Some (ClaimStrings xs) \<Longrightarrow> get_audience c = Inr xs"
    and "\<And>c. c ''aud'' = None \<Longrightarrow> get_audience c = Inr []"
    and "plain_names (gj_Scopes g)" and "plain_names (gj_Resources g)"
  shows "FromClaims get_subject get_audience (genjwt_claims ns jti g) (new_auth_info True True) =
    \<lparr>ai_Subject = (if gj_Subject g = [] then ns else gj_Subject g), ai_Audiences = gj_Audiences g,
     ai_ScopeEnabled = True, ai_Scopes = gj_Scopes g, ai_ResourceEnabled = True,
     ai_Resources = gj_Resources g, ai_Uuid = jti\<rparr>"
proof -
  have "get_audience (genjwt_claims ns jti g) = Inr (gj_Audiences g)"
    using assms(2,3) genjwt_other_claims(4) [of ns jti g] by (cases "gj_Audiences g = []") auto
  moreover have "get_subject (genjwt_claims ns jti g) = Inr (if gj_Subject g = [] then ns else gj_Subject g)"
    by (rule assms(1)) (rule genjwt_other_claims(3))
  ultimately show ?thesis
    using split_join_names [OF assms(4)] split_join_names [OF assms(5)]
    by (auto simp: FromClaims_def genjwt_scope_claim genjwt_other_claims new_auth_info_def Let_def split: if_splits)
qed

text \<open>
  The claims \<open>genjwt\<close> signs are read back as they were asked for, when the names are non-empty
  and hold no space, given the documented reading of the registered claims.
\<close>

theorem genjwt_roundtrip:
  assumes "\<And>c s. c ''sub'' = Some (ClaimString s) \<Longrightarrow> get_subject c = Inr s"
    and "\<And>c xs. c ''aud'' = Some (ClaimStrings xs) \<Longrightarrow> get_audience c = Inr xs"
    and "\<And>c. c ''aud'' = None \<Longrightarrow> get_audience c = Inr []"
    and "plain_names (gj_Scopes g)" and "plain_names (gj_Resources g)"
  shows "FromClaims get_subject get_audience (genjwt_claims ns jti g) (new_auth_info True True) =
    \<lparr>ai_Subject = (if gj_Subject g = [] then ns else gj_Subject g), ai_Audiences = gj_Audiences g,
     ai_ScopeEnabled = True, ai_Scopes = gj_Scopes g, ai_ResourceEnabled = True,
     ai_Resources = gj_Resources g, ai_Uuid = jti\<rparr>"
  using assms by (rule FromClaims_genjwt)

definition sample_genjwt :: genjwt_cmd where
  "sample_genjwt = \<lparr>gj_Subject = ''joe'', gj_Audiences = [''pg-helper''], gj_Scopes = [''db:read'', ''db:write''],
     gj_Resources = []\<rparr>"

theorem genjwt_roundtrip_witness:
  "ai_Scopes (FromClaims (jwt_subject sample_lib) (jwt_audience sample_lib) (genjwt_claims [] ''1'' sample_genjwt)
     (new_auth_info True True)) = [''db:read'', ''db:write'']"
  by (subst genjwt_roundtrip) (auto simp: sample_lib_def sample_genjwt_def plain_names_def)

end
