(* ===== verification/Validate.thy ===== *)
theory Validate
  imports Agent_Config Auth
begin

text \<open>
  The validators of struct tags (\<open>pkg/validate\<close>). They get a field of a struct by reflection, the
  parameter of the tag and the struct around the field. The lemmas show what the code that runs
  after a validation may rely on: which characters a name has, that the agent's own backup path of a
  database is accepted for it, and that looking a verification key up does not run out of the files.
\<close>

section \<open>Reflection\<close>

text \<open>
  A \<open>reflect.Value\<close>: a string, a bool, an integer with its type, a slice of strings (nil when empty), or the zero value
  that \<open>FieldByName\<close> returns for a field that is not there. \<open>String\<close> of anything but a string names
  its type; \<open>Int\<close>, \<open>IsZero\<close> and \<open>Len\<close> panic on values they are not for.
\<close>

datatype reflect_value =
  RvString string | RvBool bool | RvInt string int | RvStrings "string list" | RvInvalid

fun rv_String :: "reflect_value \<Rightarrow> string" where
  "rv_String (RvString s) = s"
| "rv_String (RvBool b) = ''<bool Value>''"
| "rv_String (RvInt t i) = ''<'' @ t @ '' Value>''"
| "rv_String (RvStrings xs) = ''<[]string Value>''"
| "rv_String RvInvalid = ''<invalid Value>''"

fun rv_Int :: "reflect_value \<Rightarrow> int outcome" where
  "rv_Int (RvInt t i) = Ok i"
| "rv_Int v = Panicked"

fun rv_IsZero :: "reflect_value \<Rightarrow> bool outcome" where
  "rv_IsZero (RvString s) = Ok (s = [])"
| "rv_IsZero (RvBool b) = Ok (\<not> b)"
| "rv_IsZero (RvInt t i) = Ok (i = 0)"
| "rv_IsZero (RvStrings xs) = Ok (xs = [])"
| "rv_IsZero RvInvalid = Panicked"

fun rv_Len :: "reflect_value \<Rightarrow> nat outcome" where
  "rv_Len (RvString s) = Ok (length s)"
| "rv_Len (RvStrings xs) = Ok (length xs)"
| "rv_Len v = Panicked"

record field_level =
  fl_Field :: reflect_value
  fl_Param :: string
  fl_Parent :: "string \<Rightarrow> reflect_value"

section \<open>The validators\<close>

text \<open>A character class is a list of ranges, as the patterns write it.\<close>

definition in_class :: "(char \<times> char) list \<Rightarrow> char \<Rightarrow> bool" where
  "in_class ranges c = list_ex (\<lambda>(lo, hi). (of_char lo :: nat) \<le> of_char c \<and> (of_char c :: nat) \<le> of_char hi) ranges"

text \<open>\<open>MatchString\<close> of a pattern \<open>^[first][rest]+$\<close>.\<close>

definition match_name :: "(char \<times> char) list \<Rightarrow> (char \<times> char) list \<Rightarrow> string \<Rightarrow> bool" where
  "match_name first rest s =
     (case s of [] \<Rightarrow> False | c # cs \<Rightarrow> in_class first c \<and> cs \<noteq> [] \<and> list_all (in_class rest) cs)"

definition name_first :: "(char \<times> char) list" where
  "name_first = [(CHR ''a'', CHR ''z''), (CHR ''A'', CHR ''Z''), (CHR ''_'', CHR ''_'')]"

definition name_rest :: "(char \<times> char) list" where
  "name_rest = name_first @ [(CHR ''0'', CHR ''9'')]"

definition validateID :: "field_level \<Rightarrow> bool" where
  "validateID f =
     (if rv_String (fl_Field f) = [] then True else match_name name_first name_rest (rv_String (fl_Field f)))"

definition isValidName :: "field_level \<Rightarrow> bool" where
  "isValidName f =
     (if rv_String (fl_Field f) = [] then True
      else match_name name_first (name_rest @ [(CHR ''-'', CHR ''-'')]) (rv_String (fl_Field f)))"

definition validatePgVer :: "field_level \<Rightarrow> bool outcome" where
  "validatePgVer f =
     (case rv_IsZero (fl_Field f) of
        Ok True \<Rightarrow> Ok True
      | Ok False \<Rightarrow> (case rv_Int (fl_Field f) of Ok i \<Rightarrow> Ok (i \<ge> 13) | _ \<Rightarrow> Panicked)
      | _ \<Rightarrow> Panicked)"

definition validateRequiredOneIf :: "field_level \<Rightarrow> bool" where
  "validateRequiredOneIf f =
     (let tags = split_on (CHR '' '') (fl_Param f)
      in if rv_String (fl_Field f) \<noteq> hd tags then True
         else list_ex (\<lambda>tagName. rv_String (fl_Parent f tagName) \<noteq> []) (tl tags))"

fun same_len_loop :: "field_level \<Rightarrow> string list \<Rightarrow> bool outcome" where
  "same_len_loop f [] = Ok True"
| "same_len_loop f (param # params) =
     (case (rv_Len (fl_Field f), rv_Len (fl_Parent f param)) of
        (Ok m, Ok n) \<Rightarrow> if m \<noteq> n then Ok False else same_len_loop f params
      | _ \<Rightarrow> Panicked)"

definition validateSameLen :: "field_level \<Rightarrow> bool outcome" where
  "validateSameLen f = same_len_loop f (split_on (CHR '' '') (fl_Param f))"

text \<open>
  \<open>url.Parse\<close>, \<open>net.ParseIP\<close> with \<open>To4\<close> (\<open>None\<close> for a nil IP, or whether it is of version 4) and
  whether \<open>os.Stat\<close> succeeds are parameters.
\<close>

record parsed_url =
  pu_Scheme :: string
  pu_Host :: string
  pu_Path :: string

text \<open>The first piece of \<open>strings.SplitN(s, sep, 2)\<close>.\<close>

fun cut_before :: "string \<Rightarrow> string \<Rightarrow> string" where
  "cut_before sep [] = []"
| "cut_before sep (c # s) = (if has_prefix (c # s) sep then [] else c # cut_before sep s)"

definition validateGrpcUrl ::
    "(string \<Rightarrow> go_error + parsed_url) \<Rightarrow> (string \<Rightarrow> bool option) \<Rightarrow> (string \<Rightarrow> bool) \<Rightarrow> field_level \<Rightarrow> bool outcome" where
  "validateGrpcUrl url_parse parse_ip stat_ok f =
     (case url_parse (rv_String (fl_Field f)) of
        Inl e \<Rightarrow> Ok False
      | Inr u \<Rightarrow>
          if pu_Scheme u \<in> {''dns'', ''passthrough''} then Ok (CHR '':'' \<in> set (pu_Path u))
          else if pu_Scheme u = ''ipv4''
          then if length (pu_Host u) < 1 then Panicked
               else Ok (parse_ip (cut_before '':'' (drop 1 (pu_Host u))) = Some True)
          else if pu_Scheme u = ''ipv6''
          then if length (pu_Host u) < 2 then Panicked
               else Ok (parse_ip (cut_before '']:'' (drop 2 (pu_Host u))) = Some False)
          else if pu_Scheme u \<in> {''unix'', ''unix-abstract''} then Ok (stat_ok (pu_Path u))
          else Ok False)"

text \<open>
  The validators by their tags, as \<open>RegisterCustomValidations\<close> registers them on an engine; the engine
  keeps the last function of a tag.
\<close>

definition RegisterCustomValidations ::
    "(string \<Rightarrow> go_error + parsed_url) \<Rightarrow> (string \<Rightarrow> bool option) \<Rightarrow> (string \<Rightarrow> bool)
      \<Rightarrow> (string \<rightharpoonup> (field_level \<Rightarrow> bool outcome)) \<Rightarrow> (string \<rightharpoonup> (field_level \<Rightarrow> bool outcome))" where
  "RegisterCustomValidations url_parse parse_ip stat_ok engine =
     engine(''id'' \<mapsto> (\<lambda>f. Ok (validateID f)), ''pg_ver'' \<mapsto> validatePgVer,
       ''required_one_if'' \<mapsto> (\<lambda>f. Ok (validateRequiredOneIf f)),
       ''grpcurl'' \<mapsto> validateGrpcUrl url_parse parse_ip stat_ok, ''samelen'' \<mapsto> validateSameLen,
       ''iname'' \<mapsto> (\<lambda>f. Ok (isValidName f)))"

text \<open>
  What the validators let through: the host of an \<open>ipv4\<close> address is judged without its first
  character, and a bool never has the value a \<open>required_one_if\<close> names, as the example in its comment
  writes it.
\<close>

lemma grpc_url_skips_host_start:
  assumes "url_parse s = Inr \<lparr>pu_Scheme = ''ipv4'', pu_Host = c # host, pu_Path = path\<rparr>"
    and "url_parse s' = Inr \<lparr>pu_Scheme = ''ipv4'', pu_Host = c' # host, pu_Path = path\<rparr>"
  shows "validateGrpcUrl url_parse parse_ip stat_ok \<lparr>fl_Field = RvString s, fl_Param = p, fl_Parent = P\<rparr> =
    validateGrpcUrl url_parse parse_ip stat_ok \<lparr>fl_Field = RvString s', fl_Param = p, fl_Parent = P\<rparr>"
  using assms by (simp add: validateGrpcUrl_def)

lemma required_one_if_ignores_bools:
  "validateRequiredOneIf \<lparr>fl_Field = RvBool b, fl_Param = ''true Field1 Filed2'', fl_Parent = P\<rparr>"
  by (simp add: validateRequiredOneIf_def)

section \<open>Names\<close>

text \<open>The characters of a name that was accepted.\<close>

lemma in_class_append: "in_class (xs @ ys) c \<longleftrightarrow> in_class xs c \<or> in_class ys c"
  by (auto simp: in_class_def list_ex_iff)

lemma name_first_rest: "in_class name_first c \<Longrightarrow> in_class name_rest c"
  by (simp add: name_rest_def in_class_append)

lemma match_name_all: "match_name name_first rest s \<Longrightarrow> (\<And>c. in_class name_first c \<Longrightarrow> in_class rest c) \<Longrightarrow>
    list_all (in_class rest) s \<and> 2 \<le> length s \<and> in_class name_first (hd s)"
  by (cases s; cases "tl s") (auto simp: match_name_def)

lemma in_name_rest_iff: "in_class name_rest c \<longleftrightarrow>
    (let n = (of_char c :: nat) in 97 \<le> n \<and> n \<le> 122 \<or> 65 \<le> n \<and> n \<le> 90 \<or> n = 95 \<or> 48 \<le> n \<and> n \<le> 57)"
  by (auto simp: name_rest_def name_first_def in_class_def Let_def)

lemma validateID_chars:
  assumes "validateID f" and "rv_String (fl_Field f) = name" and "name \<noteq> []"
  shows "list_all (in_class name_rest) name" and "2 \<le> length name" and "in_class name_first (hd name)"
  using assms match_name_all[of name_rest name, OF _ name_first_rest] by (auto simp: validateID_def)

text \<open>Decimal numbers are read back.\<close>

lemma digits_val_append: "digits_val (xs @ [c]) = 10 * digits_val xs + (of_char c - 48)"
  by (simp add: digits_val_def)

lemma digits_val_of [simp]: "digits_val (digits_of n) = n"
proof (induction n rule: digits_of.induct)
  case (1 n)
  show ?case
  proof (cases "n < 10")
    case True
    then show ?thesis by (subst digits_of.simps) (simp add: digits_val_def digit_char)
  next
    case False
    with 1 show ?thesis by (subst digits_of.simps) (simp add: digits_val_append digit_char)
  qed
qed

lemma digits_of_hd: "digits_of n = c # cs \<Longrightarrow> c \<noteq> CHR ''-'' \<and> c \<noteq> CHR ''+'' \<and> c \<noteq> CHR ''/'' \<and> c \<noteq> CHR ''.''"
  using digits_of_digits[of n] by (auto simp: is_digit_def)

lemma Atoi_fmt_d:
  assumes "- (2 ^ 63) \<le> i" and "i < 2 ^ 63"
  shows "Atoi (fmt_d i) = (i, False)"
proof -
  obtain c cs where d: "digits_of (nat \<bar>i\<bar>) = c # cs" using digits_of_ne by (cases "digits_of (nat \<bar>i\<bar>)") auto
  have all: "list_all is_digit (c # cs)" and val: "digits_val (c # cs) = nat \<bar>i\<bar>"
    using digits_of_digits[of "nat \<bar>i\<bar>"] digits_val_of[of "nat \<bar>i\<bar>"] by (simp_all add: d del: digits_val_of)
  show ?thesis
    using assms d all val digits_of_hd[OF d] by (auto simp: Atoi_def fmt_d_def Let_def)
qed

section \<open>Backup paths\<close>

lemma clean_comps_plain:
  assumes "\<forall>c \<in> set cs. c \<noteq> [] \<and> c \<noteq> ''.'' \<and> c \<noteq> ''..''"
  shows "clean_comps rooted out cs = rev out @ cs"
  using assms by (induction cs arbitrary: out) auto

lemma split_three:
  assumes "CHR ''/'' \<notin> set a" and "CHR ''/'' \<notin> set b" and "CHR ''/'' \<notin> set c"
  shows "split_on (CHR ''/'') (a @ ''/'' @ b @ ''/'' @ c) = [a, b, c]"
  using split_on_join_with[of "[a, b, c]" "CHR ''/''"] assms by simp


lemma agent_backup_path_comps:
  assumes "list_all (in_class name_rest) name" and "2 \<le> length name"
    and "CHR ''/'' \<notin> set (format_time now)"
  shows "split_on (CHR ''/'') (NewBackupFile format_time c now name) =
      [''pg-'' @ fmt_d (sint (cfg_CurrentVersion c)), name, format_time now @ ''.sql'']"
    and "filepath_Clean (NewBackupFile format_time c now name) = NewBackupFile format_time c now name"
proof -
  let ?v = "''pg-'' @ fmt_d (sint (cfg_CurrentVersion c))"
  have name: "CHR ''/'' \<notin> set name" "CHR ''.'' \<notin> set name"
    using assms(1) by (auto simp: list_all_iff in_name_rest_iff Let_def)
  have f: "NewBackupFile format_time c now name = ?v @ ''/'' @ name @ ''/'' @ (format_time now @ ''.sql'')"
    by (simp add: NewBackupFile_def)
  have "CHR ''/'' \<notin> set ?v" using fmt_d_no_sep by simp
  then show s: "split_on (CHR ''/'') (NewBackupFile format_time c now name) = [?v, name, format_time now @ ''.sql'']"
    unfolding f by (rule split_three) (use name assms(3) in simp_all)
  have "\<not> has_prefix (NewBackupFile format_time c now name) ''/''" by (simp add: f has_prefix_def)
  moreover have "clean_comps False [] [?v, name, format_time now @ ''.sql''] = [?v, name, format_time now @ ''.sql'']"
    using clean_comps_plain[of "[?v, name, format_time now @ ''.sql'']" False "[]"] name(2) assms(2)
    by (cases name) auto
  ultimately show "filepath_Clean (NewBackupFile format_time c now name) = NewBackupFile format_time c now name"
    by (simp add: filepath_Clean_def s Let_def) (simp add: f)
qed

text \<open>
  C36. The backup path the agent makes for a database whose name was validated is accepted when the
  database is restored from it: it is clean already, it names the database, and its version is read
  back.
\<close>

theorem backup_path_roundtrip:
  assumes "validateID f" and "rv_String (fl_Field f) = name" and "name \<noteq> []"
    and "CHR ''/'' \<notin> set (format_time now)"
  shows "ValidateBackupPath c (NewBackupFile format_time c now name) name = Ok (cfg_CurrentVersion c, None) \<and>
    extractBackupPath (NewBackupFile format_time c now name) = Ok (name, cfg_CurrentVersion c, None)"
proof -
  have a: "Atoi (fmt_d (sint (cfg_CurrentVersion c))) = (sint (cfg_CurrentVersion c), False)"
    using sint_ge[of "cfg_CurrentVersion c"] sint_lt[of "cfg_CurrentVersion c"] by (intro Atoi_fmt_d) simp_all
  note chars = validateID_chars[OF assms(1-3)]
  note p = agent_backup_path_comps[where c = c, OF chars(1,2), of format_time now, OF assms(4)]
  have "has_prefix (NewBackupFile format_time c now name) ''pg-''" by (simp add: NewBackupFile_def has_prefix_def)
  then have e: "extractBackupPath (NewBackupFile format_time c now name) = Ok (name, cfg_CurrentVersion c, None)"
    by (simp add: extractBackupPath_def p a Let_def)
  then show ?thesis by (simp add: ValidateBackupPath_def word_sless_alt)
qed

definition sample_db_cfg :: db_config where
  "sample_db_cfg = \<lparr>cfg_ReserveNames = [], cfg_HostTemplate = [], cfg_InstanceName = ''pg-16'', cfg_Port = 5432,
     cfg_User = ''postgres'', cfg_Name = ''postgres'', cfg_Password = ''p'', cfg_PasswordFile = [], cfg_MaxConns = 4,
     cfg_BackupRootPath = ''/backups'', cfg_CurrentVersion = 16, cfg_tmpl = None\<rparr>"

definition string_field :: "string \<Rightarrow> field_level" where
  "string_field s = \<lparr>fl_Field = RvString s, fl_Param = [], fl_Parent = \<lambda>_. RvInvalid\<rparr>"

theorem backup_path_roundtrip_witness:
  "ValidateBackupPath sample_db_cfg ''pg-16/app_1/2024.sql'' ''app_1'' = Ok (16, None)"
proof -
  have "validateID (string_field ''app_1'')" by code_simp
  moreover have "rv_String (fl_Field (string_field ''app_1'')) = ''app_1''" "CHR ''/'' \<notin> set ((\<lambda>_. ''2024'') (0::time))"
    by (simp_all add: string_field_def)
  moreover have f: "NewBackupFile (\<lambda>_. ''2024'') sample_db_cfg 0 ''app_1'' = ''pg-16/app_1/2024.sql''"
    and v: "cfg_CurrentVersion sample_db_cfg = 16" by code_simp+
  ultimately show ?thesis
    using backup_path_roundtrip[of "string_field ''app_1''" "''app_1''" "\<lambda>_. ''2024''" 0 sample_db_cfg] by (simp only: f v) simp
qed

section \<open>Verification keys\<close>

text \<open>The field \<open>Files\<close> of a \<open>JwtVerifyKey\<close>, with the tag \<open>samelen=Types\<close>.\<close>

definition key_files_field :: "'k verify_key \<Rightarrow> field_level" where
  "key_files_field k = \<lparr>fl_Field = RvStrings (vk_Files k), fl_Param = ''Types'',
     fl_Parent = (\<lambda>n. if n = ''Types'' then RvStrings (vk_Types k) else RvInvalid)\<rparr>"

lemma key_files_valid: "validateSameLen (key_files_field k) = Ok (length (vk_Files k) = length (vk_Types k))"
  by (simp add: validateSameLen_def key_files_field_def)

lemma first_index_less: "first_index a ts = Some i \<Longrightarrow> i < length ts"
  by (induction ts arbitrary: i) (auto split: if_splits)

lemma LoadVerifyKey_fields:
  assumes "length (vk_Files k) = length (vk_Types k)"
  shows "fst (LoadVerifyKey load alg k) \<noteq> Panicked"
    and "vk_Files (snd (LoadVerifyKey load alg k)) = vk_Files k \<and> vk_Types (snd (LoadVerifyKey load alg k)) = vk_Types k"
  using first_index_less[of alg "vk_Types k"] assms
  by (auto simp: LoadVerifyKey_def loadKey_def Let_def split: option.splits sum.splits)

lemma jwt_Parse_fields:
  assumes "length (vk_Files k) = length (vk_Types k)"
  shows "fst (jwt_Parse J t k) \<noteq> Panicked"
    and "vk_Files (snd (jwt_Parse J t k)) = vk_Files k \<and> vk_Types (snd (jwt_Parse J t k)) = vk_Types k"
  using LoadVerifyKey_fields[OF assms, of "jwt_load_public_key J"]
  by (auto simp: jwt_Parse_def split: sum.splits prod.splits outcome.splits) (metis fst_conv snd_conv)+

lemma jwt_auth_Parse_fields:
  assumes "length (vk_Files (jc_verify_key c)) = length (vk_Types (jc_verify_key c))"
  shows "fst (jwt_auth_Parse J h c) \<noteq> Panicked \<and>
    length (vk_Files (jc_verify_key (snd (jwt_auth_Parse J h c)))) = length (vk_Types (jc_verify_key (snd (jwt_auth_Parse J h c))))"
proof (cases "getToken h")
  case (Inr token)
  obtain r k where p: "jwt_Parse J token (jc_verify_key c) = (r, k)" by fastforce
  have "r \<noteq> Panicked" "length (vk_Files k) = length (vk_Types k)"
    using jwt_Parse_fields[OF assms, of J token] assms by (simp_all add: p)
  then show ?thesis
    by (cases r) (auto simp: jwt_auth_Parse_def Inr p Let_def split: option.splits if_splits)
qed (simp add: jwt_auth_Parse_def assms)

text \<open>The results of any number of requests, one after the other.\<close>

fun parse_headers :: "'k jwt_lib \<Rightarrow> (go_error + string) list \<Rightarrow> 'k jwt_auth_config \<Rightarrow> auth_info option outcome list \<times> 'k jwt_auth_config" where
  "parse_headers J [] c = ([], c)"
| "parse_headers J (h # hs) c =
     (case jwt_auth_Parse J h c of (r, c1) \<Rightarrow> (case parse_headers J hs c1 of (rs, c2) \<Rightarrow> (r # rs, c2)))"

text \<open>
  C28. A configuration of verification keys that was validated stays valid through any number of
  requests, and none of them panics while its token is parsed.
\<close>

theorem validated_keys_never_panic:
  assumes "validateSameLen (key_files_field (jc_verify_key c)) = Ok True"
    and "parse_headers J headers c = (results, c')"
  shows "Panicked \<notin> set results \<and> validateSameLen (key_files_field (jc_verify_key c')) = Ok True"
  using assms
proof (induction headers arbitrary: c results)
  case (Cons h hs)
  obtain r c1 where r: "jwt_auth_Parse J h c = (r, c1)" by fastforce
  obtain rs where rs: "parse_headers J hs c1 = (rs, c')" and results: "results = r # rs"
    using Cons.prems(2) by (auto simp: r split: prod.splits)
  have "r \<noteq> Panicked \<and> validateSameLen (key_files_field (jc_verify_key c1)) = Ok True"
    using jwt_auth_Parse_fields[of c J h] Cons.prems(1) r by (simp add: key_files_valid)
  then show ?case using Cons.IH[OF _ rs] by (auto simp: results)
qed simp

theorem validated_keys_never_panic_witness:
  "Panicked \<notin> set (fst (parse_headers sample_lib [Inr ''Bearer good'', Inr ''Bearer bad'', Inr []] (ac_Jwt sample_auth)))"
proof -
  have "validateSameLen (key_files_field (jc_verify_key (ac_Jwt sample_auth))) = Ok True"
    by (simp add: key_files_valid sample_auth_def)
  from validated_keys_never_panic[OF this prod.collapse[symmetric]] show ?thesis by blast
qed

end
