(* ===== verification/Db_Pool.thy ===== *)
theory Db_Pool
  imports Validate "HOL-Library.Sublist"
begin

text \<open>
  The agent's connection pool: its configuration (\<open>NewPoolConfig\<close> in \<open>internal/config/agent/db_config.go\<close>),
  its set-up (\<open>internal/db/db_api.go\<close>) and the migration (\<open>migrate.go\<close>). The lemmas say which password a
  connection is made with, and that the logged error of a bad configuration does not show it.
\<close>

section \<open>Library functions\<close>

text \<open>\<open>strings.ReplaceAll\<close> for a text that is not empty.\<close>

fun ReplaceAll :: "string \<Rightarrow> string \<Rightarrow> string \<Rightarrow> string" where
  "ReplaceAll [] old new = []"
| "ReplaceAll (c # s) old new =
     (if old \<noteq> [] \<and> has_prefix (c # s) old then new @ ReplaceAll (drop (length old - 1) s) old new
      else c # ReplaceAll s old new)"

text \<open>
  How \<open>net/url\<close> reads a password back from a URL: what is between the scheme and the first slash, up to
  its last \<open>@\<close>, after the first colon, with the percent escapes decoded. A plus sign is itself here; it
  stands for a space only in a query.
\<close>

definition unhex :: "char \<Rightarrow> nat option" where
  "unhex c =
     (let n = (of_char c :: nat)
      in if 48 \<le> n \<and> n \<le> 57 then Some (n - 48)
         else if 65 \<le> n \<and> n \<le> 70 then Some (n - 55)
         else if 97 \<le> n \<and> n \<le> 102 then Some (n - 87)
         else None)"

fun userinfo_Unescape :: "string \<Rightarrow> string option" where
  "userinfo_Unescape [] = Some []"
| "userinfo_Unescape (c # s) =
     (if c = CHR ''%''
      then (case s of
              a # b # rest \<Rightarrow>
                (case (unhex a, unhex b) of
                   (Some x, Some y) \<Rightarrow> map_option (Cons (char_of (16 * x + y))) (userinfo_Unescape rest)
                 | _ \<Rightarrow> None)
            | _ \<Rightarrow> None)
      else map_option (Cons c) (userinfo_Unescape s))"

fun before_last :: "char \<Rightarrow> string \<Rightarrow> string" where
  "before_last c [] = []"
| "before_last c (x # s) = (if c \<in> set s then x # before_last c s else [])"

definition url_password :: "string \<Rightarrow> string option" where
  "url_password u =
     (let authority = takeWhile (\<lambda>c. c \<noteq> CHR ''/'') (trim_prefix u ''postgresql://'');
          userinfo = before_last (CHR ''@'') authority
      in userinfo_Unescape (drop 1 (dropWhile (\<lambda>c. c \<noteq> CHR '':'') userinfo)))"

section \<open>The pool\<close>

text \<open>What the pool is configured with, times in nanoseconds. \<open>pgxpool.ParseConfig\<close> is a parameter.\<close>

record pool_config =
  pc_ConnString :: string
  pc_MaxConns :: "32 word"
  pc_MinConns :: "32 word"
  pc_MaxConnLifetime :: int
  pc_MaxConnIdleTime :: int
  pc_HealthCheckPeriod :: int
  pc_ConnectTimeout :: int

text \<open>The detail of an error with the password masked, which is logged before the process exits.\<close>

definition masked_detail :: "db_config \<Rightarrow> string \<Rightarrow> string" where
  "masked_detail c detail = ReplaceAll detail ('':'' @ QueryEscape (cfg_Password c) @ ''@'') '':******@''"

definition NewPoolConfig ::
    "(string \<Rightarrow> go_error + pool_config) \<Rightarrow> db_config \<Rightarrow> (string + pool_config) outcome" where
  "NewPoolConfig ParseConfig c =
     (case Url c [] None of
        Ok u \<Rightarrow>
          Ok (case ParseConfig u of
                Inl err \<Rightarrow> Inl (masked_detail c (error_text err))
              | Inr dbConfig \<Rightarrow>
                  Inr (dbConfig\<lparr>pc_MaxConns := cfg_MaxConns c, pc_MinConns := 0,
                    pc_MaxConnLifetime := 3600 * 10 ^ 9, pc_MaxConnIdleTime := 1800 * 10 ^ 9,
                    pc_HealthCheckPeriod := 60 * 10 ^ 9, pc_ConnectTimeout := 5 * 10 ^ 9\<rparr>))
      | Fail e \<Rightarrow> Fail e
      | Panicked \<Rightarrow> Panicked)"

text \<open>The outer sum is the exit of the process with the logged detail, the inner one the error.\<close>

definition initConnPool ::
    "(string \<Rightarrow> go_error + pool_config) \<Rightarrow> (pool_config \<Rightarrow> go_error + 'pool) \<Rightarrow> db_config
      \<Rightarrow> (string + (go_error + 'pool)) outcome" where
  "initConnPool ParseConfig NewWithConfig c =
     (case NewPoolConfig ParseConfig c of
        Ok (Inl detail) \<Rightarrow> Ok (Inl detail)
      | Ok (Inr poolConfig) \<Rightarrow> Ok (Inr (NewWithConfig poolConfig))
      | Fail e \<Rightarrow> Fail e
      | Panicked \<Rightarrow> Panicked)"

text \<open>
  The context of the connections is whether it is done; its cancel function is never called. The notifier
  is set later.
\<close>

record ('pool, 'producer) db_api =
  da_DbConfig :: db_config
  da_DbPool :: 'pool
  da_ConnCtx_done :: bool
  da_DbStatusNotifier :: "'producer option"

text \<open>\<open>Acquire\<close> of the pool is a parameter; it fails when the context is done.\<close>

definition api_Acquire ::
    "(bool \<Rightarrow> 'pool \<Rightarrow> (go_error + 'conn) \<times> 'pool) \<Rightarrow> ('pool, 'producer) db_api
      \<Rightarrow> (go_error + 'conn) \<times> ('pool, 'producer) db_api" where
  "api_Acquire pool_Acquire api =
     (case pool_Acquire (da_ConnCtx_done api) (da_DbPool api) of (r, pool) \<Rightarrow> (r, api\<lparr>da_DbPool := pool\<rparr>))"

definition NewDbApi ::
    "(string \<Rightarrow> go_error + pool_config) \<Rightarrow> (pool_config \<Rightarrow> go_error + 'pool) \<Rightarrow> db_config
      \<Rightarrow> (string + (go_error + ('pool, 'producer) db_api)) outcome" where
  "NewDbApi ParseConfig NewWithConfig c =
     (case initConnPool ParseConfig NewWithConfig c of
        Ok (Inl detail) \<Rightarrow> Ok (Inl detail)
      | Ok (Inr (Inl err)) \<Rightarrow> Ok (Inr (Inl err))
      | Ok (Inr (Inr pool)) \<Rightarrow>
          Ok (Inr (Inr \<lparr>da_DbConfig = c, da_DbPool = pool, da_ConnCtx_done = False, da_DbStatusNotifier = None\<rparr>))
      | Fail e \<Rightarrow> Fail e
      | Panicked \<Rightarrow> Panicked)"

text \<open>The connection behind a query object: of the pool, plain, or none for a transaction.\<close>

datatype 'c queries_db = PoolConn 'c | PlainConn 'c | Transaction

fun queries_Conn :: "'c queries_db \<Rightarrow> 'c option" where
  "queries_Conn (PoolConn c) = Some c"
| "queries_Conn (PlainConn c) = Some c"
| "queries_Conn Transaction = None"

definition MigrateUp :: "go_error option \<Rightarrow> go_error option \<Rightarrow> go_error option" where
  "MigrateUp SetDialect Up = (case SetDialect of Some err \<Rightarrow> Some err | None \<Rightarrow> (case Up of Some err \<Rightarrow> Some err | None \<Rightarrow> None))"

section \<open>The password\<close>

definition plain_chars :: "string \<Rightarrow> bool" where
  "plain_chars s \<longleftrightarrow> CHR '':'' \<notin> set s \<and> CHR ''@'' \<notin> set s \<and> CHR ''/'' \<notin> set s"

lemma QueryEscape_Nil [simp]: "QueryEscape [] = []"
  by (simp add: QueryEscape_def)

lemma QueryEscape_Cons: "QueryEscape (c # s) =
    (if query_unreserved c then [c] else if c = CHR '' '' then ''+''
     else [CHR ''%'', hex_digit ((of_char c :: nat) div 16), hex_digit ((of_char c :: nat) mod 16)]) @ QueryEscape s"
  by (simp add: QueryEscape_def)

lemma hex_digit_code: "n < 16 \<Longrightarrow> (of_char (hex_digit n) :: nat) = (if n < 10 then 48 + n else 55 + n)"
  by (simp add: hex_digit_def)

lemma unhex_hex_digit: "n < 16 \<Longrightarrow> unhex (hex_digit n) = Some n"
  by (simp add: unhex_def hex_digit_code)

lemma hex_digit_plain:
  assumes "n < 16"
  shows "plain_chars [hex_digit n] \<and> hex_digit n \<noteq> CHR ''*''"
proof -
  have "hex_digit n \<noteq> x" if "(of_char x :: nat) \<in> {42, 47, 58, 64}" for x
    using that hex_digit_code[OF assms] assms by (auto split: if_splits)
  from this[of "CHR ''*''"] this[of "CHR ''/''"] this[of "CHR '':''"] this[of "CHR ''@''"]
  show ?thesis by (simp add: plain_chars_def eq_commute)
qed

lemma of_char_bounds: "(of_char c :: nat) div 16 < 16" "(of_char c :: nat) mod 16 < 16"
  using nat_of_char_less_256[of c] by (simp_all add: less_mult_imp_div_less)

lemma unreserved_plain:
  "query_unreserved c \<Longrightarrow> c \<noteq> CHR ''%'' \<and> c \<noteq> CHR '' '' \<and> plain_chars [c] \<and> c \<noteq> CHR ''*''"
  by (auto simp: query_unreserved_def plain_chars_def Let_def)

lemma plain_chars_append: "plain_chars (s @ s') \<longleftrightarrow> plain_chars s \<and> plain_chars s'"
  by (auto simp: plain_chars_def)

lemma plain_chars_Cons: "plain_chars (c # s) \<longleftrightarrow> plain_chars [c] \<and> plain_chars s"
  using plain_chars_append[of "[c]" s] by simp

lemma QueryEscape_plain: "plain_chars (QueryEscape s) \<and> CHR ''*'' \<notin> set (QueryEscape s)"
proof (induction s)
  case (Cons c s)
  show ?case
    using Cons unreserved_plain[of c] hex_digit_plain[OF of_char_bounds(1)[of c]] hex_digit_plain[OF of_char_bounds(2)[of c]]
    by (auto simp: QueryEscape_Cons plain_chars_def)
qed (simp add: plain_chars_def)

lemma userinfo_Unescape_QueryEscape:
  "userinfo_Unescape (QueryEscape s) = Some (map (\<lambda>c. if c = CHR '' '' then CHR ''+'' else c) s)"
proof (induction s)
  case (Cons c s)
  have "char_of (16 * ((of_char c :: nat) div 16) + of_char c mod 16) = c" by (simp only: mult_div_mod_eq char_of_char)
  with Cons unreserved_plain[of c] unreserved_plain[of "CHR '' ''"] show ?case
    by (auto simp: QueryEscape_Cons unhex_hex_digit of_char_bounds)
qed simp

lemma before_last_append: "c \<notin> set s' \<Longrightarrow> before_last c (s @ c # s') = s"
  by (induction s) simp_all

lemma map_space_id: "map (\<lambda>c. if c = CHR '' '' then CHR ''+'' else c) s = s \<longleftrightarrow> CHR '' '' \<notin> set s"
  by (induction s) auto

lemma url_password_Url:
  assumes "Url c dbName info = Ok u" and "Host c info = Ok h" and "plain_chars (cfg_User c)" and "plain_chars h"
  shows "url_password u = Some (map (\<lambda>x. if x = CHR '' '' then CHR ''+'' else x) (cfg_Password c))"
proof -
  let ?pw = "QueryEscape (cfg_Password c)" and ?port = "CHR '':'' # fmt_d (cfg_Port c)"
  define tail where "tail = (if dbName = [] then cfg_Name c else dbName) @ ''?sslmode=disable''"
  have u: "u = ''postgresql://'' @ (cfg_User c @ '':'' @ ?pw @ ''@'' @ h @ ?port) @ ''/'' @ tail"
    using assms(1,2) by (simp add: Url_def Let_def tail_def)
  have port: "CHR ''/'' \<notin> set ?port \<and> CHR ''@'' \<notin> set ?port"
    using fmt_d_digits[of "cfg_Port c"] by (auto simp: is_digit_def)
  have auth: "takeWhile (\<lambda>x. x \<noteq> CHR ''/'') (trim_prefix u ''postgresql://'') = cfg_User c @ '':'' @ ?pw @ ''@'' @ h @ ?port"
    unfolding u trim_prefix_append
    using assms(3,4) QueryEscape_plain[of "cfg_Password c"] port
    by (subst takeWhile_append2) (auto simp: plain_chars_def)
  have userinfo: "before_last (CHR ''@'') (cfg_User c @ '':'' @ ?pw @ ''@'' @ h @ ?port) = cfg_User c @ '':'' @ ?pw"
    using before_last_append[of "CHR ''@''" "h @ ?port" "cfg_User c @ '':'' @ ?pw"] assms(4) port by (simp add: plain_chars_def)
  have "dropWhile (\<lambda>x. x \<noteq> CHR '':'') (cfg_User c @ '':'' @ ?pw) = '':'' @ ?pw"
    using assms(3) by (subst dropWhile_append2) (auto simp: plain_chars_def)
  then have "drop 1 (dropWhile (\<lambda>x. x \<noteq> CHR '':'') (cfg_User c @ '':'' @ ?pw)) = ?pw" by simp
  then show ?thesis unfolding url_password_def Let_def auth userinfo by (simp add: userinfo_Unescape_QueryEscape)
qed

text \<open>
  C31. The password in the connection string is the configured one exactly when it has no space: the
  string is built with the escaping of a query, which writes a space as a plus sign, and read with the
  unescaping of the user information of a URL, where a plus sign is itself. With any other byte in the
  password the two agree. A password with a space is never accepted.
\<close>

theorem password_read_back:
  assumes "Url c dbName info = Ok u" and "Host c info = Ok h" and "plain_chars (cfg_User c)" and "plain_chars h"
  shows "url_password u = Some (cfg_Password c) \<longleftrightarrow> CHR '' '' \<notin> set (cfg_Password c)"
  using url_password_Url[OF assms] map_space_id by simp

definition spaced_cfg :: db_config where
  "spaced_cfg = sample_db_cfg\<lparr>cfg_User := ''postgres'', cfg_Name := ''postgres'', cfg_Port := 5432,
     cfg_InstanceName := ''pg-15'', cfg_Password := ''a b'', cfg_tmpl := Some (\<lambda>n. Inr n)\<rparr>"

lemma spaced_cfg_Host: "Host spaced_cfg None = Ok ''pg-15''" "plain_chars (cfg_User spaced_cfg)" "plain_chars ''pg-15''"
  by (simp_all add: Host_def spaced_cfg_def plain_chars_def sample_db_cfg_def)

theorem password_read_back_witness:
  "\<exists>u. Url spaced_cfg [] None = Ok u \<and> url_password u \<noteq> Some ''a b''"
proof -
  obtain u where u: "Url spaced_cfg [] None = Ok u" using spaced_cfg_Host(1) by (simp add: Url_def)
  from password_read_back[OF u spaced_cfg_Host] u show ?thesis by (simp add: spaced_cfg_def)
qed

section \<open>The logged error\<close>

lemma ReplaceAll_prefix:
  "CHR '':'' \<notin> set x \<Longrightarrow> prefix x (ReplaceAll s old (CHR '':'' # new)) \<Longrightarrow> prefix x s"
proof (induction s arbitrary: x)
  case (Cons c s)
  then show ?case by (cases x) (auto split: if_splits)
qed simp

lemma ReplaceAll_masks:
  assumes "CHR '':'' \<notin> set e" and "CHR ''*'' \<notin> set e"
  defines "old \<equiv> CHR '':'' # e @ ''@''"
  shows "\<not> sublist old (ReplaceAll s old '':******@'')"
proof (induction s rule: length_induct)
  case (1 s)
  have no_start: "\<not> prefix old ('':******@'' @ r)" for r
    using assms(2) by (cases e) (auto simp: old_def)
  show ?case
  proof (cases s)
    case (Cons c r)
    have shorter: "\<not> sublist old (ReplaceAll (drop k r) old '':******@'')" for k using 1 Cons by simp
    have no_prefix: "\<not> prefix old (c # ReplaceAll r old '':******@'')" if "\<not> has_prefix s old"
    proof
      assume "prefix old (c # ReplaceAll r old '':******@'')"
      then have both: "CHR '':'' = c \<and> prefix (e @ ''@'') (ReplaceAll r old '':******@'')"
        unfolding old_def Cons_prefix_Cons .
      note c = both[THEN conjunct1, symmetric]
      have "prefix (e @ ''@'') r" by (rule ReplaceAll_prefix[OF _ both[THEN conjunct2]]) (use assms(1) in simp)
      with that c Cons show False by (auto simp: old_def has_prefix_iff prefix_def)
    qed
    have not_empty: "old \<noteq> []" by (simp add: old_def)
    show ?thesis
    proof (cases "has_prefix s old")
      case True
      let ?rest = "ReplaceAll (drop (length old - 1) r) old '':******@''"
      have "\<not> prefix old (x # xs)" if "x \<noteq> CHR '':''" for x xs using that by (simp add: old_def)
      then have "\<not> sublist old ('':******@'' @ ?rest)"
        using shorter[of "length old - 1"] no_start[of ?rest] by (simp add: sublist_Cons_right)
      then show ?thesis using True Cons not_empty by simp
    next
      case False
      then show ?thesis using shorter[of 0] no_prefix Cons by (simp add: sublist_Cons_right)
    qed
  qed (simp add: old_def)
qed

text \<open>
  Whatever error the library returns for the connection string, the detail that is logged does not
  contain the password as the connection string writes it.
\<close>

theorem logged_detail_hides_password:
  "\<not> sublist ('':'' @ QueryEscape (cfg_Password c) @ ''@'') (masked_detail c detail)"
  using ReplaceAll_masks[of "QueryEscape (cfg_Password c)" detail] QueryEscape_plain[of "cfg_Password c"]
  by (simp add: masked_detail_def plain_chars_def)

end
