(* ===== verification/Log_Levels.thy ===== *)
theory Log_Levels
  imports PgPrelude
begin

text \<open>
  Where a log event goes (\<open>pkg/utils/logger/default_logger.go\<close>): the two level writers, the hook that
  names events without a level, and the choice of the global level. Levels are the numbers of the
  logging library; it drops an event below the global level, runs the hooks on the others and
  hands each to every writer.
\<close>

type_synonym level = int

abbreviation InfoLevel :: level where "InfoLevel \<equiv> 1"
abbreviation Warn_Level :: level where "Warn_Level \<equiv> 2"
abbreviation NoLevel :: level where "NoLevel \<equiv> 6"
abbreviation Disabled :: level where "Disabled \<equiv> 7"

text \<open>A writer is what was written to it; the result is the number of bytes it claims.\<close>

definition Stdout_WriteLevel :: "level \<Rightarrow> string \<Rightarrow> string list \<Rightarrow> nat \<times> string list" where
  "Stdout_WriteLevel level p w =
     (if level \<le> InfoLevel \<or> level = NoLevel then (length p, w @ [p]) else (length p, w))"

definition Stderr_WriteLevel :: "level \<Rightarrow> string \<Rightarrow> string list \<Rightarrow> nat \<times> string list" where
  "Stderr_WriteLevel level p w =
     (if level \<ge> Warn_Level \<and> level < NoLevel then (length p, w @ [p]) else (length p, w))"

text \<open>An event has fields before it is a text; the hook adds one.\<close>

definition NoLevelAsNotice_Run :: "(string \<times> string) list \<Rightarrow> level \<Rightarrow> (string \<times> string) list" where
  "NoLevelAsNotice_Run fields level = (if level = NoLevel then fields @ [(''level'', ''notice'')] else fields)"

text \<open>\<open>zerolog.ParseLevel\<close> is a parameter. The result is the global level.\<close>

definition InitLogger :: "(string \<Rightarrow> go_error + level) \<Rightarrow> string \<Rightarrow> level" where
  "InitLogger ParseLevel l = (case ParseLevel l of Inr level \<Rightarrow> level | Inl err \<Rightarrow> Warn_Level)"

text \<open>One event with the global level, stdout and stderr; \<open>render\<close> makes its text.\<close>

definition log_event ::
    "((string \<times> string) list \<Rightarrow> string) \<Rightarrow> level \<Rightarrow> level \<Rightarrow> (string \<times> string) list \<Rightarrow> string list \<times> string list \<Rightarrow> string list \<times> string list" where
  "log_event render global level fields ws =
     (if level < global \<or> global = Disabled then ws
      else (let p = render (NoLevelAsNotice_Run fields level)
            in (snd (Stdout_WriteLevel level p (fst ws)), snd (Stderr_WriteLevel level p (snd ws)))))"

text \<open>
  An event is written once, to one of the two streams: to stderr when it is a warning or worse, to
  stdout otherwise. A notice passes every global level but the one that disables all.
\<close>

theorem event_written_once:
  assumes "global \<le> level" and "level < Disabled"
  shows "log_event render global level fields (out, err) =
    (if level \<in> {Warn_Level, 3, 4, 5} then (out, err @ [render fields])
     else (out @ [render (NoLevelAsNotice_Run fields level)], err))"
  using assms by (auto simp: log_event_def Stdout_WriteLevel_def Stderr_WriteLevel_def NoLevelAsNotice_Run_def)

theorem notice_always_written:
  assumes "global < Disabled"
  shows "log_event render global NoLevel fields (out, err) = (out @ [render (fields @ [(''level'', ''notice'')])], err)"
  using assms by (auto simp: log_event_def Stdout_WriteLevel_def Stderr_WriteLevel_def NoLevelAsNotice_Run_def)

end
