(* ===== verification/World_Invariant.thy ===== *)
theory World_Invariant
  imports Db_Api
begin

text \<open>
  What the statements of the agent keep of its world, as locales. \<open>insert_invariant\<close> asks that what an
  \<open>INSERT\<close> does keeps the invariant, \<open>world_invariant\<close> also that an update does, where the update of a
  record goes with its report to the server, \<open>request_invariant\<close> that the updates of a request do too, and
  \<open>tx_invariant\<close> that a rollback does. The lemmas about
  the operations of \<open>internal/db/db_api.go\<close> are proved in them once; the theories \<open>Task_Dependency\<close>,
  \<open>Db_Tasks\<close> and \<open>Agent_Requests\<close> add those about tasks, actions and requests. They are interpreted on
  the rows of a record, on the sequence of ids, on the reports made and on the table invariant
  (\<open>tables\<close>), in theory \<open>Reports\<close> on the last reports being those of the records, and in \<open>Recovery\<close> on the
  last jobs of the records and the tasks of the table.
\<close>

section \<open>Changes of the world\<close>

text \<open>Calls and commands do not touch the tables.\<close>

definition same_tables :: "agent_world \<Rightarrow> agent_world \<Rightarrow> bool" where
  "same_tables w w' \<longleftrightarrow> w_dbs w' = w_dbs w \<and> w_tasks w' = w_tasks w \<and> w_next_id w' = w_next_id w \<and>
     w_notified w' = w_notified w"

lemma same_tables_run_cmd [simp]: "same_tables w (snd (run_cmd E c w))"
  by (simp add: same_tables_def run_cmd_def ext_def)

text \<open>A row that differs only in what \<open>UpdateDbStatus\<close> writes.\<close>

definition same_db :: "db_row \<Rightarrow> db_row \<Rightarrow> bool" where
  "same_db d0 d \<longleftrightarrow> db_ID d = db_ID d0 \<and> db_Name d = db_Name d0 \<and> db_Owner d = db_Owner d0 \<and>
     db_CreatedAt d = db_CreatedAt d0"

lemma same_db_trans: "same_db a b \<Longrightarrow> same_db b c \<Longrightarrow> same_db a c"
  by (simp add: same_db_def)

lemma same_dbI:
  "db_ID d = db_ID d0 \<Longrightarrow> db_Name d = db_Name d0 \<Longrightarrow> db_Owner d = db_Owner d0 \<Longrightarrow> db_CreatedAt d = db_CreatedAt d0 \<Longrightarrow> same_db d0 d"
  by (simp add: same_db_def)

text \<open>A record that differs only in stage, status, error and version.\<close>

definition same_job :: "db_row \<Rightarrow> db_row \<Rightarrow> bool" where
  "same_job d0 d \<longleftrightarrow> same_db d0 d \<and> db_LastJobID d = db_LastJobID d0 \<and> db_MigrateFrom d = db_MigrateFrom d0 \<and>
     db_MigrateTo d = db_MigrateTo d0 \<and> db_ExpiredAt d = db_ExpiredAt d0"

lemma same_job_db: "same_job d0 d \<Longrightarrow> same_db d0 d"
  by (simp add: same_job_def)

text \<open>The record is of a row of the table.\<close>

definition known :: "db_row list \<Rightarrow> db_row \<Rightarrow> bool" where
  "known dbs d \<longleftrightarrow> (\<exists>r\<in>set dbs. same_db r d)"

lemma known_row: "d \<in> set dbs \<Longrightarrow> known dbs d"
  by (auto simp: known_def same_db_def)

lemma known_same: "known dbs d \<Longrightarrow> same_db d d' \<Longrightarrow> known dbs d'"
  by (auto simp: known_def intro: same_db_trans)

lemma known_put_db:
  assumes "known dbs d0"
  shows "known (put_db d now dbs) d0"
proof -
  obtain r where r: "r \<in> set dbs" "same_db r d0" using assms by (auto simp: known_def)
  then have "(if db_ID r = db_ID d \<and> db_UpdatedAt r = db_UpdatedAt d then write_db d now r else r) \<in> set (put_db d now dbs)"
    unfolding put_db_def upd_where_def by force
  moreover have "same_db (write_db d now r) d0" using r(2) by (simp add: same_db_def write_db_def)
  ultimately show ?thesis using r(2) by (auto simp: known_def split: if_splits)
qed

lemma UpdateDbStatus_same: "same_job d (fst (fst (UpdateDbStatus E q d w)))"
  using UpdateDbStatus_cases[of E q d w] by (auto simp: same_job_def same_db_def)

lemma UpdateTaskStatus_dbs [simp]: "w_dbs (snd (UpdateTaskStatus E q t w)) = w_dbs w"
  by (auto simp: UpdateTaskStatus_def api_Query_def q_SetDbTaskStatus_eq ext_def Let_def one_row_def
      split: option.splits)

lemma GetDbByName_mem: "GetDbByName E q n w = (Inr (Some d), w1) \<Longrightarrow> d \<in> set (w_dbs w1)"
  by (auto simp: GetDbByName_def api_Query_def q_GetDbByName_def query1_def ext_def one_row_def
      dest!: sel_by_mem split: option.splits if_splits)

lemma GetDb_mem: "GetDb E q i w = (Inr (Some d), w1) \<Longrightarrow> d \<in> set (w_dbs w1)"
  by (auto simp: GetDb_def api_Query_def q_GetDbByID_def query1_def ext_def one_row_def
      dest!: sel_by_mem split: option.splits if_splits)

section \<open>Invariants of the statements\<close>

text \<open>What an \<open>INSERT\<close> or a \<open>SELECT\<close> may do.\<close>

locale insert_invariant =
  fixes inv :: "agent_world \<Rightarrow> bool"
  assumes inv_same: "same_tables w w' \<Longrightarrow> inv w \<Longrightarrow> inv w'"
    and inv_add_task: "inv w \<Longrightarrow> tk_ID r \<notin> tk_ID ` set (w_tasks w) \<Longrightarrow> td_Password (tk_Data r) = [] \<Longrightarrow>
      inv (w\<lparr>w_tasks := w_tasks w @ [r]\<rparr>)"
    and inv_add_db: "inv w \<Longrightarrow> db_Name d \<notin> db_Name ` set (w_dbs w) \<Longrightarrow> db_ID d = w_next_id w \<Longrightarrow>
      db_Stage d = DbStage_None \<Longrightarrow> db_LastJobID d = uuid_Nil \<Longrightarrow> inv (w\<lparr>w_next_id := w_next_id w + 1, w_dbs := w_dbs w @ [d]\<rparr>)"
    and inv_next_id: "inv w \<Longrightarrow> inv (w\<lparr>w_next_id := w_next_id w + 1\<rparr>)"
begin

lemma inv_call: "inv w \<Longrightarrow> inv (w\<lparr>w_calls := n\<rparr>)"
  by (rule inv_same[of w]) (simp_all add: same_tables_def)

lemma inv_ext: "inv w \<Longrightarrow> inv (snd (ext E w))"
  by (simp add: ext_def inv_call)

lemma inv_run_cmd: "inv w \<Longrightarrow> inv (snd (run_cmd E c w))"
  by (rule inv_same[of w]) simp_all

lemma inv_query1:
  assumes "inv w" and "\<And>w1. inv w1 \<Longrightarrow> inv (snd (f w1))"
  shows "inv (snd (query1 E w f))"
  using assms inv_call[OF assms(1)] by (auto simp: query1_def ext_def split: option.splits)

lemma inv_api_Query:
  assumes "inv w" and "\<And>w1. inv w1 \<Longrightarrow> w_dbs w1 = w_dbs w \<Longrightarrow> inv (snd (f w1))"
  shows "inv (snd (api_Query E f g w))"
  using assms inv_call[OF assms(1)] by (auto simp: api_Query_def ext_def split: option.splits)

lemma inv_q_readers:
  assumes "inv w"
  shows "inv (snd (q_GetDbByName E n w))" and "inv (snd (q_GetDbByID E i w))" and "inv (snd (q_ListDbs E w))"
    and "inv (snd (q_ListDbTasksByJobID E j w))" and "inv (snd (q_IsUserExists E o' w))"
  unfolding q_GetDbByName_def q_GetDbByID_def q_ListDbs_def q_ListDbTasksByJobID_def q_IsUserExists_def
  by (rule inv_query1[OF assms]; simp)+

lemma inv_q_CreateDbTask: "inv w \<Longrightarrow> inv (snd (q_CreateDbTask E p w))"
  unfolding q_CreateDbTask_def by (erule inv_query1) (auto simp: Let_def stored_data_def intro!: inv_add_task)

lemma inv_q_CreateDb: "inv w \<Longrightarrow> inv (snd (q_CreateDb E n o' w))"
  unfolding q_CreateDb_def by (erule inv_query1) (use inv_next_id inv_add_db in \<open>auto simp: Let_def\<close>)

lemma inv_api_ops:
  assumes "inv w"
  shows "inv (snd (GetDb E qnil i w))" and "inv (snd (GetDbByName E qnil n w))" and "inv (snd (CreateDb E qnil n o' w))"
    and "inv (snd (CreateDbTask E qnil p w))" and "inv (snd (ListDbs E qnil w))"
  using assms by (auto simp: GetDb_def GetDbByName_def CreateDb_def CreateDbTask_def ListDbs_def Let_def
      intro!: inv_api_Query inv_q_readers inv_q_CreateDb inv_q_CreateDbTask)

lemma inv_tx_Commit: "inv w \<Longrightarrow> inv (snd (tx_Commit E w))"
  using inv_call[of w] by (auto simp: tx_Commit_def ext_def split: option.splits)

end

text \<open>
  What every statement may do: an update of a record goes with its report. \<open>ok\<close> says which records the
  caller may write: those it has read, with another stage, status, error or version.
\<close>

locale world_invariant = insert_invariant inv for inv :: "agent_world \<Rightarrow> bool" +
  fixes E :: agent_env and ok :: "db_row list \<Rightarrow> db_row \<Rightarrow> bool"
  assumes ok_row: "inv w \<Longrightarrow> d \<in> set (w_dbs w) \<Longrightarrow> ok (w_dbs w) d"
    and ok_same: "ok dbs d \<Longrightarrow> same_job d d' \<Longrightarrow> ok dbs d'"
    and ok_put_db: "ok dbs d \<Longrightarrow> ok (put_db d now dbs) d"
    and inv_report: "inv w \<Longrightarrow> d \<in> set (w_dbs w) \<Longrightarrow> inv (w\<lparr>w_notified := w_notified w @ [proto_of E d]\<rparr>)"
    and inv_put_task: "inv w \<Longrightarrow> inv (w\<lparr>w_tasks := put_task t now (w_tasks w)\<rparr>)"
    and inv_put_db: "inv w \<Longrightarrow> ok (w_dbs w) d \<Longrightarrow> db_current w d \<Longrightarrow>
      inv (w\<lparr>w_dbs := put_db d now (w_dbs w), w_notified := w_notified w @ [proto_of E (d\<lparr>db_UpdatedAt := now\<rparr>)]\<rparr>)"
begin

lemma inv_Notify: "inv w \<Longrightarrow> d \<in> set (w_dbs w) \<Longrightarrow> inv (NotifyDbStatusChanged E d w)"
  by (simp add: NotifyDbStatusChanged_eq inv_report)

lemma inv_q_SetDbTaskStatus:
  assumes "inv w"
  shows "inv (snd (q_SetDbTaskStatus E (tk_ID t) (tk_Status t) (td_ErrReason (tk_Data (t :: db_task_row))) (tk_UpdatedAt t) w))"
  using inv_put_task[OF inv_call[OF assms], of t] inv_call[OF assms] by (auto simp: q_SetDbTaskStatus_eq split: option.splits)

lemma inv_UpdateTaskStatus: "inv w \<Longrightarrow> inv (snd (UpdateTaskStatus E qnil t w))"
  by (auto simp: UpdateTaskStatus_def Let_def intro!: inv_api_Query inv_q_SetDbTaskStatus)

text \<open>No other statement comes between the update of a record and its report.\<close>

lemma inv_update_and_report:
  assumes "inv w" and "ok (w_dbs w) d"
  shows "inv (snd (case q_SetDbStatus E d w of (Inl e, w2) \<Rightarrow> ((d, Some e), w2)
      | (Inr r, w2) \<Rightarrow> (let d' = d\<lparr>db_UpdatedAt := db_UpdatedAt r\<rparr> in ((d', None), NotifyDbStatusChanged E d' w2))))"
proof (cases "env_fault E (w_calls w) = None \<and> db_current w d")
  case True
  let ?w = "w\<lparr>w_calls := Suc (w_calls w)\<rparr>"
  obtain r where r: "find (\<lambda>r. db_ID r = db_ID d \<and> db_UpdatedAt r = db_UpdatedAt d) (w_dbs w) = Some r"
    using True by (auto simp: db_current_def)
  have "ok (w_dbs ?w) d" "db_current ?w d" using assms(2) True by (simp_all add: db_current_def)
  from inv_put_db[OF inv_call[OF assms(1)] this, of "env_now E (w_calls w)"] True r show ?thesis
    by (simp add: q_SetDbStatus_eq one_row_def NotifyDbStatusChanged_eq Let_def)
next
  case False
  then have "\<exists>e. q_SetDbStatus E d w = (Inl e, w\<lparr>w_calls := Suc (w_calls w)\<rparr>)"
    using put_db_stale[of w d] by (auto simp: q_SetDbStatus_eq one_row_def db_current_def split: option.splits)
  then show ?thesis using inv_call[OF assms(1)] by auto
qed

lemma inv_UpdateDbStatus: "inv w \<Longrightarrow> ok (w_dbs w) d \<Longrightarrow> inv (snd (UpdateDbStatus E qnil d w))"
  unfolding UpdateDbStatus_def Let_def[of "\<lambda>w1. case q_SetDbStatus E d w1 of _ \<Rightarrow> _"]
  by (auto intro!: inv_api_Query inv_update_and_report)

lemma ok_UpdateDbStatus:
  assumes "ok (w_dbs w) d"
  shows "ok (w_dbs (snd (UpdateDbStatus E q d w))) (fst (fst (UpdateDbStatus E q d w)))"
proof -
  have "ok (w_dbs (snd (UpdateDbStatus E q d w))) d"
    using UpdateDbStatus_cases[of E q d w] ok_put_db[OF assms] assms by auto
  then show ?thesis using UpdateDbStatus_same by (rule ok_same)
qed

end

section \<open>Transactions\<close>

text \<open>A request may also write the job, the target and the expiry of a record it has read.\<close>

locale request_invariant = world_invariant +
  assumes ok_request: "ok dbs d \<Longrightarrow> same_db d d' \<Longrightarrow> ok dbs d'"

text \<open>An invariant that survives the rollback of what a transaction did.\<close>

locale tx_invariant = request_invariant +
  assumes inv_rollback: "inv w \<Longrightarrow> inv w' \<Longrightarrow> w_next_id w \<le> w_next_id w' \<Longrightarrow> inv (w'\<lparr>w_dbs := w_dbs w, w_tasks := w_tasks w\<rparr>)"
begin

lemma inv_QueryWithRollback:
  assumes "inv w" and f: "\<And>w1. inv w1 \<Longrightarrow> inv (snd (snd (f w1)))" and mono: "\<And>w1. w_next_id w1 \<le> w_next_id (snd (snd (f w1)))"
  shows "inv (snd (api_QueryWithRollback E f w))"
proof -
  define w2 where "w2 = w\<lparr>w_calls := Suc (Suc (w_calls w))\<rparr>"
  obtain c r w3 where f2: "f w2 = (c, r, w3)" by (cases "f w2")
  have "inv w2" using inv_call[OF assms(1)] by (simp add: w2_def)
  then have "inv w3" "inv (w3\<lparr>w_dbs := w_dbs w2, w_tasks := w_tasks w2\<rparr>)"
    using f[of w2] mono[of w2] inv_rollback[of w2 w3] f2 by simp_all
  then show ?thesis using inv_call[OF assms(1)] f2 by (auto simp: api_QueryWithRollback_def ext_def w2_def split: option.splits)
qed

end

section \<open>Rows stay, sequence and reports grow\<close>

interpretation rows: world_invariant "\<lambda>w. known (w_dbs w) d" E known for E d
  by unfold_locales (auto simp: same_tables_def known_row known_put_db intro: known_same same_job_db, auto simp: known_def)

interpretation growing: request_invariant "\<lambda>w. n \<le> w_next_id w" E "\<lambda>_ _. True" for E n
  by unfold_locales (auto simp: same_tables_def)

interpretation silent: insert_invariant "\<lambda>w. w_notified w = ms" for ms
  by unfold_locales (auto simp: same_tables_def)

section \<open>The table invariant\<close>

interpretation tables: tx_invariant wf_world E "\<lambda>_ _. True" for E
  by unfold_locales (auto simp: same_tables_def wf_world_def wf_tables_def dest!: set_put_task set_put_db)

end
