(* ===== verification/Task_Dependency.thy ===== *)
theory Task_Dependency
  imports World_Invariant
begin

text \<open>
  Tasks and their dependencies: \<open>BaseTaskDependency\<close> (\<open>internal/job/task.go\<close>) and the task object
  \<open>DbTask\<close> that embeds it (\<open>internal/handler/db_task/db_task.go\<close>). The Go interface \<open>TaskStatus\<close> is
  the locale \<open>task_status\<close>; \<open>DbTask\<close> provides it. The lemmas show when a task becomes ready: at the
  one moment its last dependency is done, or when a dependency failed, and never once it is done.
\<close>

section \<open>BaseTaskDependency\<close>

text \<open>
  The field \<open>task\<close>, a \<open>TaskStatus\<close>, is asked only whether it is done: each method takes that answer
  as its first argument. Every method holds \<open>liveDependsLock\<close>, so each is one step.
\<close>

record dependency =
  liveDependsOn :: "uuid list"
  dep_cancelling :: bool
  dep_cancelBy :: uuid

definition NewBaseTaskDependency :: "uuid list \<Rightarrow> dependency" where
  "NewBaseTaskDependency dependsOn =
     \<lparr>liveDependsOn = dependsOn, dep_cancelling = False, dep_cancelBy = uuid_Nil\<rparr>"

text \<open>Removes the first occurrence; the flag says whether there was one.\<close>

fun removeDependsOn :: "uuid \<Rightarrow> uuid list \<Rightarrow> bool \<times> uuid list" where
  "removeDependsOn taskId [] = (False, [])"
| "removeDependsOn taskId (u # us) =
     (if u = taskId then (True, us)
      else (case removeDependsOn taskId us of (b, vs) \<Rightarrow> (b, u # vs)))"

definition DependsDone :: "bool \<Rightarrow> uuid \<Rightarrow> dependency \<Rightarrow> bool \<times> dependency" where
  "DependsDone done taskId d =
     (if done then (False, d)
      else (case removeDependsOn taskId (liveDependsOn d) of
              (True, us) \<Rightarrow> (us = [], d\<lparr>liveDependsOn := us\<rparr>)
            | (False, us) \<Rightarrow> (False, d)))"

definition DependsFailed :: "bool \<Rightarrow> uuid \<Rightarrow> dependency \<Rightarrow> bool \<times> dependency" where
  "DependsFailed done taskId d =
     (if done then (False, d)
      else (case removeDependsOn taskId (liveDependsOn d) of
              (True, us) \<Rightarrow>
                (True, d\<lparr>liveDependsOn := us, dep_cancelling := True, dep_cancelBy := taskId\<rparr>)
            | (False, us) \<Rightarrow> (False, d)))"

definition IsReadyToRun :: "bool \<Rightarrow> dependency \<Rightarrow> bool" where
  "IsReadyToRun done d = (if done then False else liveDependsOn d = [] \<or> dep_cancelling d)"

definition IsCancelling :: "bool \<Rightarrow> dependency \<Rightarrow> bool" where
  "IsCancelling done d = (\<not> done \<and> dep_cancelling d)"

definition CancelledBy :: "dependency \<Rightarrow> uuid" where
  "CancelledBy d = dep_cancelBy d"

lemma removeDependsOn_eq: "removeDependsOn u us = (u \<in> set us, remove1 u us)"
  by (induction us) auto

lemmas dep_defs =
  NewBaseTaskDependency_def DependsDone_def DependsFailed_def IsReadyToRun_def IsCancelling_def
  CancelledBy_def removeDependsOn_eq

lemma DependsDone_eq:
  "DependsDone done u d =
     (if done \<or> u \<notin> set (liveDependsOn d) then (False, d)
      else (remove1 u (liveDependsOn d) = [], d\<lparr>liveDependsOn := remove1 u (liveDependsOn d)\<rparr>))"
  by (auto simp: dep_defs)

lemma DependsFailed_eq:
  "DependsFailed done u d =
     (if done \<or> u \<notin> set (liveDependsOn d) then (False, d)
      else (True, d\<lparr>liveDependsOn := remove1 u (liveDependsOn d),
                    dep_cancelling := True, dep_cancelBy := u\<rparr>))"
  by (auto simp: dep_defs)

lemma DependsDone_ready:
  "fst (DependsDone done u d) \<Longrightarrow> IsReadyToRun done (snd (DependsDone done u d))"
  by (auto simp: DependsDone_eq IsReadyToRun_def split: if_splits)

lemma DependsFailed_ready:
  "fst (DependsFailed done u d) \<Longrightarrow>
     IsReadyToRun done (snd (DependsFailed done u d)) \<and> IsCancelling done (snd (DependsFailed done u d))"
  by (auto simp: DependsFailed_eq IsReadyToRun_def IsCancelling_def split: if_splits)

section \<open>Which completion makes a task ready\<close>

text \<open>A pending task hears of the completion of the tasks \<open>us\<close>, one after the other.\<close>

fun DependsDone_all :: "uuid list \<Rightarrow> dependency \<Rightarrow> bool list \<times> dependency" where
  "DependsDone_all [] d = ([], d)"
| "DependsDone_all (u # us) d =
     (case DependsDone False u d of (b, d') \<Rightarrow>
        case DependsDone_all us d' of (bs, d'') \<Rightarrow> (b # bs, d''))"

lemma DependsDone_all_Cons:
  "DependsDone_all (u # us) d =
     (fst (DependsDone False u d) # fst (DependsDone_all us (snd (DependsDone False u d))),
      snd (DependsDone_all us (snd (DependsDone False u d))))"
  by (simp split: prod.splits)

declare DependsDone_all.simps(2) [simp del]

lemma live_DependsDone [simp]:
  "liveDependsOn (snd (DependsDone False u d)) = remove1 u (liveDependsOn d)"
  by (simp add: DependsDone_eq remove1_idem)

lemma fst_DependsDone:
  "distinct (liveDependsOn d) \<Longrightarrow>
     fst (DependsDone False u d) \<longleftrightarrow> u \<in> set (liveDependsOn d) \<and> set (liveDependsOn d) \<subseteq> {u}"
  by (simp add: DependsDone_eq) (metis Diff_eq_empty_iff set_empty set_remove1_eq)

lemma length_DependsDone_all [simp]: "length (fst (DependsDone_all us d)) = length us"
  by (induction us arbitrary: d) (simp_all add: DependsDone_all_Cons)

lemma DependsDone_all_live:
  "distinct (liveDependsOn d) \<Longrightarrow>
     set (liveDependsOn (snd (DependsDone_all us d))) = set (liveDependsOn d) - set us"
  by (induction us arbitrary: d) (auto simp: DependsDone_all_Cons)

lemma DependsDone_all_nth:
  assumes "distinct (liveDependsOn d)" and "distinct us" and "i < length us"
  shows "fst (DependsDone_all us d) ! i \<longleftrightarrow>
           us ! i \<in> set (liveDependsOn d) \<and> set (liveDependsOn d) \<subseteq> set (take (Suc i) us)"
  using assms
proof (induction us arbitrary: d i)
  case (Cons u us)
  show ?case
  proof (cases i)
    case 0
    with Cons.prems(1) show ?thesis by (simp add: DependsDone_all_Cons fst_DependsDone)
  next
    case (Suc j)
    have "fst (DependsDone_all us (snd (DependsDone False u d))) ! j \<longleftrightarrow>
        us ! j \<in> set (remove1 u (liveDependsOn d)) \<and>
        set (remove1 u (liveDependsOn d)) \<subseteq> set (take (Suc j) us)"
      using Cons.IH [of "snd (DependsDone False u d)" j] Cons.prems Suc by simp
    moreover have "us ! j \<noteq> u" using Cons.prems Suc by auto
    ultimately show ?thesis
      using Cons.prems(1) by (auto simp: DependsDone_all_Cons Suc)
  qed
qed simp

section \<open>The interface TaskStatus\<close>

locale task_status =
  fixes is_pending is_running is_failed is_done :: "'t \<Rightarrow> bool"
  assumes failed_done: "is_failed t \<Longrightarrow> is_done t"
    and pending_not_done: "is_pending t \<Longrightarrow> \<not> is_done t"
    and running_not_done: "is_running t \<Longrightarrow> \<not> is_done t"
begin

lemma failed_not_ready: "is_failed t \<Longrightarrow> \<not> IsReadyToRun (is_done t) d"
  by (simp add: failed_done IsReadyToRun_def)

lemma failed_not_cancelling: "is_failed t \<Longrightarrow> \<not> IsCancelling (is_done t) d"
  by (simp add: failed_done IsCancelling_def)

lemma done_keeps_dependency:
  "is_done t \<Longrightarrow> DependsDone (is_done t) u d = (False, d)"
  "is_done t \<Longrightarrow> DependsFailed (is_done t) u d = (False, d)"
  by (simp_all add: DependsDone_def DependsFailed_def)

lemma pending_no_deps_ready: "is_pending t \<Longrightarrow> IsReadyToRun (is_done t) (NewBaseTaskDependency [])"
  by (simp add: pending_not_done IsReadyToRun_def NewBaseTaskDependency_def)

end

section \<open>DbTask\<close>

text \<open>
  A \<open>DbTask\<close> is the row it was made from with its dependency. \<open>NewDbTask\<close> hands the slice
  \<open>Data.DependsOn\<close> to the dependency; nothing reads that field afterwards.
\<close>

record db_task =
  dt_row :: db_task_row
  dt_dep :: dependency

definition Requires :: "db_task_row \<Rightarrow> uuid list" where
  "Requires t = td_DependsOn (tk_Data t)"

definition NewDbTask :: "db_task_row \<Rightarrow> db_task" where
  "NewDbTask t = \<lparr>dt_row = t, dt_dep = NewBaseTaskDependency (Requires t)\<rparr>"

definition task_UUID :: "db_task \<Rightarrow> uuid" where
  "task_UUID t = tk_ID (dt_row t)"

definition task_JobID :: "db_task \<Rightarrow> uuid" where
  "task_JobID t = tk_JobID (dt_row t)"

definition task_GetName :: "agent_env \<Rightarrow> db_task \<Rightarrow> string" where
  "task_GetName E t = env_uuid_string E (tk_ID (dt_row t))"

definition IsPending :: "db_task \<Rightarrow> bool" where
  "IsPending t = (tk_Status (dt_row t) = DbTaskStatusPending)"

definition IsRunning :: "db_task \<Rightarrow> bool" where
  "IsRunning t = (tk_Status (dt_row t) = DbTaskStatusRunning)"

definition IsDone :: "db_task \<Rightarrow> bool" where
  "IsDone t = (case tk_Status (dt_row t) of
       DbTaskStatusCompleted \<Rightarrow> True
     | DbTaskStatusFailed \<Rightarrow> True
     | DbTaskStatusCancelled \<Rightarrow> True
     | _ \<Rightarrow> False)"

definition IsFailed :: "db_task \<Rightarrow> bool" where
  "IsFailed t = (case tk_Status (dt_row t) of
       DbTaskStatusFailed \<Rightarrow> True
     | DbTaskStatusCancelled \<Rightarrow> True
     | _ \<Rightarrow> False)"

lemmas task_defs = task_UUID_def task_JobID_def IsPending_def IsRunning_def IsDone_def IsFailed_def

text \<open>\<open>Cancel\<close> writes the cancelled status through the API; its error is dropped.\<close>

definition Cancel :: "agent_env \<Rightarrow> string \<Rightarrow> db_task \<Rightarrow> agent_world \<Rightarrow> db_task \<times> agent_world" where
  "Cancel E reason t w =
     (let r = (dt_row t)\<lparr>tk_Status := DbTaskStatusCancelled,
                         tk_Data := (tk_Data (dt_row t))\<lparr>td_ErrReason := reason\<rparr>\<rparr>
      in case UpdateTaskStatus E True r w of
           ((r', _), w') \<Rightarrow> (t\<lparr>dt_row := r'\<rparr>, w'))"

interpretation db_task: task_status IsPending IsRunning IsFailed IsDone
  by unfold_locales (auto simp: task_defs split: DbTaskStatus.splits)

lemma UpdateTaskStatus_shape:
  "\<exists>now e w'. UpdateTaskStatus E qnil t w = ((t\<lparr>tk_UpdatedAt := now\<rparr>, e), w')"
proof -
  have "\<exists>now. t = t\<lparr>tk_UpdatedAt := now\<rparr>" by (rule exI [of _ "tk_UpdatedAt t"]) simp
  then show ?thesis
    by (auto simp: UpdateTaskStatus_def api_Query_def Let_def split: prod.splits sum.splits option.splits)
qed

lemma Cancel_shape:
  "\<exists>now w'. Cancel E reason t w =
     (t\<lparr>dt_row := (dt_row t)\<lparr>tk_Status := DbTaskStatusCancelled,
        tk_Data := (tk_Data (dt_row t))\<lparr>td_ErrReason := reason\<rparr>, tk_UpdatedAt := now\<rparr>\<rparr>, w')"
proof -
  define r where "r = (dt_row t)\<lparr>tk_Status := DbTaskStatusCancelled,
    tk_Data := (tk_Data (dt_row t))\<lparr>td_ErrReason := reason\<rparr>\<rparr>"
  obtain now e w' where "UpdateTaskStatus E True r w = ((r\<lparr>tk_UpdatedAt := now\<rparr>, e), w')"
    using UpdateTaskStatus_shape by blast
  then have "Cancel E reason t w = (t\<lparr>dt_row := r\<lparr>tk_UpdatedAt := now\<rparr>\<rparr>, w')"
    by (simp add: Cancel_def r_def Let_def)
  then show ?thesis unfolding r_def by auto
qed

lemma Cancel_row:
  assumes "Cancel E reason t w = (t', w')"
  shows "tk_Status (dt_row t') = DbTaskStatusCancelled" and "tk_ID (dt_row t') = tk_ID (dt_row t)"
    and "tk_JobID (dt_row t') = tk_JobID (dt_row t)" and "dt_dep t' = dt_dep t"
    and "td_ErrReason (tk_Data (dt_row t')) = reason"
  using assms Cancel_shape [of E reason t w] by auto

lemma Cancel_done: "Cancel E reason t w = (t', w') \<Longrightarrow> IsDone t' \<and> IsFailed t'"
  by (drule Cancel_row(1)) (simp add: IsDone_def IsFailed_def)

context world_invariant begin

lemma inv_Cancel: "inv w \<Longrightarrow> inv (snd (Cancel E reason t w))"
  using inv_UpdateTaskStatus by (auto simp: Cancel_def Let_def split: prod.splits) (metis snd_conv)

end

end
