(* ===== verification/Job_Handler.thy ===== *)
theory Job_Handler
  imports Task_Dependency
begin

text \<open>
  Jobs (\<open>internal/job/job.go\<close>) and their handler (\<open>internal/job/job_handler.go\<close>). Tasks are shared:
  the job, the queue of ready tasks and the workers hold pointers to the same objects, so tasks
  live in a heap and everything else holds references. The lemmas give what each message does to
  the jobs, the heap and the ready queue on every branch.
\<close>

section \<open>Jobs\<close>

type_synonym tref = nat
type_synonym heap = "tref \<Rightarrow> db_task"

record job =
  job_Name :: string
  job_ID :: uuid
  job_Tasks :: "tref list"

definition job_GetName :: "agent_env \<Rightarrow> job \<Rightarrow> string" where
  "job_GetName E j = (if job_Name j \<noteq> [] then job_Name j else env_uuid_string E (job_ID j))"

definition job_IsFailed :: "heap \<Rightarrow> job \<Rightarrow> bool" where
  "job_IsFailed h j = list_ex (\<lambda>r. IsFailed (h r)) (job_Tasks j)"

definition job_IsDone :: "heap \<Rightarrow> job \<Rightarrow> bool" where
  "job_IsDone h j = list_all (\<lambda>r. IsDone (h r)) (job_Tasks j)"

text \<open>
  The loop of \<open>OnTaskDone\<close>: every task of the job hears of \<open>u\<close> through \<open>DependsDone\<close> or
  \<open>DependsFailed\<close>; the tasks that answered true are collected in order.
\<close>

fun depends_loop ::
    "(bool \<Rightarrow> uuid \<Rightarrow> dependency \<Rightarrow> bool \<times> dependency) \<Rightarrow> uuid \<Rightarrow> tref list \<Rightarrow> heap
      \<Rightarrow> tref list \<times> heap" where
  "depends_loop f u [] h = ([], h)"
| "depends_loop f u (r # rs) h =
     (let (ready, d) = f (IsDone (h r)) u (dt_dep (h r));
          (ts, h') = depends_loop f u rs (h(r := (h r)\<lparr>dt_dep := d\<rparr>))
      in (if ready then r # ts else ts, h'))"

definition OnTaskDone :: "heap \<Rightarrow> job \<Rightarrow> tref \<Rightarrow> tref list \<times> heap" where
  "OnTaskDone h j doneTask =
     (if IsFailed (h doneTask)
      then depends_loop DependsFailed (task_UUID (h doneTask)) (job_Tasks j) h
      else depends_loop DependsDone (task_UUID (h doneTask)) (job_Tasks j) h)"

text \<open>\<open>Init\<close> replays the tasks that are already done; the tasks this makes ready are dropped.\<close>

fun init_loop :: "job \<Rightarrow> tref list \<Rightarrow> heap \<Rightarrow> heap" where
  "init_loop j [] h = h"
| "init_loop j (r # rs) h = init_loop j rs (if IsDone (h r) then snd (OnTaskDone h j r) else h)"

definition job_Init :: "heap \<Rightarrow> job \<Rightarrow> heap" where
  "job_Init h j = init_loop j (job_Tasks j) h"

definition ReadyToRun :: "heap \<Rightarrow> job \<Rightarrow> tref list" where
  "ReadyToRun h j = filter (\<lambda>r. IsReadyToRun (IsDone (h r)) (dt_dep (h r))) (job_Tasks j)"

section \<open>JobHandler\<close>

text \<open>
  \<open>js_ready\<close> holds what was sent to the producer of ready tasks, \<open>js_world\<close> the database layer.
  The map \<open>jobs\<close> is guarded by \<open>jobsLock\<close>, so each message is one step.
\<close>

record job_state =
  js_heap :: heap
  js_jobs :: "uuid \<rightharpoonup> job"
  js_ready :: "tref list"
  js_world :: agent_world

datatype job_msg = MsgJob job | MsgTask tref | MsgOther

definition ErrUnknownMessageType :: go_error where
  "ErrUnknownMessageType = ErrNew ''unknown message type''"

definition ErrJobAlreadyExist :: go_error where
  "ErrJobAlreadyExist = ErrNew ''job is already exist''"

definition ErrJobNotFound :: go_error where
  "ErrJobNotFound = ErrNew ''job is not found''"

definition ErrNotSupportedTaskStatus :: go_error where
  "ErrNotSupportedTaskStatus = ErrNew ''not supported task status''"

definition JobHandler_Init :: "job_state \<Rightarrow> job_state" where
  "JobHandler_Init s = s\<lparr>js_jobs := Map.empty\<rparr>"

definition readyToRun :: "tref list \<Rightarrow> job_state \<Rightarrow> job_state" where
  "readyToRun tasks s = (if length tasks = 0 then s else s\<lparr>js_ready := js_ready s @ tasks\<rparr>)"

definition checkReadyToRun :: "job \<Rightarrow> job_state \<Rightarrow> job_state" where
  "checkReadyToRun j s = readyToRun (ReadyToRun (js_heap s) j) s"

definition addJob :: "job \<Rightarrow> job_state \<Rightarrow> go_error option \<times> job_state" where
  "addJob j s =
     (case js_jobs s (job_ID j) of
        Some _ \<Rightarrow> (Some (AlreadyLogged ErrJobAlreadyExist WarnLevel), s)
      | None \<Rightarrow> (None, checkReadyToRun j (s\<lparr>js_jobs := (js_jobs s)(job_ID j \<mapsto> j)\<rparr>)))"

definition onJobDone :: "job \<Rightarrow> job_state \<Rightarrow> job_state" where
  "onJobDone j s = s\<lparr>js_jobs := (js_jobs s)(job_ID j := None)\<rparr>"

definition processCancellingTask :: "agent_env \<Rightarrow> tref \<Rightarrow> job_state \<Rightarrow> go_error option \<times> job_state" where
  "processCancellingTask E r s =
     (case Cancel E (''Task is cancelled by '' @ env_uuid_string E (CancelledBy (dt_dep (js_heap s r))))
             (js_heap s r) (js_world s) of
        (t, w) \<Rightarrow> (None, s\<lparr>js_heap := (js_heap s)(r := t), js_world := w\<rparr>))"

definition processDoneTask :: "tref \<Rightarrow> job_state \<Rightarrow> go_error option \<times> job_state" where
  "processDoneTask r s =
     (case js_jobs s (task_JobID (js_heap s r)) of
        None \<Rightarrow> (Some ErrJobNotFound, s)
      | Some j \<Rightarrow>
          (case OnTaskDone (js_heap s) j r of
             (ready, h) \<Rightarrow>
               (let s1 = readyToRun ready (s\<lparr>js_heap := h\<rparr>)
                in (None, if job_IsDone (js_heap s1) j then onJobDone j s1 else s1))))"

definition processTask :: "agent_env \<Rightarrow> tref \<Rightarrow> job_state \<Rightarrow> go_error option \<times> job_state" where
  "processTask E r s =
     (let s1 = (if IsCancelling (IsDone (js_heap s r)) (dt_dep (js_heap s r))
                then snd (processCancellingTask E r s) else s);
          (err, s2) = (if IsDone (js_heap s1 r) then processDoneTask r s1
                       else (Some ErrNotSupportedTaskStatus, s1))
      in (case err of None \<Rightarrow> (None, s2) | Some e \<Rightarrow> (Some (AlreadyLogged e WarnLevel), s2)))"

fun JobHandler_Handle :: "agent_env \<Rightarrow> job_msg \<Rightarrow> job_state \<Rightarrow> go_error option \<times> job_state" where
  "JobHandler_Handle E (MsgJob j) s = addJob j s"
| "JobHandler_Handle E (MsgTask r) s = processTask E r s"
| "JobHandler_Handle E MsgOther s = (Some (AlreadyLogged ErrUnknownMessageType WarnLevel), s)"

lemmas handler_defs =
  readyToRun_def checkReadyToRun_def addJob_def onJobDone_def processCancellingTask_def
  processDoneTask_def processTask_def

section \<open>The dependency loop\<close>

text \<open>On distinct references the loop visits each task in its original state.\<close>

lemma depends_loop_eq:
  assumes "distinct rs"
  shows "depends_loop f u rs h =
    (filter (\<lambda>r. fst (f (IsDone (h r)) u (dt_dep (h r)))) rs,
     (\<lambda>r. if r \<in> set rs then (h r)\<lparr>dt_dep := snd (f (IsDone (h r)) u (dt_dep (h r)))\<rparr> else h r))"
  using assms
proof (induction rs arbitrary: h)
  case (Cons r rs)
  define h1 where "h1 = h(r := (h r)\<lparr>dt_dep := snd (f (IsDone (h r)) u (dt_dep (h r)))\<rparr>)"
  have same: "h1 q = h q" if "q \<in> set rs" for q using Cons.prems that by (auto simp: h1_def)
  have "depends_loop f u (r # rs) h =
      (let (ts, h') = depends_loop f u rs h1
       in (if fst (f (IsDone (h r)) u (dt_dep (h r))) then r # ts else ts, h'))"
    by (simp add: h1_def case_prod_unfold Let_def)
  also have "depends_loop f u rs h1 =
      (filter (\<lambda>r. fst (f (IsDone (h1 r)) u (dt_dep (h1 r)))) rs,
       (\<lambda>r. if r \<in> set rs then (h1 r)\<lparr>dt_dep := snd (f (IsDone (h1 r)) u (dt_dep (h1 r)))\<rparr> else h1 r))"
    using Cons by simp
  also have "filter (\<lambda>r. fst (f (IsDone (h1 r)) u (dt_dep (h1 r)))) rs =
      filter (\<lambda>r. fst (f (IsDone (h r)) u (dt_dep (h r)))) rs"
    using same by (auto intro: filter_cong)
  finally show ?case
    using Cons.prems by (auto simp: h1_def fun_eq_iff)
qed simp

definition told :: "bool \<Rightarrow> bool \<Rightarrow> uuid \<Rightarrow> dependency \<Rightarrow> bool \<times> dependency" where
  "told failed = (if failed then DependsFailed else DependsDone)"

lemma OnTaskDone_eq:
  assumes "distinct (job_Tasks j)"
  shows "OnTaskDone h j q =
    (filter (\<lambda>r. fst (told (IsFailed (h q)) (IsDone (h r)) (task_UUID (h q)) (dt_dep (h r)))) (job_Tasks j),
     (\<lambda>r. if r \<in> set (job_Tasks j)
          then (h r)\<lparr>dt_dep := snd (told (IsFailed (h q)) (IsDone (h r)) (task_UUID (h q)) (dt_dep (h r)))\<rparr>
          else h r))"
  using assms by (cases "IsFailed (h q)") (simp_all add: OnTaskDone_def told_def depends_loop_eq cong: if_cong)

lemma told_ready:
  "fst (told failed done u d) \<Longrightarrow> IsReadyToRun done (snd (told failed done u d))"
  by (auto simp: told_def DependsDone_ready DependsFailed_ready split: if_splits)

lemma told_fst:
  "fst (told failed done u d) \<Longrightarrow> \<not> done \<and> u \<in> set (liveDependsOn d)"
  by (auto simp: told_def DependsDone_eq DependsFailed_eq split: if_splits)

lemma told_snd:
  "liveDependsOn (snd (told failed done u d)) = (if done then liveDependsOn d else remove1 u (liveDependsOn d))"
  "dep_cancelling (snd (told failed done u d)) \<longleftrightarrow>
     dep_cancelling d \<or> (failed \<and> \<not> done \<and> u \<in> set (liveDependsOn d))"
  by (auto simp: told_def DependsDone_eq DependsFailed_eq remove1_idem)

text \<open>Statuses are not touched by a loop over the dependencies.\<close>

lemma OnTaskDone_row:
  assumes "distinct (job_Tasks j)"
  shows "dt_row (snd (OnTaskDone h j q) r) = dt_row (h r)"
  by (simp add: OnTaskDone_eq [OF assms])

lemma row_same_status:
  "dt_row a = dt_row b \<Longrightarrow> IsDone a = IsDone b \<and> IsFailed a = IsFailed b \<and> task_UUID a = task_UUID b
     \<and> task_JobID a = task_JobID b \<and> IsPending a = IsPending b"
  by (simp add: task_defs)

section \<open>Messages\<close>

lemma addJob_new:
  assumes "js_jobs s (job_ID j) = None"
  shows "addJob j s =
    (None, s\<lparr>js_jobs := (js_jobs s)(job_ID j \<mapsto> j), js_ready := js_ready s @ ReadyToRun (js_heap s) j\<rparr>)"
  using assms by (simp add: handler_defs)

lemma addJob_duplicate:
  "js_jobs s (job_ID j) = Some k \<Longrightarrow> addJob j s = (Some (AlreadyLogged ErrJobAlreadyExist WarnLevel), s)"
  by (simp add: addJob_def)

text \<open>
  A done task that is not cancelled here: its job learns of it, sends the tasks this makes ready,
  and is dropped exactly when all of its tasks are done.
\<close>

lemma processTask_done:
  assumes d: "IsDone (js_heap s r)" and j: "js_jobs s (task_JobID (js_heap s r)) = Some j"
    and dj: "distinct (job_Tasks j)"
  shows "processTask E r s =
    (None, s\<lparr>js_heap := snd (OnTaskDone (js_heap s) j r),
             js_ready := js_ready s @ fst (OnTaskDone (js_heap s) j r),
             js_jobs := (if job_IsDone (js_heap s) j then (js_jobs s)(job_ID j := None) else js_jobs s)\<rparr>)"
proof -
  have nc: "\<not> IsCancelling (IsDone (js_heap s r)) (dt_dep (js_heap s r))"
    using d by (simp add: IsCancelling_def)
  have same: "job_IsDone (snd (OnTaskDone (js_heap s) j r)) j = job_IsDone (js_heap s) j"
    using row_same_status [OF OnTaskDone_row [OF dj]] by (simp add: job_IsDone_def list_all_iff)
  show ?thesis
    using d j nc same
    by (cases "OnTaskDone (js_heap s) j r")
      (auto simp: processTask_def processDoneTask_def readyToRun_def onJobDone_def Let_def)
qed

lemma processTask_no_job:
  "IsDone (js_heap s r) \<Longrightarrow> js_jobs s (task_JobID (js_heap s r)) = None \<Longrightarrow>
     processTask E r s = (Some (AlreadyLogged ErrJobNotFound WarnLevel), s)"
  by (simp add: processTask_def processDoneTask_def IsCancelling_def)

lemma processTask_not_done:
  "\<not> IsDone (js_heap s r) \<Longrightarrow> \<not> dep_cancelling (dt_dep (js_heap s r)) \<Longrightarrow>
     processTask E r s = (Some (AlreadyLogged ErrNotSupportedTaskStatus WarnLevel), s)"
  by (simp add: processTask_def IsCancelling_def)

text \<open>A task that came back unfinished while cancelling is cancelled, then handled as done.\<close>

lemma processTask_cancelling:
  assumes "\<not> IsDone (js_heap s r)" and "dep_cancelling (dt_dep (js_heap s r))"
  shows "processTask E r s = processTask E r (snd (processCancellingTask E r s))"
    and "IsDone (js_heap (snd (processCancellingTask E r s)) r)"
proof -
  obtain t w where c: "Cancel E (''Task is cancelled by '' @ env_uuid_string E (CancelledBy (dt_dep (js_heap s r))))
      (js_heap s r) (js_world s) = (t, w)" by fastforce
  have "IsDone t" using Cancel_done [OF c] by simp
  with c show d: "IsDone (js_heap (snd (processCancellingTask E r s)) r)"
    by (simp add: processCancellingTask_def)
  show "processTask E r s = processTask E r (snd (processCancellingTask E r s))"
    unfolding processTask_def [of E r s] processTask_def [of E r "snd (processCancellingTask E r s)"]
    using assms d by (simp add: IsCancelling_def)
qed

text \<open>Reading the ready queue never shrinks it, and every task it gains is ready to run.\<close>

lemma ReadyToRun_iff:
  "r \<in> set (ReadyToRun h j) \<longleftrightarrow> r \<in> set (job_Tasks j) \<and> IsReadyToRun (IsDone (h r)) (dt_dep (h r))"
  by (auto simp: ReadyToRun_def)

lemma OnTaskDone_ready:
  assumes dj: "distinct (job_Tasks j)" and r: "r \<in> set (fst (OnTaskDone h j q))"
  shows "IsReadyToRun (IsDone (snd (OnTaskDone h j q) r)) (dt_dep (snd (OnTaskDone h j q) r))"
proof -
  have rj: "r \<in> set (job_Tasks j)"
    and t: "fst (told (IsFailed (h q)) (IsDone (h r)) (task_UUID (h q)) (dt_dep (h r)))"
    using r by (auto simp: OnTaskDone_eq [OF dj])
  have "IsDone (snd (OnTaskDone h j q) r) = IsDone (h r)"
    using row_same_status [OF OnTaskDone_row [OF dj]] by simp
  with told_ready [OF t] rj show ?thesis by (simp add: OnTaskDone_eq [OF dj])
qed

end
