(* ===== verification/Sample_Env.thy ===== *)
theory Sample_Env
  imports Db_Api
begin

text \<open>
  One concrete environment, configuration and world, on which the witnesses of the component
  theories evaluate the model: every call is answered, the clock and the uuids count the calls.
\<close>

definition sample_cfg :: db_config where
  "sample_cfg = \<lparr>cfg_ReserveNames = [''postgres'', ''template0'', ''template1''],
     cfg_HostTemplate = ''{{ .InstanceName }}'', cfg_InstanceName = ''pg-16'', cfg_Port = 5432,
     cfg_User = ''postgres'', cfg_Name = ''postgres'', cfg_Password = ''secret'',
     cfg_PasswordFile = [], cfg_MaxConns = 4, cfg_BackupRootPath = ''/backups'',
     cfg_CurrentVersion = 16, cfg_tmpl = Some Inr\<rparr>"

definition sample_env :: agent_env where
  "sample_env = \<lparr>env_fault = (\<lambda>_. None), env_now = (\<lambda>n. int n + 1),
     env_uuid = (\<lambda>n. word_of_nat (n + 1)), env_user_exists = (\<lambda>_ _. False),
     env_quit = (\<lambda>_. False), env_uuid_string = (\<lambda>u. ''id''), env_escape = (\<lambda>s. s),
     env_format_time = (\<lambda>t. ''now''), env_cfg = sample_cfg\<rparr>"

definition empty_world :: agent_world where
  "empty_world = \<lparr>w_dbs = [], w_tasks = [], w_next_id = 1, w_calls = 0, w_notified = [], w_cmds = []\<rparr>"

lemma healthy_sample [simp]: "healthy sample_env"
  by (simp add: healthy_def sample_env_def)

lemma wf_empty_world [simp]: "wf_world empty_world"
  by (simp add: wf_world_def wf_tables_def empty_world_def)

text \<open>A task row with the given id, dependencies and status.\<close>

definition sample_task :: "uuid \<Rightarrow> uuid list \<Rightarrow> DbTaskStatus \<Rightarrow> db_task_row" where
  "sample_task i deps st = zero_task\<lparr>tk_ID := i, tk_JobID := 9, tk_DbID := 1, tk_Status := st,
     tk_Data := zero_task_data\<lparr>td_DependsOn := deps\<rparr>\<rparr>"

lemma sample_task_fields [simp]:
  "tk_ID (sample_task i deps st) = i" "tk_JobID (sample_task i deps st) = 9"
  "tk_Status (sample_task i deps st) = st" "td_DependsOn (tk_Data (sample_task i deps st)) = deps"
  by (simp_all add: sample_task_def)

end
