(* ===== verification/Job_Schedule.thy ===== *)
theory Job_Schedule
  imports Job_Handler Sample_Env
begin

text \<open>
  The job handler and its workers as a step relation. Jobs are submitted or recovered, workers take
  any ready task and change its row, messages wait in an inbox and are delivered in any order (the
  senders are concurrent goroutines). Tasks have at most one dependency each, as in every job the
  agent builds. The invariant over the reachable states gives the scheduling guarantee: a task
  handed to the workers has each of its dependencies done, completed unless the task is cancelling,
  and it is handed to them once.
\<close>

record sched =
  sc_state :: job_state
  sc_inbox :: "job_msg list"
  sc_next :: tref

definition alloc :: "tref \<Rightarrow> db_task_row list \<Rightarrow> heap \<Rightarrow> heap" where
  "alloc n rows h = (\<lambda>r. if n \<le> r \<and> r < n + length rows then NewDbTask (rows ! (r - n)) else h r)"

definition linear_rows :: "db_task_row list \<Rightarrow> bool" where
  "linear_rows rows = (\<forall>t \<in> set rows. length (td_DependsOn (tk_Data t)) \<le> 1)"

definition sched_init :: "agent_world \<Rightarrow> heap \<Rightarrow> sched" where
  "sched_init w h = \<lparr>sc_state = \<lparr>js_heap = h, js_jobs = Map.empty, js_ready = [], js_world = w\<rparr>,
     sc_inbox = [], sc_next = 0\<rparr>"

definition new_job :: "string \<Rightarrow> uuid \<Rightarrow> tref \<Rightarrow> db_task_row list \<Rightarrow> job" where
  "new_job name i n rows = \<lparr>job_Name = name, job_ID = i, job_Tasks = [n..<n + length rows]\<rparr>"

text \<open>
  A worker may leave the row of its task in any state, but not change its identity or what it
  depends on.
\<close>

definition row_step :: "db_task_row \<Rightarrow> db_task_row \<Rightarrow> bool" where
  "row_step t t' \<longleftrightarrow> tk_ID t' = tk_ID t \<and> tk_JobID t' = tk_JobID t \<and>
     td_DependsOn (tk_Data t') = td_DependsOn (tk_Data t)"

inductive sched_step :: "agent_env \<Rightarrow> sched \<Rightarrow> sched \<Rightarrow> bool" for E where
  submit: "linear_rows rows \<Longrightarrow>
     j = new_job name i (sc_next s) rows \<Longrightarrow>
     s' = s\<lparr>sc_state := (sc_state s)\<lparr>js_heap := alloc (sc_next s) rows (js_heap (sc_state s)), js_world := w\<rparr>,
            sc_inbox := sc_inbox s @ [MsgJob j], sc_next := sc_next s + length rows\<rparr> \<Longrightarrow>
     sched_step E s s'"
| recover: "linear_rows rows \<Longrightarrow>
     j = new_job name i (sc_next s) rows \<Longrightarrow>
     s' = s\<lparr>sc_state := (sc_state s)\<lparr>js_heap := job_Init (alloc (sc_next s) rows (js_heap (sc_state s))) j, js_world := w\<rparr>,
            sc_inbox := sc_inbox s @ [MsgJob j], sc_next := sc_next s + length rows\<rparr> \<Longrightarrow>
     sched_step E s s'"
| work: "js_ready (sc_state s) = xs @ r # ys \<Longrightarrow>
     row_step (dt_row (js_heap (sc_state s) r)) t \<Longrightarrow>
     s' = s\<lparr>sc_state := (sc_state s)\<lparr>js_ready := xs @ ys,
              js_heap := (js_heap (sc_state s))(r := (js_heap (sc_state s) r)\<lparr>dt_row := t\<rparr>), js_world := w\<rparr>,
            sc_inbox := sc_inbox s @ [MsgTask r]\<rparr> \<Longrightarrow>
     sched_step E s s'"
| deliver: "sc_inbox s = xs @ m # ys \<Longrightarrow>
     s' = s\<lparr>sc_state := snd (JobHandler_Handle E m (sc_state s)), sc_inbox := xs @ ys\<rparr> \<Longrightarrow>
     sched_step E s s'"

inductive sched_reach :: "agent_env \<Rightarrow> sched \<Rightarrow> bool" for E where
  start: "sched_reach E (sched_init w h)"
| step: "sched_reach E s \<Longrightarrow> sched_step E s s' \<Longrightarrow> sched_reach E s'"

section \<open>What a task knows of its dependencies\<close>

definition good_dep :: "heap \<Rightarrow> tref \<Rightarrow> tref \<Rightarrow> bool" where
  "good_dep h n r \<longleftrightarrow>
     length (Requires (dt_row (h r))) \<le> 1 \<and>
     set (liveDependsOn (dt_dep (h r))) \<subseteq> set (Requires (dt_row (h r))) \<and>
     length (liveDependsOn (dt_dep (h r))) \<le> 1 \<and>
     (\<forall>u \<in> set (Requires (dt_row (h r))) - set (liveDependsOn (dt_dep (h r))).
        \<exists>q < n. task_UUID (h q) = u \<and> IsDone (h q) \<and>
                (\<not> dep_cancelling (dt_dep (h r)) \<longrightarrow> \<not> IsFailed (h q))) \<and>
     (dep_cancelling (dt_dep (h r)) \<longrightarrow> liveDependsOn (dt_dep (h r)) = [] \<and>
        (\<exists>q < n. task_UUID (h q) = dep_cancelBy (dt_dep (h r)) \<and> IsFailed (h q)))"

lemma good_dep_new: "length (td_DependsOn (tk_Data t)) \<le> 1 \<Longrightarrow> h r = NewDbTask t \<Longrightarrow> good_dep h n r"
  by (simp add: good_dep_def NewDbTask_def NewBaseTaskDependency_def Requires_def)

lemma good_dep_mono:
  assumes "good_dep h n r" and "h' r = h r" and "\<And>q. q < n \<Longrightarrow> h' q = h q" and "n \<le> m"
  shows "good_dep h' m r"
proof -
  have ex: "\<exists>q < n. P (h q) \<Longrightarrow> \<exists>q < m. P (h' q)" for P
    using assms(3,4) by (auto dest: order_less_le_trans)
  note known = assms(1) [unfolded good_dep_def]
  have finished: "\<exists>q < m. task_UUID (h' q) = u \<and> IsDone (h' q) \<and>
      (\<not> dep_cancelling (dt_dep (h r)) \<longrightarrow> \<not> IsFailed (h' q))"
    if "u \<in> set (Requires (dt_row (h r))) - set (liveDependsOn (dt_dep (h r)))" for u
    by (rule ex [of "\<lambda>t. task_UUID t = u \<and> IsDone t \<and> (\<not> dep_cancelling (dt_dep (h r)) \<longrightarrow> \<not> IsFailed t)"])
      (use known that in blast)
  have failed: "\<exists>q < m. task_UUID (h' q) = dep_cancelBy (dt_dep (h r)) \<and> IsFailed (h' q)"
    if "dep_cancelling (dt_dep (h r))"
    by (rule ex [of "\<lambda>t. task_UUID t = dep_cancelBy (dt_dep (h r)) \<and> IsFailed t"])
      (use known that in blast)
  show ?thesis
    unfolding good_dep_def assms(2) using known finished failed by simp
qed

text \<open>Changing the row of a task that is not done keeps what the others know.\<close>

lemma good_dep_row:
  assumes g: "good_dep h n x" and nd: "\<not> IsDone (h r)"
    and t: "dt_dep t = dt_dep (h r)" "row_step (dt_row (h r)) (dt_row t)"
  shows "good_dep (h(r := t)) n x"
proof -
  have dep: "dt_dep ((h(r := t)) y) = dt_dep (h y)" for y using t by simp
  have req: "Requires (dt_row ((h(r := t)) y)) = Requires (dt_row (h y))" for y
    using t by (simp add: Requires_def row_step_def)
  have fail: "IsFailed (h q) \<Longrightarrow> IsDone (h q)" for q by (rule db_task.failed_done)
  have old: "task_UUID ((h(r := t)) q) = task_UUID (h q) \<and> IsDone ((h(r := t)) q) = IsDone (h q) \<and>
      IsFailed ((h(r := t)) q) = IsFailed (h q)" if "IsDone (h q)" for q
    using nd that by auto
  show ?thesis
    using g unfolding good_dep_def dep req by (metis old fail)
qed

lemma remove1_single: "length us \<le> 1 \<Longrightarrow> u \<in> set us \<Longrightarrow> remove1 u us = []"
  by (cases us) auto

text \<open>Telling a task about a done one: what left its list is accounted for by that one.\<close>

lemma good_dep_told:
  assumes g: "good_dep h n x" and q: "q < n" "IsDone (h q)"
    and h': "\<And>y. h' y = (if y \<in> S
        then (h y)\<lparr>dt_dep := snd (told (IsFailed (h q)) (IsDone (h y)) (task_UUID (h q)) (dt_dep (h y)))\<rparr>
        else h y)"
  shows "good_dep h' n x"
proof -
  have row: "dt_row (h' y) = dt_row (h y)" for y by (simp add: h')
  have st: "IsDone (h' y) = IsDone (h y)" "IsFailed (h' y) = IsFailed (h y)"
    "task_UUID (h' y) = task_UUID (h y)" for y
    using row_same_status [OF row] by blast+
  show ?thesis
  proof (cases "x \<in> S \<and> \<not> IsDone (h x) \<and> task_UUID (h q) \<in> set (liveDependsOn (dt_dep (h x)))")
    case False
    then have "dt_dep (h' x) = dt_dep (h x)"
      by (auto simp: h' told_def DependsDone_eq DependsFailed_eq)
    with g show ?thesis by (simp add: good_dep_def row st)
  next
    case True
    have len: "length (liveDependsOn (dt_dep (h x))) \<le> 1" using g by (simp add: good_dep_def)
    have live: "liveDependsOn (dt_dep (h' x)) = []"
      using True remove1_single [OF len] by (simp add: h' told_snd)
    have lenR: "length (Requires (dt_row (h x))) \<le> 1"
      and sub: "set (liveDependsOn (dt_dep (h x))) \<subseteq> set (Requires (dt_row (h x)))"
      using g by (simp_all add: good_dep_def)
    have only: "Requires (dt_row (h x)) = [task_UUID (h q)]"
      using lenR sub True by (cases "Requires (dt_row (h x))") auto
    show ?thesis
    proof (cases "IsFailed (h q)")
      case fq: True
      have "dep_cancelling (dt_dep (h' x)) \<and> dep_cancelBy (dt_dep (h' x)) = task_UUID (h q)"
        using True fq by (simp add: h' told_def DependsFailed_eq)
      with q fq live only show ?thesis by (auto simp: good_dep_def row st)
    next
      case nq: False
      have "dep_cancelling (dt_dep (h' x)) = dep_cancelling (dt_dep (h x)) \<and>
          dep_cancelBy (dt_dep (h' x)) = dep_cancelBy (dt_dep (h x))"
        using True nq by (simp add: h' told_def DependsDone_eq)
      with g q nq live only show ?thesis by (auto simp: good_dep_def row st)
    qed
  qed
qed

lemma good_dep_OnTaskDone:
  assumes "good_dep h n x" and "q < n" and "IsDone (h q)" and "distinct (job_Tasks j)"
  shows "good_dep (snd (OnTaskDone h j q)) n x"
  by (rule good_dep_told [OF assms(1-3), of _ "set (job_Tasks j)"])
    (simp add: OnTaskDone_eq [OF assms(4)])

lemma good_dep_init_loop:
  assumes "good_dep h n x" and "\<forall>r \<in> set rs. r < n" and "distinct (job_Tasks j)"
  shows "good_dep (init_loop j rs h) n x"
  using assms by (induction rs arbitrary: h) (auto intro: good_dep_OnTaskDone)

lemma init_loop_outside:
  assumes "distinct (job_Tasks j)" and "r \<notin> set (job_Tasks j)"
  shows "init_loop j rs h r = h r"
  using assms by (induction rs arbitrary: h) (auto simp: OnTaskDone_eq)

lemma init_loop_row:
  assumes "distinct (job_Tasks j)"
  shows "dt_row (init_loop j rs h r) = dt_row (h r)"
  using assms by (induction rs arbitrary: h) (auto simp: OnTaskDone_row)

section \<open>The invariant\<close>

fun msg_tasks :: "job_msg list \<Rightarrow> tref list" where
  "msg_tasks [] = []"
| "msg_tasks (MsgTask r # ms) = r # msg_tasks ms"
| "msg_tasks (MsgJob j # ms) = msg_tasks ms"
| "msg_tasks (MsgOther # ms) = msg_tasks ms"

fun msg_refs :: "job_msg list \<Rightarrow> tref list" where
  "msg_refs [] = []"
| "msg_refs (MsgTask r # ms) = msg_refs ms"
| "msg_refs (MsgJob j # ms) = job_Tasks j @ msg_refs ms"
| "msg_refs (MsgOther # ms) = msg_refs ms"

lemma msg_tasks_append [simp]: "msg_tasks (ms @ ns) = msg_tasks ms @ msg_tasks ns"
  by (induction ms rule: msg_tasks.induct) auto

lemma msg_refs_append [simp]: "msg_refs (ms @ ns) = msg_refs ms @ msg_refs ns"
  by (induction ms rule: msg_refs.induct) auto

text \<open>
  \<open>ready\<close> is the queue of ready tasks, \<open>infl\<close> the tasks in messages on their way back, \<open>pend\<close> the
  tasks of jobs not yet added.
\<close>

definition core_inv ::
    "tref \<Rightarrow> heap \<Rightarrow> tref list \<Rightarrow> tref list \<Rightarrow> tref list \<Rightarrow> (uuid \<rightharpoonup> job) \<Rightarrow> bool" where
  "core_inv n h ready infl pend jobs \<longleftrightarrow>
     (\<forall>r < n. good_dep h n r) \<and>
     distinct (ready @ infl @ pend) \<and> set (ready @ infl @ pend) \<subseteq> {..<n} \<and>
     (\<forall>r \<in> set ready. \<not> IsDone (h r)) \<and>
     (\<forall>r \<in> set (ready @ infl). liveDependsOn (dt_dep (h r)) = []) \<and>
     (\<forall>i j. jobs i = Some j \<longrightarrow>
        distinct (job_Tasks j) \<and> set (job_Tasks j) \<subseteq> {..<n} \<and> set (job_Tasks j) \<inter> set pend = {})"

definition sched_inv :: "sched \<Rightarrow> bool" where
  "sched_inv s = core_inv (sc_next s) (js_heap (sc_state s)) (js_ready (sc_state s))
     (msg_tasks (sc_inbox s)) (msg_refs (sc_inbox s)) (js_jobs (sc_state s))"

lemma core_invI:
  assumes "\<And>r. r < n \<Longrightarrow> good_dep h n r"
    and "distinct ready" "distinct infl" "distinct pend"
    and "set ready \<inter> set infl = {}" "set ready \<inter> set pend = {}" "set infl \<inter> set pend = {}"
    and "set ready \<subseteq> {..<n}" "set infl \<subseteq> {..<n}" "set pend \<subseteq> {..<n}"
    and "\<And>r. r \<in> set ready \<Longrightarrow> \<not> IsDone (h r)"
    and "\<And>r. r \<in> set ready \<union> set infl \<Longrightarrow> liveDependsOn (dt_dep (h r)) = []"
    and "\<And>i j. jobs i = Some j \<Longrightarrow> distinct (job_Tasks j) \<and> set (job_Tasks j) \<subseteq> {..<n} \<and>
           set (job_Tasks j) \<inter> set pend = {}"
  shows "core_inv n h ready infl pend jobs"
proof -
  have "distinct (ready @ infl @ pend)" using assms(2-7) by (simp only: distinct_append set_append) blast
  moreover have "set (ready @ infl @ pend) \<subseteq> {..<n}" using assms(8-10) by simp
  ultimately show ?thesis using assms(1,11-13) by (simp only: core_inv_def set_append) blast
qed

lemma core_invD:
  assumes "core_inv n h ready infl pend jobs"
  shows "\<And>r. r < n \<Longrightarrow> good_dep h n r"
    and "distinct ready" "distinct infl" "distinct pend"
    and "set ready \<inter> set infl = {}" "set ready \<inter> set pend = {}" "set infl \<inter> set pend = {}"
    and "set ready \<subseteq> {..<n}" "set infl \<subseteq> {..<n}" "set pend \<subseteq> {..<n}"
    and "\<And>r. r \<in> set ready \<Longrightarrow> \<not> IsDone (h r)"
    and "\<And>r. r \<in> set ready \<union> set infl \<Longrightarrow> liveDependsOn (dt_dep (h r)) = []"
    and "\<And>i j. jobs i = Some j \<Longrightarrow> distinct (job_Tasks j) \<and> set (job_Tasks j) \<subseteq> {..<n} \<and>
           set (job_Tasks j) \<inter> set pend = {}"
  using assms unfolding core_inv_def set_append distinct_append by blast+

text \<open>A done task is told to its job: whoever becomes ready was neither queued nor under way.\<close>

lemma core_told:
  assumes c: "core_inv n h ready infl pend jobs" and q: "q < n" "IsDone (h q)"
    and j: "jobs i = Some j"
  shows "core_inv n (snd (OnTaskDone h j q)) (ready @ fst (OnTaskDone h j q)) infl pend jobs"
proof -
  define h' new where "h' = snd (OnTaskDone h j q)" and "new = fst (OnTaskDone h j q)"
  note D = core_invD [OF c]
  have dj: "distinct (job_Tasks j)" and jn: "set (job_Tasks j) \<subseteq> {..<n}"
    and jp: "set (job_Tasks j) \<inter> set pend = {}"
    using D(13) [OF j] by blast+
  have st: "IsDone (h' r) = IsDone (h r)" for r
    using row_same_status [OF OnTaskDone_row [OF dj]] by (simp add: h'_def)
  have newD: "r \<in> set (job_Tasks j) \<and> \<not> IsDone (h r) \<and> liveDependsOn (dt_dep (h r)) \<noteq> [] \<and>
      liveDependsOn (dt_dep (h' r)) = []" if "r \<in> set new" for r
  proof -
    from that have rj: "r \<in> set (job_Tasks j)"
      and t: "fst (told (IsFailed (h q)) (IsDone (h r)) (task_UUID (h q)) (dt_dep (h r)))"
      by (auto simp: new_def OnTaskDone_eq [OF dj])
    have "length (liveDependsOn (dt_dep (h r))) \<le> 1"
      using D(1) jn rj by (auto simp: good_dep_def)
    with told_fst [OF t] rj show ?thesis
      by (auto simp: h'_def OnTaskDone_eq [OF dj] told_snd remove1_single)
  qed
  have live: "liveDependsOn (dt_dep (h' r)) = []" if "liveDependsOn (dt_dep (h r)) = []" for r
    using that by (simp add: h'_def OnTaskDone_eq [OF dj] told_snd)
  have dn: "distinct new" using dj by (simp add: new_def OnTaskDone_eq)
  have nr: "set new \<inter> (set ready \<union> set infl) = {}" using newD D(12) by blast
  have nj: "set new \<subseteq> set (job_Tasks j)" using newD by blast
  show ?thesis
    unfolding h'_def [symmetric] new_def [symmetric]
  proof (rule core_invI)
    show "good_dep h' n r" if "r < n" for r
      unfolding h'_def by (rule good_dep_OnTaskDone [OF D(1) [OF that] q dj])
    show "distinct (ready @ new)" using D(2) dn nr by auto
    show "set (ready @ new) \<inter> set infl = {}" using D(5) nr by auto
    show "set (ready @ new) \<inter> set pend = {}" using D(6) nj jp by auto
    show "set (ready @ new) \<subseteq> {..<n}" using D(8) nj jn by auto
    show "\<not> IsDone (h' r)" if "r \<in> set (ready @ new)" for r using that D(11) newD st by auto
    show "liveDependsOn (dt_dep (h' r)) = []" if "r \<in> set (ready @ new) \<union> set infl" for r
      using that D(12) newD live by auto
  qed (use D in blast)+
qed

text \<open>The row of a task that is under way and not done may change.\<close>

lemma core_row:
  assumes c: "core_inv n h ready infl pend jobs" and r: "r \<notin> set ready" "\<not> IsDone (h r)"
    and t: "dt_dep t = dt_dep (h r)" "row_step (dt_row (h r)) (dt_row t)"
  shows "core_inv n (h(r := t)) ready infl pend jobs"
proof -
  note D = core_invD [OF c]
  show ?thesis
  proof (rule core_invI)
    show "good_dep (h(r := t)) n x" if "x < n" for x
      by (rule good_dep_row [OF D(1) [OF that] r(2) t])
    show "\<not> IsDone ((h(r := t)) x)" if "x \<in> set ready" for x using that D(11) r by auto
    show "liveDependsOn (dt_dep ((h(r := t)) x)) = []" if "x \<in> set ready \<union> set infl" for x
      using D(12) [OF that] t by (cases "x = r") auto
  qed (use D in blast)+
qed

lemma core_take:
  assumes c: "core_inv n h (xs @ r # ys) infl pend jobs"
  shows "core_inv n h (xs @ ys) (infl @ [r]) pend jobs" and "r \<notin> set (xs @ ys)" and "\<not> IsDone (h r)"
proof -
  note D = core_invD [OF c]
  show "core_inv n h (xs @ ys) (infl @ [r]) pend jobs"
    by (rule core_invI) (use D in auto)
  show "r \<notin> set (xs @ ys)" "\<not> IsDone (h r)" using D(2,11) by auto
qed

lemma core_return:
  assumes c: "core_inv n h ready (xs @ r # ys) pend jobs"
  shows "core_inv n h ready (xs @ ys) pend jobs"
proof -
  note D = core_invD [OF c]
  show ?thesis by (rule core_invI) (use D in auto)
qed

lemma core_del:
  assumes c: "core_inv n h ready infl pend jobs"
  shows "core_inv n h ready infl pend (jobs(i := None))"
proof -
  note D = core_invD [OF c]
  show ?thesis by (rule core_invI) (use D in \<open>auto split: if_splits\<close>)
qed

lemma core_drop_pend:
  assumes c: "core_inv n h ready infl (xs @ zs @ ys) jobs"
  shows "core_inv n h ready infl (xs @ ys) jobs"
proof -
  note D = core_invD [OF c]
  have "set (job_Tasks j) \<inter> set (xs @ ys) = {}" if "jobs i = Some j" for i j
    using D(13) [OF that] by auto
  then show ?thesis by (intro core_invI) (use D in auto)
qed

lemma core_add:
  assumes c: "core_inv n h ready infl (xs @ job_Tasks j @ ys) jobs"
  shows "core_inv n h (ready @ ReadyToRun h j) infl (xs @ ys) (jobs(i \<mapsto> j))"
proof -
  note D = core_invD [OF c]
  have sub: "set (ReadyToRun h j) \<subseteq> set (job_Tasks j)" "distinct (ReadyToRun h j)"
    "\<forall>r \<in> set (ReadyToRun h j). \<not> IsDone (h r)"
    using D(4) by (auto simp: ReadyToRun_def IsReadyToRun_def)
  have live: "liveDependsOn (dt_dep (h r)) = []" if "r \<in> set (ReadyToRun h j)" for r
  proof -
    from that sub D(10) have "r < n" by auto
    moreover have "liveDependsOn (dt_dep (h r)) = [] \<or> dep_cancelling (dt_dep (h r))"
      using that by (auto simp: ReadyToRun_def IsReadyToRun_def split: if_splits)
    ultimately show ?thesis using D(1) by (auto simp: good_dep_def)
  qed
  show ?thesis
  proof (rule core_invI)
    show "distinct (ready @ ReadyToRun h j)" using D(2,6) sub by auto
    show "set (ready @ ReadyToRun h j) \<inter> set infl = {}" using D(5,7) sub by auto
    show "set (ready @ ReadyToRun h j) \<inter> set (xs @ ys) = {}" using D(4,6) sub by auto
    show "set (ready @ ReadyToRun h j) \<subseteq> {..<n}" using D(8,10) sub by auto
    show "liveDependsOn (dt_dep (h r)) = []" if "r \<in> set (ready @ ReadyToRun h j) \<union> set infl" for r
      using that D(12) live by auto
    show "distinct (job_Tasks k) \<and> set (job_Tasks k) \<subseteq> {..<n} \<and> set (job_Tasks k) \<inter> set (xs @ ys) = {}"
      if "(jobs(i \<mapsto> j)) l = Some k" for l k
      using that D(4,10) D(13) [of l k] by (auto split: if_splits)
  qed (use D sub in auto)
qed

lemma core_alloc:
  assumes c: "core_inv n h ready infl pend jobs" and m: "n \<le> m"
    and old: "\<And>x. x < n \<Longrightarrow> h' x = h x" and new: "\<And>x. n \<le> x \<Longrightarrow> x < m \<Longrightarrow> good_dep h' m x"
  shows "core_inv m h' ready infl (pend @ [n..<m]) jobs"
proof -
  note D = core_invD [OF c]
  have g: "good_dep h' m x" if "x < m" for x
    using that new [of x] good_dep_mono [OF D(1) old old m, of x] by (cases "x < n") auto
  have lt: "x < n" if "x \<in> set ready \<or> x \<in> set infl \<or> x \<in> set pend" for x
    using that D(8-10) by auto
  have jb: "set (job_Tasks j) \<subseteq> {..<n}" if "jobs i = Some j" for i j
    using D(13) [OF that] by blast
  show ?thesis
  proof (rule core_invI)
    show "set (pend @ [n..<m]) \<subseteq> {..<m}" using lt m by force
    show "\<not> IsDone (h' x)" if "x \<in> set ready" for x using D(11) [OF that] lt old that by simp
    show "liveDependsOn (dt_dep (h' x)) = []" if "x \<in> set ready \<union> set infl" for x
      using D(12) [OF that] lt [of x] old [of x] that by auto
    show "set ready \<inter> set (pend @ [n..<m]) = {}" using D(6) lt by force
    show "set infl \<inter> set (pend @ [n..<m]) = {}" using D(7) lt by force
    show "distinct (pend @ [n..<m])" using D(4) lt by force
    show "set ready \<subseteq> {..<m}" "set infl \<subseteq> {..<m}" using lt m by force+
    show "distinct (job_Tasks j) \<and> set (job_Tasks j) \<subseteq> {..<m} \<and> set (job_Tasks j) \<inter> set (pend @ [n..<m]) = {}"
      if "jobs i = Some j" for i j
      using D(13) [OF that] jb [OF that] m by force
  qed (use D g in blast)+
qed


text \<open>Every kind of step keeps the invariant.\<close>

lemma core_done_task:
  assumes c: "core_inv n (js_heap s) (js_ready s) infl pend (js_jobs s)"
    and r: "r < n" "IsDone (js_heap s r)"
  shows "core_inv n (js_heap (snd (processTask E r s))) (js_ready (snd (processTask E r s))) infl pend
    (js_jobs (snd (processTask E r s)))"
proof (cases "js_jobs s (task_JobID (js_heap s r))")
  case None
  with c r show ?thesis by (simp add: processTask_no_job)
next
  case (Some j)
  note dj = core_invD(13) [OF c Some, THEN conjunct1]
  show ?thesis
    unfolding processTask_done [OF r(2) Some dj]
    using core_told [OF c r Some] core_del [OF core_told [OF c r Some]] by simp
qed

lemma core_process:
  assumes c: "core_inv n (js_heap s) (js_ready s) (xs @ r # ys) pend (js_jobs s)"
  shows "core_inv n (js_heap (snd (processTask E r s))) (js_ready (snd (processTask E r s))) (xs @ ys) pend
    (js_jobs (snd (processTask E r s)))"
proof -
  have rn: "r < n" and nr: "r \<notin> set (js_ready s)" using core_invD(5,9) [OF c] by auto
  note c1 = core_return [OF c]
  consider "IsDone (js_heap s r)" | "\<not> IsDone (js_heap s r)" "\<not> dep_cancelling (dt_dep (js_heap s r))"
    | "\<not> IsDone (js_heap s r)" "dep_cancelling (dt_dep (js_heap s r))" by blast
  then show ?thesis
  proof cases
    case 1
    then show ?thesis by (rule core_done_task [OF c1 rn])
  next
    case 2
    with c1 show ?thesis by (simp add: processTask_not_done)
  next
    case 3
    define s1 where "s1 = snd (processCancellingTask E r s)"
    obtain t w where t: "Cancel E (''Task is cancelled by '' @ env_uuid_string E (CancelledBy (dt_dep (js_heap s r))))
        (js_heap s r) (js_world s) = (t, w)" by fastforce
    then have s1: "js_heap s1 = (js_heap s)(r := t)" "js_ready s1 = js_ready s" "js_jobs s1 = js_jobs s"
      by (simp_all add: s1_def processCancellingTask_def)
    have "dt_dep t = dt_dep (js_heap s r)" "row_step (dt_row (js_heap s r)) (dt_row t)"
      using Cancel_shape [of E "''Task is cancelled by '' @ env_uuid_string E (CancelledBy (dt_dep (js_heap s r)))"
          "js_heap s r" "js_world s"] t
      by (auto simp: row_step_def)
    then have "core_inv n (js_heap s1) (js_ready s1) (xs @ ys) pend (js_jobs s1)"
      unfolding s1 by (rule core_row [OF c1 nr 3(1)])
    moreover have "IsDone (js_heap s1 r)"
      unfolding s1_def by (rule processTask_cancelling(2) [OF 3])
    ultimately have "core_inv n (js_heap (snd (processTask E r s1))) (js_ready (snd (processTask E r s1)))
        (xs @ ys) pend (js_jobs (snd (processTask E r s1)))"
      by (rule core_done_task [OF _ rn])
    then show ?thesis unfolding processTask_cancelling(1) [OF 3] s1_def .
  qed
qed

lemma good_dep_alloc:
  assumes "linear_rows rows" and "n \<le> r" and "r < n + length rows"
  shows "good_dep (alloc n rows h) m r"
  using assms by (intro good_dep_new [of "rows ! (r - n)"]) (auto simp: linear_rows_def alloc_def)

text \<open>Delivering one message keeps the invariant.\<close>

lemma sched_deliver_inv:
  assumes inbox: "sc_inbox s = xs @ m # ys" and "sched_inv s"
  shows "sched_inv (s\<lparr>sc_state := snd (JobHandler_Handle E m (sc_state s)), sc_inbox := xs @ ys\<rparr>)"
proof -
  have c: "core_inv (sc_next s) (js_heap (sc_state s)) (js_ready (sc_state s)) (msg_tasks (xs @ m # ys))
      (msg_refs (xs @ m # ys)) (js_jobs (sc_state s))"
    using assms by (simp add: sched_inv_def)
  show ?thesis
  proof (cases m)
    case (MsgJob j)
    show ?thesis
    proof (cases "js_jobs (sc_state s) (job_ID j)")
      case None
      show ?thesis
        using core_add [of _ _ _ _ "msg_refs xs" j "msg_refs ys" _ "job_ID j"] c
        by (simp add: MsgJob addJob_new [OF None] sched_inv_def)
    next
      case (Some k)
      then show ?thesis
        using core_drop_pend [of _ _ _ _ "msg_refs xs" "job_Tasks j" "msg_refs ys"] c
        by (simp add: MsgJob addJob_duplicate [OF Some] sched_inv_def)
    qed
  next
    case (MsgTask r)
    with core_process [of _ "sc_state s" "msg_tasks xs" r "msg_tasks ys"] c show ?thesis
      by (simp add: sched_inv_def)
  next
    case MsgOther
    with c show ?thesis by (simp add: sched_inv_def)
  qed
qed

lemma sched_step_inv:
  assumes "sched_step E s s'" and "sched_inv s"
  shows "sched_inv s'"
  using assms
proof (induction rule: sched_step.induct)
  case (submit rows j name i s s' w)
  have "core_inv (sc_next s + length rows) (alloc (sc_next s) rows (js_heap (sc_state s))) (js_ready (sc_state s))
      (msg_tasks (sc_inbox s)) (msg_refs (sc_inbox s) @ [sc_next s..<sc_next s + length rows]) (js_jobs (sc_state s))"
    using submit.prems unfolding sched_inv_def
    by (rule core_alloc) (auto simp: alloc_def intro: good_dep_alloc [OF submit.hyps(1), unfolded alloc_def])
  then show ?case by (simp add: submit.hyps sched_inv_def new_job_def)
next
  case (recover rows j name i s s' w)
  let ?n = "sc_next s" and ?m = "sc_next s + length rows"
  let ?h = "alloc ?n rows (js_heap (sc_state s))"
  have refs: "job_Tasks j = [?n..<?m]" using recover.hyps by (simp add: new_job_def)
  have "core_inv ?m (job_Init ?h j) (js_ready (sc_state s))
      (msg_tasks (sc_inbox s)) (msg_refs (sc_inbox s) @ [?n..<?m]) (js_jobs (sc_state s))"
    using recover.prems unfolding sched_inv_def
  proof (rule core_alloc)
    show "job_Init ?h j x = js_heap (sc_state s) x" if "x < ?n" for x
      using that init_loop_outside [of j x "job_Tasks j" ?h] by (simp add: job_Init_def refs alloc_def)
    show "good_dep (job_Init ?h j) ?m x" if "?n \<le> x" "x < ?m" for x
      unfolding job_Init_def
      by (rule good_dep_init_loop [OF good_dep_alloc [OF recover.hyps(1) that]]) (simp_all add: refs)
  qed simp
  then show ?case by (simp add: recover.hyps(3) sched_inv_def refs)
next
  case (work s xs r ys t s' w)
  let ?h = "js_heap (sc_state s)"
  have c: "core_inv (sc_next s) ?h (xs @ r # ys) (msg_tasks (sc_inbox s)) (msg_refs (sc_inbox s)) (js_jobs (sc_state s))"
    using work.prems work.hyps(1) by (simp add: sched_inv_def)
  have "core_inv (sc_next s) (?h(r := (?h r)\<lparr>dt_row := t\<rparr>)) (xs @ ys) (msg_tasks (sc_inbox s) @ [r])
      (msg_refs (sc_inbox s)) (js_jobs (sc_state s))"
    using core_take [OF c] work.hyps(2) by (intro core_row) auto
  then show ?case by (simp add: work.hyps(3) sched_inv_def)
next
  case (deliver s xs m ys s')
  then show ?case using sched_deliver_inv by blast
qed

lemma sched_reach_inv: "sched_reach E s \<Longrightarrow> sched_inv s"
proof (induction rule: sched_reach.induct)
  case (start w h)
  show ?case by (auto simp: sched_init_def sched_inv_def core_inv_def)
next
  case (step s s')
  then show ?case by (blast intro: sched_step_inv)
qed

section \<open>The scheduling guarantee\<close>

lemma ready_guarantee:
  assumes "sched_reach E s" and "r \<in> set (js_ready (sc_state s))"
  shows "\<not> IsDone (js_heap (sc_state s) r)"
    and "distinct (js_ready (sc_state s) @ msg_tasks (sc_inbox s))"
    and "\<forall>u \<in> set (Requires (dt_row (js_heap (sc_state s) r))). \<exists>q < sc_next s.
           task_UUID (js_heap (sc_state s) q) = u \<and> IsDone (js_heap (sc_state s) q) \<and>
           (\<not> dep_cancelling (dt_dep (js_heap (sc_state s) r)) \<longrightarrow> \<not> IsFailed (js_heap (sc_state s) q))"
proof -
  note D = core_invD [OF sched_reach_inv [OF assms(1), unfolded sched_inv_def]]
  show "\<not> IsDone (js_heap (sc_state s) r)" by (rule D(11) [OF assms(2)])
  show "distinct (js_ready (sc_state s) @ msg_tasks (sc_inbox s))" using D(2,3,5) by simp
  have "r < sc_next s" and "liveDependsOn (dt_dep (js_heap (sc_state s) r)) = []"
    using D(8,12) assms(2) by auto
  with D(1) show "\<forall>u \<in> set (Requires (dt_row (js_heap (sc_state s) r))). \<exists>q < sc_next s.
      task_UUID (js_heap (sc_state s) q) = u \<and> IsDone (js_heap (sc_state s) q) \<and>
      (\<not> dep_cancelling (dt_dep (js_heap (sc_state s) r)) \<longrightarrow> \<not> IsFailed (js_heap (sc_state s) q))"
    by (auto simp: good_dep_def)
qed

text \<open>
  C1. In every reachable state of the job handler and its workers, with messages delivered in any
  order, a task in the ready queue is not done, is queued once and is not under way anywhere else,
  and each task it depends on is done; unless the task is being cancelled, that task completed.
\<close>

theorem scheduling_safety:
  assumes "sched_reach E s" and "r \<in> set (js_ready (sc_state s))"
  shows "\<not> IsDone (js_heap (sc_state s) r) \<and>
    distinct (js_ready (sc_state s) @ msg_tasks (sc_inbox s)) \<and>
    (\<forall>u \<in> set (Requires (dt_row (js_heap (sc_state s) r))). \<exists>q < sc_next s.
       task_UUID (js_heap (sc_state s) q) = u \<and> IsDone (js_heap (sc_state s) q) \<and>
       (\<not> dep_cancelling (dt_dep (js_heap (sc_state s) r)) \<longrightarrow> \<not> IsFailed (js_heap (sc_state s) q)))"
  by (intro conjI; rule ready_guarantee [OF assms])

text \<open>A run of a job of two tasks: submitted, added, the first task worked on and reported.\<close>

definition demo_rows :: "db_task_row list" where
  "demo_rows = [sample_task 1 [] DbTaskStatusPending, sample_task 2 [1] DbTaskStatusPending]"

definition demo0 :: sched where
  "demo0 = sched_init empty_world (\<lambda>_. NewDbTask zero_task)"

definition demo1 :: sched where
  "demo1 = demo0\<lparr>sc_state := (sc_state demo0)\<lparr>js_heap := alloc 0 demo_rows (js_heap (sc_state demo0)), js_world := empty_world\<rparr>,
     sc_inbox := [MsgJob (new_job [] 9 0 demo_rows)], sc_next := 2\<rparr>"

definition demo2 :: sched where
  "demo2 = demo1\<lparr>sc_state := snd (JobHandler_Handle sample_env (MsgJob (new_job [] 9 0 demo_rows)) (sc_state demo1)),
     sc_inbox := []\<rparr>"

definition demo3 :: sched where
  "demo3 = demo2\<lparr>sc_state := (sc_state demo2)\<lparr>js_ready := [],
       js_heap := (js_heap (sc_state demo2))(0 := (js_heap (sc_state demo2) 0)\<lparr>dt_row := sample_task 1 [] DbTaskStatusCompleted\<rparr>),
       js_world := empty_world\<rparr>,
     sc_inbox := [MsgTask 0]\<rparr>"

definition demo4 :: sched where
  "demo4 = demo3\<lparr>sc_state := snd (JobHandler_Handle sample_env (MsgTask 0) (sc_state demo3)), sc_inbox := []\<rparr>"

lemmas demo_simps = demo0_def demo1_def demo2_def demo3_def demo4_def demo_rows_def sched_init_def
  new_job_def alloc_def NewDbTask_def NewBaseTaskDependency_def Requires_def handler_defs ReadyToRun_def
  IsReadyToRun_def IsCancelling_def IsDone_def IsFailed_def task_UUID_def task_JobID_def OnTaskDone_def
  DependsDone_eq job_IsDone_def upt_rec

lemma demo_reach: "sched_reach sample_env demo4"
proof -
  have r0: "sched_reach sample_env demo0" unfolding demo0_def by (rule sched_reach.start)
  have "sched_step sample_env demo0 demo1"
    by (rule sched_step.submit [where rows = demo_rows and name = "[]" and i = 9 and w = empty_world, OF _ refl])
      (simp_all add: demo0_def demo1_def demo_rows_def linear_rows_def sched_init_def new_job_def)
  with r0 have r1: "sched_reach sample_env demo1" by (rule sched_reach.step)
  have "sched_step sample_env demo1 demo2"
    by (rule sched_step.deliver [where xs = "[]" and ys = "[]" and m = "MsgJob (new_job [] 9 0 demo_rows)"])
      (simp_all add: demo1_def demo2_def)
  with r1 have r2: "sched_reach sample_env demo2" by (rule sched_reach.step)
  have "sched_step sample_env demo2 demo3"
    by (rule sched_step.work [where xs = "[]" and ys = "[]" and r = 0 and w = empty_world
          and t = "sample_task 1 [] DbTaskStatusCompleted"])
      (simp_all add: demo_simps row_step_def)
  with r2 have r3: "sched_reach sample_env demo3" by (rule sched_reach.step)
  have "sched_step sample_env demo3 demo4"
    by (rule sched_step.deliver [where xs = "[]" and ys = "[]" and m = "MsgTask 0"])
      (simp_all add: demo3_def demo4_def)
  with r3 show ?thesis by (rule sched_reach.step)
qed

theorem scheduling_safety_witness:
  "1 \<in> set (js_ready (sc_state demo4)) \<and> \<not> IsDone (js_heap (sc_state demo4) 1) \<and>
   Requires (dt_row (js_heap (sc_state demo4) 1)) = [1] \<and>
   (\<exists>q < sc_next demo4. task_UUID (js_heap (sc_state demo4) q) = 1 \<and> IsDone (js_heap (sc_state demo4) q))"
proof -
  have m: "1 \<in> set (js_ready (sc_state demo4))" and q: "Requires (dt_row (js_heap (sc_state demo4) 1)) = [1]"
    by (simp_all add: demo_simps)
  from scheduling_safety [OF demo_reach m] m q
  show ?thesis by auto
qed

end
