(* ===== verification/Db_Tasks.thy ===== *)
theory Db_Tasks
  imports Job_Schedule
begin

text \<open>
  The worker side of the agent: \<open>DbTaskHandler\<close> and its task actions
  (\<open>internal/handler/db_task\<close>). Each action marks its task running, checks the stage of the
  database, moves the database to the stage it works on, runs its SQL or external command, and
  records the outcome in deferred calls: first the database status, then the task status. The
  deferred calls read the named result, which is nil while a panic unwinds. The lemmas refine the
  actions to a transition function on stage and status, show which actions finish their task on
  every branch, and that a handler call is a worker step of the scheduling relation.
\<close>

named_theorems task_simps \<open>unfolding the task actions\<close>

section \<open>Marking tasks and databases\<close>

text \<open>\<open>task.Status = Running; UpdateTaskStatus(task, q)\<close>, and the same for a database stage.\<close>

definition start_task :: "agent_env \<Rightarrow> bool \<Rightarrow> db_task_row \<Rightarrow> agent_world \<Rightarrow> db_task_row \<times> agent_world" where
  "start_task E qnil t w =
     (case UpdateTaskStatus E qnil (t\<lparr>tk_Status := DbTaskStatusRunning\<rparr>) w of ((t', _), w') \<Rightarrow> (t', w'))"

definition start_db ::
    "agent_env \<Rightarrow> bool \<Rightarrow> DbStage \<Rightarrow> DbStatus \<Rightarrow> db_row \<Rightarrow> agent_world \<Rightarrow> db_row \<times> agent_world" where
  "start_db E qnil stage status d w =
     (case UpdateDbStatus E qnil (d\<lparr>db_Stage := stage, db_Status := status\<rparr>) w of ((d', _), w') \<Rightarrow> (d', w'))"

definition setFinalTaskStatus ::
    "agent_env \<Rightarrow> db_task_row \<Rightarrow> go_error option \<Rightarrow> agent_world \<Rightarrow> db_task_row \<times> agent_world" where
  "setFinalTaskStatus E t err w =
     (let t1 = (case err of
            Some e \<Rightarrow> t\<lparr>tk_Status := DbTaskStatusFailed, tk_Data := (tk_Data t)\<lparr>td_ErrReason := error_text e\<rparr>\<rparr>
          | None \<Rightarrow> t\<lparr>tk_Status := DbTaskStatusCompleted, tk_Data := (tk_Data t)\<lparr>td_ErrReason := []\<rparr>\<rparr>)
      in case UpdateTaskStatus E True t1 w of ((t2, _), w') \<Rightarrow> (t2, w'))"

definition setFinalDbStatus ::
    "agent_env \<Rightarrow> db_row \<Rightarrow> go_error option \<Rightarrow> agent_world \<Rightarrow> db_row \<times> agent_world" where
  "setFinalDbStatus E d err w =
     (let d1 = (case err of
            Some e \<Rightarrow> d\<lparr>db_Status := DbStatus_Failed, db_ErrorMsg := error_text e\<rparr>
          | None \<Rightarrow> d\<lparr>db_Status := DbStatus_Done, db_ErrorMsg := []\<rparr>)
      in case UpdateDbStatus E True d1 w of ((d2, _), w') \<Rightarrow> (d2, w'))"

text \<open>A body between \<open>start_db\<close> and the deferred \<open>setFinalDbStatus\<close>; likewise for the task.\<close>

definition in_stage ::
    "agent_env \<Rightarrow> bool \<Rightarrow> DbStage \<Rightarrow> db_row \<Rightarrow> (agent_world \<Rightarrow> unit outcome \<times> agent_world)
      \<Rightarrow> agent_world \<Rightarrow> unit outcome \<times> agent_world" where
  "in_stage E qnil stage d f w =
     (let (d1, w1) = start_db E qnil stage DbStatus_Processing d w;
          (r, w2) = f w1;
          (d2, w3) = setFinalDbStatus E d1 (outcome_err r) w2
      in (r, w3))"

definition in_task ::
    "agent_env \<Rightarrow> bool \<Rightarrow> db_task_row \<Rightarrow> (agent_world \<Rightarrow> unit outcome \<times> agent_world)
      \<Rightarrow> agent_world \<Rightarrow> (db_task_row \<times> unit outcome) \<times> agent_world" where
  "in_task E qnil t f w =
     (let (t1, w1) = start_task E qnil t w;
          (r, w2) = f w1;
          (t2, w3) = setFinalTaskStatus E t1 (outcome_err r) w2
      in ((t2, r), w3))"

text \<open>\<open>GetDb(task.DbID, nil)\<close>, an error return wrapped by \<open>wrap\<close>, a nil record dereferenced.\<close>

definition with_db ::
    "agent_env \<Rightarrow> (go_error \<Rightarrow> go_error) \<Rightarrow> int \<Rightarrow> (db_row \<Rightarrow> agent_world \<Rightarrow> unit outcome \<times> agent_world)
      \<Rightarrow> agent_world \<Rightarrow> unit outcome \<times> agent_world" where
  "with_db E wrap i f w =
     (case GetDb E True i w of
        (Inl e, w1) \<Rightarrow> (Fail (wrap e), w1)
      | (Inr None, w1) \<Rightarrow> (Panicked, w1)
      | (Inr (Some d), w1) \<Rightarrow> f d w1)"

abbreviation logged_error :: "go_error \<Rightarrow> go_error" where
  "logged_error e \<equiv> AlreadyLogged e ErrorLevel"

section \<open>Creating users and databases\<close>

definition create_user_sql :: "agent_env \<Rightarrow> db_task_row \<Rightarrow> agent_world \<Rightarrow> unit outcome \<times> agent_world" where
  "create_user_sql E t w =
     (case q_IsUserExists E (td_Owner (tk_Data t)) w of
        (res, w1) \<Rightarrow>
          (if (case res of Inl e \<Rightarrow> e \<noteq> ErrNoRows | Inr _ \<Rightarrow> False)
           then (Fail (AlreadyLogged (projl res) WarnLevel), w1)
           else if (case res of Inl _ \<Rightarrow> False | Inr exists \<Rightarrow> exists) then (Ok (), w1)
           else
             (case ext E w1 of
                (Some e, w2) \<Rightarrow> (Fail (AlreadyLogged e WarnLevel), w2)
              | (None, w2) \<Rightarrow>
                  (case run_cmd E (ExecSql (''CREATE USER '' @ td_Owner (tk_Data t) @ '' WITH PASSWORD '' @
                            [CHR 0x27] @ env_escape E (td_Password (tk_Data t)) @ [CHR 0x27])) w2 of
                     (Some e, w3) \<Rightarrow> (Fail e, w3)
                   | (None, w3) \<Rightarrow> (Ok (), w3)))))"

definition createUser ::
    "agent_env \<Rightarrow> db_task_row \<Rightarrow> agent_world \<Rightarrow> (db_task_row \<times> unit outcome) \<times> agent_world" where
  "createUser E t = in_task E True t (with_db E logged_error (tk_DbID t) (\<lambda>d w.
     if \<not> Db_IsNotExist d \<and> db_Stage d \<noteq> DbStage_CreateUser
     then (Fail (logged_error (ErrNew ''db stage is not matching'')), w)
     else in_stage E False DbStage_CreateUser d (create_user_sql E t) w))"

definition CreateUser ::
    "agent_env \<Rightarrow> db_task_row \<Rightarrow> agent_world \<Rightarrow> (db_task_row \<times> unit outcome) \<times> agent_world" where
  "CreateUser E t w = api_Query E (createUser E t) (\<lambda>e. (t, Fail e)) w"

definition create_database_sql :: "agent_env \<Rightarrow> db_task_row \<Rightarrow> agent_world \<Rightarrow> unit outcome \<times> agent_world" where
  "create_database_sql E t w =
     (case run_cmd E (ExecSql (''CREATE DATABASE '' @ tk_DbName t @ '' OWNER '' @ td_Owner (tk_Data t))) w of
        (Some e, w1) \<Rightarrow> (Fail (AlreadyLogged e WarnLevel), w1)
      | (None, w1) \<Rightarrow> (Ok (), w1))"

text \<open>The three early returns come before the task is marked running and the defers are set up.\<close>

definition createDatabase ::
    "agent_env \<Rightarrow> db_task_row \<Rightarrow> agent_world \<Rightarrow> (db_task_row \<times> unit outcome) \<times> agent_world" where
  "createDatabase E t w =
     (case GetDbByName E False (tk_DbName t) w of
        (Inl e, w1) \<Rightarrow> ((t, Fail (logged_error e)), w1)
      | (Inr None, w1) \<Rightarrow> ((t, Panicked), w1)
      | (Inr (Some d), w1) \<Rightarrow>
          if db_Owner d \<noteq> td_Owner (tk_Data t)
          then ((t, Fail (logged_error (ErrNew ''database exists with another owner''))), w1)
          else if \<not> Db_IsNotExist d \<and> db_Stage d \<noteq> DbStage_CreateUser \<and> db_Stage d \<noteq> DbStage_CreateDatabase
          then ((t, Ok ()), w1)
          else in_task E False t (in_stage E False DbStage_CreateDatabase d (create_database_sql E t)) w1)"

definition CreateDatabase ::
    "agent_env \<Rightarrow> db_task_row \<Rightarrow> agent_world \<Rightarrow> (db_task_row \<times> unit outcome) \<times> agent_world" where
  "CreateDatabase E t w = api_Query E (createDatabase E t) (\<lambda>e. (t, Fail e)) w"

section \<open>Backup and restore\<close>

definition filepath_Join :: "string \<Rightarrow> string \<Rightarrow> string" where
  "filepath_Join a b =
     (if a = [] \<and> b = [] then []
      else if a = [] then filepath_Clean b
      else if b = [] then filepath_Clean a
      else filepath_Clean (a @ ''/'' @ b))"

text \<open>The arguments shared by \<open>pg_dump\<close> and \<open>psql\<close>, and the password they read from stdin.\<close>

definition pg_args :: "agent_env \<Rightarrow> string \<Rightarrow> string \<Rightarrow> string \<Rightarrow> string list" where
  "pg_args E host dbName file =
     [''-h'', host, ''-p'', fmt_d (cfg_Port (env_cfg E)), ''-U'', cfg_User (env_cfg E),
      ''-d'', dbName, ''-f'', file]"

definition pg_stdin :: "agent_env \<Rightarrow> string" where
  "pg_stdin E = cfg_Password (env_cfg E) @ [CHR 0x0A]"

definition pg_dump :: "agent_env \<Rightarrow> db_task_row \<Rightarrow> agent_world \<Rightarrow> unit outcome \<times> agent_world" where
  "pg_dump E t w =
     (let root = cfg_BackupRootPath (env_cfg E); path = td_BackupPath (tk_Data t);
          tmp = path @ ''.tmp''
      in case Host (env_cfg E) (Some (td_BackupFrom (tk_Data t))) of
           Panicked \<Rightarrow> (Panicked, w)
         | Fail e \<Rightarrow> (Fail e, w)
         | Ok host \<Rightarrow>
             (case run_cmd E (RunCmd ''pg_dump'' (pg_args E host (tk_DbName t) tmp) root (pg_stdin E)) w of
                (Some e, w1) \<Rightarrow> (Fail e, snd (run_cmd E (RemoveFile (filepath_Join root tmp)) w1))
              | (None, w1) \<Rightarrow>
                  (Ok (), snd (run_cmd E (RenameFile (filepath_Join root tmp) (filepath_Join root path)) w1))))"

definition BackupDb ::
    "agent_env \<Rightarrow> db_task_row \<Rightarrow> agent_world \<Rightarrow> (db_task_row \<times> unit outcome) \<times> agent_world" where
  "BackupDb E t w =
     in_task E True t (with_db E (\<lambda>e. e) (tk_DbID t) (\<lambda>d w.
       let initial = (tk_Action t \<noteq> DbActionDailyBackup) in
       if tk_Action t = DbActionDailyBackup \<and> \<not> Db_IsReadyToUse d
       then (Fail (ErrNew ''db stage is not ready''), w)
       else if initial \<and> \<not> ShouldBackup d
       then (Fail (ErrNew ''can not trigger backup in current db stage''), w)
       else if initial then in_stage E True DbStage_BackupDatabase d (pg_dump E t) w
       else pg_dump E t w))
     (snd (run_cmd E (MkdirAll (BackupDbDir (env_cfg E) (tk_DbName t))) w))"

definition psql_restore :: "agent_env \<Rightarrow> db_task_row \<Rightarrow> agent_world \<Rightarrow> unit outcome \<times> agent_world" where
  "psql_restore E t w =
     (let root = cfg_BackupRootPath (env_cfg E); path = td_BackupPath (tk_Data t)
      in case run_cmd E (StatFile (filepath_Join root path)) w of
           (Some e, w1) \<Rightarrow> (Fail e, w1)
         | (None, w1) \<Rightarrow>
             (case Host (env_cfg E) None of
                Panicked \<Rightarrow> (Panicked, w1)
              | Fail e \<Rightarrow> (Fail e, w1)
              | Ok host \<Rightarrow>
                  (case run_cmd E (RunCmd ''psql'' (pg_args E host (tk_DbName t) path) root (pg_stdin E)) w1 of
                     (Some e, w2) \<Rightarrow> (Fail e, w2)
                   | (None, w2) \<Rightarrow> (Ok (), w2))))"

definition RestoreDb ::
    "agent_env \<Rightarrow> db_task_row \<Rightarrow> agent_world \<Rightarrow> (db_task_row \<times> unit outcome) \<times> agent_world" where
  "RestoreDb E t = in_task E True t (with_db E (\<lambda>e. e) (tk_DbID t) (\<lambda>d w.
     if \<not> CanRestore d then (Fail (ErrNew ''db stage is not ready''), w)
     else in_stage E True DbStage_RestoreDatabase d (psql_restore E t) w))"

section \<open>Waiting and migrating out\<close>

definition WaitReadyDb ::
    "agent_env \<Rightarrow> db_task_row \<Rightarrow> agent_world \<Rightarrow> (db_task_row \<times> unit outcome) \<times> agent_world" where
  "WaitReadyDb E t = in_task E True t (with_db E (\<lambda>e. e) (tk_DbID t) (\<lambda>d w.
     if db_Status d = DbStatus_Done \<and>
        (db_Stage d = DbStage_CreateDatabase \<or> db_Stage d = DbStage_RestoreDatabase)
     then (Ok (), snd (start_db E True DbStage_ReadyToUse (db_Status d) d w))
     else (Fail (ErrNew ''db stage is not ready''), w)))"

definition migrateOut ::
    "agent_env \<Rightarrow> db_task_row \<Rightarrow> agent_world \<Rightarrow> (db_task_row \<times> unit outcome) \<times> agent_world" where
  "migrateOut E t = in_task E False t (with_db E logged_error (tk_DbID t) (\<lambda>d w.
     if \<not> Db_IsReadyToUse d then (Fail (logged_error (ErrNew ''db stage is not ready'')), w)
     else (Ok (), snd (start_db E False DbStage_Idle DbStatus_Done d w))))"

definition MigrateOut ::
    "agent_env \<Rightarrow> db_task_row \<Rightarrow> agent_world \<Rightarrow> (db_task_row \<times> unit outcome) \<times> agent_world" where
  "MigrateOut E t w = api_Query E (migrateOut E t) (\<lambda>e. (t, Fail e)) w"

section \<open>The handler\<close>

fun action_string :: "DbAction \<Rightarrow> string" where
  "action_string DbActionMigrateOut = ''migrate_out''"
| "action_string DbActionCreateUser = ''create_user''"
| "action_string DbActionCreate = ''create''"
| "action_string DbActionBackup = ''backup''"
| "action_string DbActionDailyBackup = ''daily_backup''"
| "action_string DbActionRestore = ''restore''"
| "action_string DbActionWaitReady = ''wait_ready''"
| "action_string DbActionDrop = ''drop''"
| "action_string DbActionZero = ''''"

definition handle ::
    "agent_env \<Rightarrow> db_task_row \<Rightarrow> agent_world \<Rightarrow> (db_task_row \<times> unit outcome) \<times> agent_world" where
  "handle E t w =
     (if tk_Status t = DbTaskStatusCancelling
      then (case UpdateTaskStatus E True (t\<lparr>tk_Status := DbTaskStatusCancelled\<rparr>) w of
              ((t', None), w') \<Rightarrow> ((t', Ok ()), w')
            | ((t', Some e), w') \<Rightarrow> ((t', Fail e), w'))
      else (case tk_Action t of
              DbActionMigrateOut \<Rightarrow> MigrateOut E t w
            | DbActionCreateUser \<Rightarrow> CreateUser E t w
            | DbActionCreate \<Rightarrow> CreateDatabase E t w
            | DbActionBackup \<Rightarrow> BackupDb E t w
            | DbActionRestore \<Rightarrow> RestoreDb E t w
            | DbActionWaitReady \<Rightarrow> WaitReadyDb E t w
            | _ \<Rightarrow> ((t, Fail (ErrNew (''invalid db action '' @ action_string (tk_Action t)))), w)))"

text \<open>
  \<open>Handle\<close> works on the shared task object, then sends it back to the job handler; the list holds
  what it sent. A panic ends the goroutine before the send.
\<close>

definition DbTaskHandler_Handle ::
    "agent_env \<Rightarrow> job_msg \<Rightarrow> job_state \<Rightarrow> unit outcome \<times> job_state \<times> job_msg list" where
  "DbTaskHandler_Handle E m s =
     (case m of
        MsgTask r \<Rightarrow>
          (case handle E (dt_row (js_heap s r)) (js_world s) of
             ((t, res), w) \<Rightarrow>
               (res, s\<lparr>js_heap := (js_heap s)(r := (js_heap s r)\<lparr>dt_row := t\<rparr>), js_world := w\<rparr>,
                if res = Panicked then [] else [MsgTask r]))
      | _ \<Rightarrow> (Fail (ErrNew ''invalid job type''), s, []))"

text \<open>
  Recovery at start-up. A job that is not done is rebuilt from its rows: tasks are allocated, the
  done ones replayed, and the job is sent. The result has the allocation pointer and what was sent.
\<close>

definition recoverJob ::
    "agent_env \<Rightarrow> uuid \<Rightarrow> heap \<times> tref \<Rightarrow> agent_world
      \<Rightarrow> (go_error option \<times> (heap \<times> tref) \<times> job_msg list) \<times> agent_world" where
  "recoverJob E jobID hn w =
     (if jobID = uuid_Nil then ((None, hn, []), w)
      else api_Query E (\<lambda>w1.
        case q_ListDbTasksByJobID E jobID w1 of
          (Inl e, w2) \<Rightarrow> ((if e = ErrNoRows then None else Some e, hn, []), w2)
        | (Inr rows, w2) \<Rightarrow>
            (let (h, n) = hn; h1 = alloc n rows h; j = new_job [] jobID n rows
             in if job_IsDone h1 j then ((None, (h1, n + length rows), []), w2)
                else ((None, (job_Init h1 j, n + length rows), [MsgJob j]), w2)))
        (\<lambda>e. (Some e, hn, [])) w)"

fun recover_loop ::
    "agent_env \<Rightarrow> db_row list \<Rightarrow> heap \<times> tref \<Rightarrow> agent_world
      \<Rightarrow> (go_error option \<times> (heap \<times> tref) \<times> job_msg list) \<times> agent_world" where
  "recover_loop E [] hn w = ((None, hn, []), w)"
| "recover_loop E (d # ds) hn w =
     (case recoverJob E (db_LastJobID d) hn w of
        ((Some e, hn1, ms), w1) \<Rightarrow> ((Some e, hn1, ms), w1)
      | ((None, hn1, ms), w1) \<Rightarrow>
          (case recover_loop E ds hn1 w1 of
             ((e, hn2, ms2), w2) \<Rightarrow> ((e, hn2, ms @ ms2), w2)))"

definition recoverJobs ::
    "agent_env \<Rightarrow> heap \<times> tref \<Rightarrow> agent_world
      \<Rightarrow> (go_error option \<times> (heap \<times> tref) \<times> job_msg list) \<times> agent_world" where
  "recoverJobs E hn w =
     (case ListDbs E True w of
        (Inl e, w1) \<Rightarrow> ((if e = ErrNoRows then None else Some e, hn, []), w1)
      | (Inr dbs, w1) \<Rightarrow> recover_loop E dbs hn w1)"

text \<open>\<open>PostInit\<close>: migrate the schema, then recover; \<open>None\<close> when the migration does not return.\<close>

definition DbTaskHandler_PostInit ::
    "agent_env \<Rightarrow> heap \<times> tref \<Rightarrow> agent_world
      \<Rightarrow> ((go_error option \<times> (heap \<times> tref) \<times> job_msg list) \<times> agent_world) option" where
  "DbTaskHandler_PostInit E hn w =
     (case MigrateDB E w of
        None \<Rightarrow> None
      | Some (Some e, w1) \<Rightarrow> Some ((Some e, hn, []), w1)
      | Some (None, w1) \<Rightarrow> Some (recoverJobs E hn w1))"

section \<open>What an action leaves of its task\<close>

definition same_task :: "db_task_row \<Rightarrow> db_task_row \<Rightarrow> bool" where
  "same_task t t' \<longleftrightarrow> (\<exists>st er u. t' = t\<lparr>tk_Status := st,
     tk_Data := (tk_Data t)\<lparr>td_ErrReason := er\<rparr>, tk_UpdatedAt := u\<rparr>)"

lemma same_taskI [intro, simp]:
  "same_task t (t\<lparr>tk_Status := st, tk_Data := (tk_Data t)\<lparr>td_ErrReason := er\<rparr>, tk_UpdatedAt := u\<rparr>)"
  unfolding same_task_def by blast

lemma same_task_refl [simp]: "same_task t t"
  unfolding same_task_def
  by (rule exI [of _ "tk_Status t"], rule exI [of _ "td_ErrReason (tk_Data t)"], rule exI [of _ "tk_UpdatedAt t"]) simp

lemma same_task_row_step: "same_task t t' \<Longrightarrow> row_step t t'"
  by (auto simp: same_task_def row_step_def)

text \<open>The status and reason the deferred \<open>setFinalTaskStatus\<close> leaves for a result.\<close>

definition finished :: "db_task_row \<Rightarrow> unit outcome \<Rightarrow> bool" where
  "finished t r \<longleftrightarrow> (case r of
       Fail e \<Rightarrow> tk_Status t = DbTaskStatusFailed \<and> td_ErrReason (tk_Data t) = error_text e
     | _ \<Rightarrow> tk_Status t = DbTaskStatusCompleted \<and> td_ErrReason (tk_Data t) = [])"

lemma in_task_finished:
  assumes "in_task E q t f w = ((t', r), w')"
  shows "finished t' r \<and> same_task t t'"
proof -
  define t0 where "t0 = t\<lparr>tk_Status := DbTaskStatusRunning\<rparr>"
  obtain n1 e1 w1 where u1: "UpdateTaskStatus E q t0 w = ((t0\<lparr>tk_UpdatedAt := n1\<rparr>, e1), w1)"
    using UpdateTaskStatus_shape by blast
  obtain r1 w2 where f: "f w1 = (r1, w2)" by (cases "f w1")
  define t1 where "t1 = (case outcome_err r1 of
      Some e \<Rightarrow> t0\<lparr>tk_UpdatedAt := n1, tk_Status := DbTaskStatusFailed, tk_Data := (tk_Data t)\<lparr>td_ErrReason := error_text e\<rparr>\<rparr>
    | None \<Rightarrow> t0\<lparr>tk_UpdatedAt := n1, tk_Status := DbTaskStatusCompleted, tk_Data := (tk_Data t)\<lparr>td_ErrReason := []\<rparr>\<rparr>)"
  obtain n2 e2 w3 where u2: "UpdateTaskStatus E True t1 w2 = ((t1\<lparr>tk_UpdatedAt := n2\<rparr>, e2), w3)"
    using UpdateTaskStatus_shape by blast
  have "t' = t1\<lparr>tk_UpdatedAt := n2\<rparr>" "r = r1"
    using assms u1 f u2
    by (auto simp: in_task_def start_task_def setFinalTaskStatus_def Let_def t0_def t1_def split: option.splits)
  then show ?thesis
    by (cases r1) (simp_all add: finished_def t1_def t0_def)
qed

lemma createUser_finished: "createUser E t w = ((t', r), w') \<Longrightarrow> finished t' r \<and> same_task t t'"
  unfolding createUser_def by (rule in_task_finished)

lemma migrateOut_finished: "migrateOut E t w = ((t', r), w') \<Longrightarrow> finished t' r \<and> same_task t t'"
  unfolding migrateOut_def by (rule in_task_finished)

lemma BackupDb_finished: "BackupDb E t w = ((t', r), w') \<Longrightarrow> finished t' r \<and> same_task t t'"
  unfolding BackupDb_def by (rule in_task_finished)

lemma RestoreDb_finished: "RestoreDb E t w = ((t', r), w') \<Longrightarrow> finished t' r \<and> same_task t t'"
  unfolding RestoreDb_def by (rule in_task_finished)

lemma WaitReadyDb_finished: "WaitReadyDb E t w = ((t', r), w') \<Longrightarrow> finished t' r \<and> same_task t t'"
  unfolding WaitReadyDb_def by (rule in_task_finished)

lemma createDatabase_finished:
  assumes "createDatabase E t w = ((t', r), w')"
  shows "(finished t' r \<and> same_task t t') \<or> t' = t"
proof -
  obtain res w1 where g: "GetDbByName E False (tk_DbName t) w = (res, w1)"
    by (cases "GetDbByName E False (tk_DbName t) w")
  show ?thesis
  proof (cases res)
    case (Inl e)
    with assms g show ?thesis by (simp add: createDatabase_def)
  next
    case (Inr x)
    with assms g show ?thesis
      by (cases x) (auto simp: createDatabase_def dest: in_task_finished split: if_splits)
  qed
qed

lemmas action_finished =
  createUser_finished migrateOut_finished BackupDb_finished RestoreDb_finished WaitReadyDb_finished
  createDatabase_finished

lemma api_Query_cases:
  "api_Query E f g w = p \<Longrightarrow>
     (\<exists>e. env_fault E (w_calls w) = Some e \<and> p = (g e, w\<lparr>w_calls := Suc (w_calls w)\<rparr>)) \<or>
     (env_fault E (w_calls w) = None \<and> f (w\<lparr>w_calls := Suc (w_calls w)\<rparr>) = p)"
  by (auto simp: api_Query_def ext_def split: option.splits)

text \<open>
  Every action that is not \<open>create\<close> finishes its task with its result, unless it gets no connection
  or the action is none it knows; whatever happens the task keeps its identity.
\<close>

lemma handle_finishes:
  assumes h: "handle E t w = ((t', r), w')" and nc: "tk_Status t \<noteq> DbTaskStatusCancelling"
  shows "(finished t' r \<and> same_task t t') \<or>
    (t' = t \<and> (tk_Action t \<in> {DbActionCreate, DbActionDailyBackup, DbActionDrop, DbActionZero} \<or>
      (tk_Action t \<in> {DbActionCreateUser, DbActionMigrateOut} \<and>
       (\<exists>e. env_fault E (w_calls w) = Some e \<and> r = Fail e))))"
proof (cases "tk_Action t")
  case DbActionMigrateOut
  with h nc have "api_Query E (migrateOut E t) (\<lambda>e. (t, Fail e)) w = ((t', r), w')"
    by (simp add: handle_def MigrateOut_def)
  from api_Query_cases [OF this] DbActionMigrateOut show ?thesis
    by (auto dest: migrateOut_finished)
next
  case DbActionCreateUser
  with h nc have "api_Query E (createUser E t) (\<lambda>e. (t, Fail e)) w = ((t', r), w')"
    by (simp add: handle_def CreateUser_def)
  from api_Query_cases [OF this] DbActionCreateUser show ?thesis
    by (auto dest: createUser_finished)
next
  case DbActionCreate
  with h nc have "api_Query E (createDatabase E t) (\<lambda>e. (t, Fail e)) w = ((t', r), w')"
    by (simp add: handle_def CreateDatabase_def)
  from api_Query_cases [OF this] DbActionCreate show ?thesis
    by (auto dest: createDatabase_finished)
qed (use h nc in \<open>auto simp: handle_def dest: action_finished\<close>)

lemma handle_same_task: "handle E t w = ((t', r), w') \<Longrightarrow> same_task t t'"
proof (cases "tk_Status t = DbTaskStatusCancelling")
  case True
  obtain n e w1 where "UpdateTaskStatus E True (t\<lparr>tk_Status := DbTaskStatusCancelled\<rparr>) w =
      ((t\<lparr>tk_Status := DbTaskStatusCancelled, tk_UpdatedAt := n\<rparr>, e), w1)"
    using UpdateTaskStatus_shape [of E True "t\<lparr>tk_Status := DbTaskStatusCancelled\<rparr>" w] by auto
  moreover have "t = t\<lparr>tk_Data := (tk_Data t)\<lparr>td_ErrReason := td_ErrReason (tk_Data t)\<rparr>\<rparr>" by simp
  ultimately show "handle E t w = ((t', r), w') \<Longrightarrow> ?thesis"
    using True unfolding same_task_def handle_def
    by (auto split: option.splits intro!: exI [of _ DbTaskStatusCancelled] exI [of _ "td_ErrReason (tk_Data t)"])
next
  case False
  then show "handle E t w = ((t', r), w') \<Longrightarrow> ?thesis"
    using handle_finishes by fastforce
qed

lemma finished_done: "finished t r \<Longrightarrow> IsDone \<lparr>dt_row = t, dt_dep = d\<rparr>"
  by (auto simp: finished_def IsDone_def split: outcome.splits)

section \<open>Handling a task is a worker step\<close>

lemma Handle_refines_step:
  assumes "js_ready (sc_state s) = xs @ r # ys"
    and "DbTaskHandler_Handle E (MsgTask r) ((sc_state s)\<lparr>js_ready := xs @ ys\<rparr>) = (res, st, ms)"
    and "res \<noteq> Panicked"
  shows "sched_step E s (s\<lparr>sc_state := st, sc_inbox := sc_inbox s @ ms\<rparr>)"
proof -
  obtain t res' w where h: "handle E (dt_row (js_heap (sc_state s) r)) (js_world (sc_state s)) = ((t, res'), w)"
    by (metis surj_pair)
  have "row_step (dt_row (js_heap (sc_state s) r)) t"
    using handle_same_task [OF h] by (rule same_task_row_step)
  then show ?thesis
    by (rule sched_step.work [OF assms(1), where w = w]) (use assms(2,3) h in \<open>auto simp: DbTaskHandler_Handle_def\<close>)
qed

lemma recoverJob_refines_step:
  assumes "recoverJob E i (js_heap (sc_state s), sc_next s) (js_world (sc_state s)) = ((e, (h, n), [MsgJob j]), w)"
    and lin: "linear_rows (filter (\<lambda>r. tk_JobID r = i) (w_tasks (js_world (sc_state s))))"
  shows "sched_step E s (s\<lparr>sc_state := (sc_state s)\<lparr>js_heap := h, js_world := w\<rparr>,
    sc_inbox := sc_inbox s @ [MsgJob j], sc_next := n\<rparr>)"
  using assms(1)
  by (intro sched_step.recover [OF lin refl, where name = "[]" and i = i and w = w])
    (auto simp: recoverJob_def api_Query_def q_ListDbTasksByJobID_def query1_def ext_def Let_def
      split: option.splits if_splits)

section \<open>What the actions keep\<close>

text \<open>The SQL and commands of the actions do not touch the tables.\<close>

lemma create_user_sql_tables: "same_tables w (snd (create_user_sql E t w))"
  by (auto simp: create_user_sql_def q_IsUserExists_def query1_def run_cmd_def ext_def same_tables_def
      split: option.splits sum.splits)

lemma create_database_sql_tables: "same_tables w (snd (create_database_sql E t w))"
  by (auto simp: create_database_sql_def run_cmd_def ext_def same_tables_def split: option.splits)

lemma pg_dump_tables: "same_tables w (snd (pg_dump E t w))"
  by (auto simp: pg_dump_def run_cmd_def ext_def same_tables_def Let_def split: option.splits outcome.splits)

lemma psql_restore_tables: "same_tables w (snd (psql_restore E t w))"
  by (auto simp: psql_restore_def run_cmd_def ext_def same_tables_def Let_def split: option.splits outcome.splits)

lemmas body_tables = create_user_sql_tables create_database_sql_tables pg_dump_tables psql_restore_tables

context world_invariant begin

lemma inv_start_task: "inv w \<Longrightarrow> inv (snd (start_task E q t w))"
  using inv_UpdateTaskStatus[of w q "t\<lparr>tk_Status := DbTaskStatusRunning\<rparr>"]
  by (auto simp: start_task_def split: prod.splits)

lemma inv_setFinalTaskStatus: "inv w \<Longrightarrow> inv (snd (setFinalTaskStatus E t e w))"
  unfolding setFinalTaskStatus_def Let_def using inv_UpdateTaskStatus[of w True] by (simp add: case_prod_unfold)

lemma inv_start_db: "inv w \<Longrightarrow> ok (w_dbs w) d \<Longrightarrow> inv (snd (start_db E q st s d w))"
  using inv_UpdateDbStatus[of w "d\<lparr>db_Stage := st, db_Status := s\<rparr>" q] ok_same[of "w_dbs w" d "d\<lparr>db_Stage := st, db_Status := s\<rparr>"]
  by (auto simp: start_db_def same_job_def same_db_def split: prod.splits)

lemma ok_start_db: "ok (w_dbs w) d \<Longrightarrow> start_db E q st s d w = (d1, w1) \<Longrightarrow> ok (w_dbs w1) d1"
  using ok_UpdateDbStatus[of w "d\<lparr>db_Stage := st, db_Status := s\<rparr>" q] ok_same[of "w_dbs w" d "d\<lparr>db_Stage := st, db_Status := s\<rparr>"]
  by (auto simp: start_db_def same_job_def same_db_def split: prod.splits)

lemma inv_setFinalDbStatus:
  assumes "inv w" and "ok (w_dbs w) d"
  shows "inv (snd (setFinalDbStatus E d e w))"
proof -
  have "inv (snd (UpdateDbStatus E True d' w))" if "same_job d d'" for d'
    using inv_UpdateDbStatus[OF assms(1) ok_same[OF assms(2) that]] .
  then show ?thesis by (auto simp: setFinalDbStatus_def Let_def case_prod_unfold same_job_def same_db_def split: option.split)
qed

lemma inv_with_db:
  assumes "inv w" and "\<And>d w1. inv w1 \<Longrightarrow> ok (w_dbs w1) d \<Longrightarrow> inv (snd (f d w1))"
  shows "inv (snd (with_db E g i f w))"
proof -
  obtain r w1 where g: "GetDb E True i w = (r, w1)" by fastforce
  have "inv w1" using inv_api_ops(1)[OF assms(1), of E True i] g by simp
  then show ?thesis using g assms(2) GetDb_mem[of E True i w _ w1] ok_row
    by (auto simp: with_db_def split: sum.splits option.splits)
qed

lemma inv_in_task:
  "\<lbrakk>inv w; \<And>w1. inv w1 \<Longrightarrow> w_dbs w1 = w_dbs w \<Longrightarrow> inv (snd (f w1))\<rbrakk> \<Longrightarrow> inv (snd (in_task E q t f w))"
  using inv_start_task[of w q t] by (auto simp: in_task_def start_task_def Let_def case_prod_unfold inv_setFinalTaskStatus)

text \<open>The SQL and commands of an action leave the tables alone.\<close>

lemma inv_in_stage:
  assumes "inv w" and "ok (w_dbs w) d" and f: "\<And>w1. same_tables w1 (snd (f w1))"
  shows "inv (snd (in_stage E q st d f w))"
proof -
  obtain d1 w1 where s: "start_db E q st DbStatus_Processing d w = (d1, w1)" by fastforce
  have "inv w1" using inv_start_db[OF assms(1,2), of q st DbStatus_Processing] s by simp
  then have "inv (snd (f w1))" "w_dbs (snd (f w1)) = w_dbs w1" using f[of w1] inv_same by (auto simp: same_tables_def)
  then show ?thesis using s ok_start_db[OF assms(2) s]
    by (simp add: in_stage_def Let_def case_prod_unfold inv_setFinalDbStatus)
qed

lemma inv_body: "inv w \<Longrightarrow> inv (snd (pg_dump E t w))"
  by (rule inv_same[OF pg_dump_tables])

lemma inv_createUser: "inv w \<Longrightarrow> inv (snd (createUser E t w))"
  unfolding createUser_def by (intro inv_in_task inv_with_db) (auto intro!: inv_in_stage body_tables)

lemma inv_migrateOut: "inv w \<Longrightarrow> inv (snd (migrateOut E t w))"
  unfolding migrateOut_def by (intro inv_in_task inv_with_db) (auto intro!: inv_start_db)

lemma inv_BackupDb: "inv w \<Longrightarrow> inv (snd (BackupDb E t w))"
  unfolding BackupDb_def
  by (intro inv_in_task inv_with_db) (auto simp: Let_def intro!: inv_in_stage inv_run_cmd inv_body body_tables)

lemma inv_RestoreDb: "inv w \<Longrightarrow> inv (snd (RestoreDb E t w))"
  unfolding RestoreDb_def by (intro inv_in_task inv_with_db) (auto intro!: inv_in_stage body_tables)

lemma inv_WaitReadyDb: "inv w \<Longrightarrow> inv (snd (WaitReadyDb E t w))"
  unfolding WaitReadyDb_def by (intro inv_in_task inv_with_db) (auto intro!: inv_start_db)

lemma inv_createDatabase:
  assumes "inv w" shows "inv (snd (createDatabase E t w))"
proof -
  obtain r w1 where g: "GetDbByName E False (tk_DbName t) w = (r, w1)" by fastforce
  have "inv w1" using inv_api_ops(2)[OF assms, of E False "tk_DbName t"] g by simp
  then show ?thesis using g GetDbByName_mem[of E False "tk_DbName t" w _ w1] ok_row
    by (auto simp: createDatabase_def split: sum.splits option.splits intro!: inv_in_task inv_in_stage body_tables)
qed

lemma inv_handle:
  assumes "inv w" shows "inv (snd (handle E t w))"
proof -
  have "inv (snd (UpdateTaskStatus E True (t\<lparr>tk_Status := DbTaskStatusCancelled\<rparr>) w))"
    using assms by (rule inv_UpdateTaskStatus)
  then show ?thesis
    using assms
    by (auto simp: handle_def MigrateOut_def CreateUser_def CreateDatabase_def
        split: DbAction.splits prod.splits option.splits
        intro!: inv_api_Query inv_migrateOut inv_createUser inv_createDatabase inv_BackupDb inv_RestoreDb inv_WaitReadyDb)
qed

end

section \<open>The actions as transitions of stage and status\<close>

text \<open>What each action does to the stage and status of its database; \<open>None\<close> when it refuses.\<close>

fun stage_spec :: "DbAction \<Rightarrow> DbStage \<times> DbStatus \<Rightarrow> (DbStage \<times> DbStatus) option" where
  "stage_spec DbActionCreateUser (s, x) =
     (if s \<in> {DbStage_None, DbStage_CreateUser} then Some (DbStage_CreateUser, DbStatus_Done) else None)"
| "stage_spec DbActionCreate (s, x) =
     (if s \<in> {DbStage_None, DbStage_CreateUser, DbStage_CreateDatabase}
      then Some (DbStage_CreateDatabase, DbStatus_Done) else None)"
| "stage_spec DbActionBackup (s, x) =
     (if (s, x) \<in> {(DbStage_CreateDatabase, DbStatus_Done), (DbStage_BackupDatabase, DbStatus_Failed)}
      then Some (DbStage_BackupDatabase, DbStatus_Done) else None)"
| "stage_spec DbActionRestore (s, x) =
     (if x = DbStatus_Done \<and> s \<in> {DbStage_CreateDatabase, DbStage_RestoreDatabase}
      then Some (DbStage_RestoreDatabase, DbStatus_Done) else None)"
| "stage_spec DbActionWaitReady (s, x) =
     (if x = DbStatus_Done \<and> s \<in> {DbStage_CreateDatabase, DbStage_RestoreDatabase}
      then Some (DbStage_ReadyToUse, DbStatus_Done) else None)"
| "stage_spec DbActionMigrateOut (s, x) =
     (if (s, x) = (DbStage_ReadyToUse, DbStatus_Done) then Some (DbStage_Idle, DbStatus_Done) else None)"
| "stage_spec _ sx = None"

text \<open>The abstraction: the stage and status of the database with an id.\<close>

definition stage_of :: "agent_world \<Rightarrow> int \<Rightarrow> (DbStage \<times> DbStatus) option" where
  "stage_of w i = map_option (\<lambda>d. (db_Stage d, db_Status d)) (sel_by db_ID i (w_dbs w))"

text \<open>\<open>d\<close> is the row the table holds under its id.\<close>

definition stored :: "db_row list \<Rightarrow> db_row \<Rightarrow> bool" where
  "stored dbs d \<longleftrightarrow> distinct (map db_ID dbs) \<and> sel_by db_ID (db_ID d) dbs = Some d"

lemma UpdateDbStatus_stored:
  assumes "healthy E" and st: "stored (w_dbs w) d0" and same: "same_db d0 d" "db_UpdatedAt d = db_UpdatedAt d0"
  obtains now w' where "UpdateDbStatus E q d w = ((d\<lparr>db_UpdatedAt := now\<rparr>, None), w')"
    and "stored (w_dbs w') (d\<lparr>db_UpdatedAt := now\<rparr>)" and "w_tasks w' = w_tasks w" and "w_cmds w' = w_cmds w"
    and "\<And>i. i \<noteq> db_ID d \<Longrightarrow> sel_by db_ID i (w_dbs w') = sel_by db_ID i (w_dbs w)"
proof -
  define now where "now = env_now E (stmt_call q w)"
  have cur: "db_current w d"
    using st same by (simp add: db_current_iff stored_def same_db_def)
  have wr: "write_db d now d0 = d\<lparr>db_UpdatedAt := now\<rparr>"
    using same by (cases d; cases d0) (simp add: write_db_def same_db_def)
  have "stored (put_db d now (w_dbs w)) (d\<lparr>db_UpdatedAt := now\<rparr>)"
    using st same wr by (simp add: stored_def tbl_simps same_db_def)
  moreover have "sel_by db_ID i (put_db d now (w_dbs w)) = sel_by db_ID i (w_dbs w)" if "i \<noteq> db_ID d" for i
    using that by (cases "sel_by db_ID i (w_dbs w)") (auto simp: tbl_simps dest: sel_by_key)
  ultimately show thesis
    using UpdateDbStatus_healthy [OF assms(1), of q d w] cur
    by (intro that [of now "snd (UpdateDbStatus E q d w)"]) (simp_all add: now_def)
qed

text \<open>A stage body that leaves the tables alone moves the row to its stage.\<close>

lemma in_stage_stored:
  assumes E: "healthy E" and st: "stored (w_dbs w) d"
    and f: "\<And>w1. same_tables w1 (snd (f w1))" and ok: "\<And>w1. fst (f w1) = Ok ()"
  shows "fst (in_stage E q stage d f w) = Ok () \<and>
    w_tasks (snd (in_stage E q stage d f w)) = w_tasks w \<and>
    (\<exists>d'. stored (w_dbs (snd (in_stage E q stage d f w))) d' \<and> same_db d d' \<and>
       db_Stage d' = stage \<and> db_Status d' = DbStatus_Done)"
proof -
  obtain n1 w1 where u1: "UpdateDbStatus E q (d\<lparr>db_Stage := stage, db_Status := DbStatus_Processing\<rparr>) w =
        ((d\<lparr>db_Stage := stage, db_Status := DbStatus_Processing, db_UpdatedAt := n1\<rparr>, None), w1)"
      "stored (w_dbs w1) (d\<lparr>db_Stage := stage, db_Status := DbStatus_Processing, db_UpdatedAt := n1\<rparr>)"
      "w_tasks w1 = w_tasks w"
    by (rule UpdateDbStatus_stored [OF E st, of "d\<lparr>db_Stage := stage, db_Status := DbStatus_Processing\<rparr>" q])
      (auto simp: same_db_def)
  define d1 where "d1 = d\<lparr>db_Stage := stage, db_Status := DbStatus_Processing, db_UpdatedAt := n1\<rparr>"
  obtain w2 where fw: "f w1 = (Ok (), w2)" using ok [of w1] by (metis prod.collapse)
  have t2: "w_dbs w2 = w_dbs w1" "w_tasks w2 = w_tasks w1"
    using f [of w1] fw by (simp_all add: same_tables_def)
  have st2: "stored (w_dbs w2) d1" using u1(2) t2 by (simp add: d1_def)
  obtain n2 w3 where u2: "UpdateDbStatus E True (d1\<lparr>db_Status := DbStatus_Done, db_ErrorMsg := []\<rparr>) w2 =
        ((d1\<lparr>db_Status := DbStatus_Done, db_ErrorMsg := [], db_UpdatedAt := n2\<rparr>, None), w3)"
      "stored (w_dbs w3) (d1\<lparr>db_Status := DbStatus_Done, db_ErrorMsg := [], db_UpdatedAt := n2\<rparr>)"
      "w_tasks w3 = w_tasks w2"
    by (rule UpdateDbStatus_stored [OF E st2, of "d1\<lparr>db_Status := DbStatus_Done, db_ErrorMsg := []\<rparr>" True])
      (auto simp: same_db_def)
  have "in_stage E q stage d f w = (Ok (), w3)"
    using u1(1) fw u2(1) by (simp add: in_stage_def start_db_def setFinalDbStatus_def d1_def)
  moreover have "same_db d (d1\<lparr>db_Status := DbStatus_Done, db_ErrorMsg := [], db_UpdatedAt := n2\<rparr>)"
    by (simp add: d1_def same_db_def)
  ultimately show ?thesis
    using u1(3) u2 t2 by (auto simp: d1_def)
qed


text \<open>\<open>d\<close> has been moved to stage and status \<open>s\<close>.\<close>

definition moved :: "db_row \<Rightarrow> DbStage \<times> DbStatus \<Rightarrow> db_row list \<Rightarrow> bool" where
  "moved d s dbs \<longleftrightarrow> (\<exists>d'. stored dbs d' \<and> same_db d d' \<and> (db_Stage d', db_Status d') = s)"

lemma moved_stay: "stored dbs d \<Longrightarrow> s = (db_Stage d, db_Status d) \<Longrightarrow> moved d s dbs"
  by (auto simp: moved_def same_db_def)

lemma in_task_via:
  obtains w1 where "w_dbs w1 = w_dbs w" and "snd (fst (in_task E q t f w)) = fst (f w1)"
    and "w_dbs (snd (in_task E q t f w)) = w_dbs (snd (f w1))"
proof (rule that [of "snd (start_task E q t w)"])
  show "w_dbs (snd (start_task E q t w)) = w_dbs w"
    by (simp add: start_task_def case_prod_unfold)
  have "w_dbs (snd (setFinalTaskStatus E u e v)) = w_dbs v" for u e v
    unfolding setFinalTaskStatus_def Let_def by (simp add: case_prod_unfold)
  then show "w_dbs (snd (in_task E q t f w)) = w_dbs (snd (f (snd (start_task E q t w))))"
    by (simp add: in_task_def Let_def case_prod_unfold)
qed (simp add: in_task_def Let_def case_prod_unfold)

lemma with_db_stored:
  assumes "healthy E" and "stored (w_dbs w) d" and "db_ID d = i"
  shows "with_db E g i f w = f d (w\<lparr>w_calls := Suc (Suc (w_calls w))\<rparr>)"
  using assms by (auto simp: with_db_def api_simps stored_def stmt_call_def)

text \<open>The result of an action: nil exactly when it accepts, and no panic.\<close>

definition answers :: "unit outcome \<Rightarrow> bool \<Rightarrow> bool" where
  "answers r b \<longleftrightarrow> (r = Ok () \<longleftrightarrow> b) \<and> r \<noteq> Panicked"

lemma answers_simps [simp]: "answers (Ok ()) b = b" "answers (Fail e) b = (\<not> b)" "\<not> answers Panicked b"
  by (auto simp: answers_def)

lemma action_moves:
  assumes "healthy E" and "stored (w_dbs w) d" and "db_ID d = i"
    and body: "\<And>w1. w_dbs w1 = w_dbs w \<Longrightarrow> moved d s (w_dbs (snd (f d w1))) \<and> answers (fst (f d w1)) b"
  shows "moved d s (w_dbs (snd (in_task E q t (with_db E g i f) w))) \<and>
    answers (snd (fst (in_task E q t (with_db E g i f) w))) (b)"
proof -
  obtain w1 where w1: "w_dbs w1 = w_dbs w"
    and r: "snd (fst (in_task E q t (with_db E g i f) w)) = fst (with_db E g i f w1)"
    "w_dbs (snd (in_task E q t (with_db E g i f) w)) = w_dbs (snd (with_db E g i f w1))"
    by (rule in_task_via)
  have "with_db E g i f w1 = f d (w1\<lparr>w_calls := Suc (Suc (w_calls w1))\<rparr>)"
    using assms(1-3) w1 by (intro with_db_stored) simp_all
  then show ?thesis
    using body [of "w1\<lparr>w_calls := Suc (Suc (w_calls w1))\<rparr>"] w1 r by simp
qed

lemma in_stage_moves:
  assumes "healthy E" and "stored (w_dbs w) d"
    and "\<And>w1. same_tables w1 (snd (f w1))" and "\<And>w1. fst (f w1) = Ok ()"
  shows "moved d (stage, DbStatus_Done) (w_dbs (snd (in_stage E q stage d f w)))"
    and in_stage_ok: "fst (in_stage E q stage d f w) = Ok ()"
  using in_stage_stored [OF assms, of q stage] by (auto simp: moved_def)

lemma start_db_moves:
  assumes "healthy E" and "stored (w_dbs w) d"
  shows "moved d (stage, status) (w_dbs (snd (start_db E q stage status d w)))"
proof -
  obtain n w1 where u: "UpdateDbStatus E q (d\<lparr>db_Stage := stage, db_Status := status\<rparr>) w =
        ((d\<lparr>db_Stage := stage, db_Status := status, db_UpdatedAt := n\<rparr>, None), w1)"
      "stored (w_dbs w1) (d\<lparr>db_Stage := stage, db_Status := status, db_UpdatedAt := n\<rparr>)"
    by (rule UpdateDbStatus_stored [OF assms, of "d\<lparr>db_Stage := stage, db_Status := status\<rparr>" q])
      (auto simp: same_db_def)
  have "same_db d (d\<lparr>db_Stage := stage, db_Status := status, db_UpdatedAt := n\<rparr>)"
    by (simp add: same_db_def)
  with u show ?thesis by (auto simp: start_db_def moved_def)
qed

lemma create_user_sql_ok: "healthy E \<Longrightarrow> fst (create_user_sql E t w) = Ok ()"
  by (auto simp: create_user_sql_def q_IsUserExists_def query1_def api_simps)

lemma create_database_sql_ok: "healthy E \<Longrightarrow> fst (create_database_sql E t w) = Ok ()"
  by (simp add: create_database_sql_def api_simps)

lemma Host_some: "cfg_tmpl c \<noteq> None \<Longrightarrow> \<exists>h. Host c info = Ok h"
  by (auto simp: Host_def Let_def split: option.splits sum.splits)

lemma pg_dump_ok: "healthy E \<Longrightarrow> cfg_tmpl (env_cfg E) \<noteq> None \<Longrightarrow> fst (pg_dump E t w) = Ok ()"
  using Host_some [of "env_cfg E" "Some (td_BackupFrom (tk_Data t))"]
  by (auto simp: pg_dump_def Let_def api_simps)

lemma psql_restore_ok: "healthy E \<Longrightarrow> cfg_tmpl (env_cfg E) \<noteq> None \<Longrightarrow> fst (psql_restore E t w) = Ok ()"
  using Host_some [of "env_cfg E" None] by (auto simp: psql_restore_def Let_def api_simps)

lemmas body_ok = create_user_sql_ok create_database_sql_ok pg_dump_ok psql_restore_ok

definition spec_result :: "DbAction \<Rightarrow> db_row \<Rightarrow> DbStage \<times> DbStatus" where
  "spec_result a d = (case stage_spec a (db_Stage d, db_Status d) of
     None \<Rightarrow> (db_Stage d, db_Status d) | Some s \<Rightarrow> s)"

abbreviation spec_ok :: "DbAction \<Rightarrow> db_row \<Rightarrow> bool" where
  "spec_ok a d \<equiv> stage_spec a (db_Stage d, db_Status d) \<noteq> None"

lemma createUser_spec:
  assumes "healthy E" and "stored (w_dbs w) d" and "db_ID d = tk_DbID t"
  shows "moved d (spec_result DbActionCreateUser d) (w_dbs (snd (createUser E t w))) \<and>
    answers (snd (fst (createUser E t w))) (spec_ok DbActionCreateUser d)"
  unfolding createUser_def using assms
  by (intro action_moves) (auto simp: spec_result_def Db_IsNotExist_def body_ok body_tables in_stage_ok
      intro: moved_stay in_stage_moves)

lemma migrateOut_spec:
  assumes "healthy E" and "stored (w_dbs w) d" and "db_ID d = tk_DbID t"
  shows "moved d (spec_result DbActionMigrateOut d) (w_dbs (snd (migrateOut E t w))) \<and>
    answers (snd (fst (migrateOut E t w))) (spec_ok DbActionMigrateOut d)"
  unfolding migrateOut_def using assms
  by (intro action_moves) (auto simp: spec_result_def Db_IsReadyToUse_def intro: moved_stay start_db_moves)

lemma WaitReadyDb_spec:
  assumes "healthy E" and "stored (w_dbs w) d" and "db_ID d = tk_DbID t"
  shows "moved d (spec_result DbActionWaitReady d) (w_dbs (snd (WaitReadyDb E t w))) \<and>
    answers (snd (fst (WaitReadyDb E t w))) (spec_ok DbActionWaitReady d)"
  unfolding WaitReadyDb_def using assms
  by (intro action_moves) (auto simp: spec_result_def intro: moved_stay start_db_moves)

lemma RestoreDb_spec:
  assumes "healthy E" and "cfg_tmpl (env_cfg E) \<noteq> None" and "stored (w_dbs w) d" and "db_ID d = tk_DbID t"
  shows "moved d (spec_result DbActionRestore d) (w_dbs (snd (RestoreDb E t w))) \<and>
    answers (snd (fst (RestoreDb E t w))) (spec_ok DbActionRestore d)"
  unfolding RestoreDb_def using assms
  by (intro action_moves) (auto simp: spec_result_def CanRestore_def body_ok body_tables in_stage_ok
      intro: moved_stay in_stage_moves)

lemma BackupDb_spec:
  assumes "healthy E" and "cfg_tmpl (env_cfg E) \<noteq> None" and "stored (w_dbs w) d" and "db_ID d = tk_DbID t"
    and "tk_Action t = DbActionBackup"
  shows "moved d (spec_result DbActionBackup d) (w_dbs (snd (BackupDb E t w))) \<and>
    answers (snd (fst (BackupDb E t w))) (spec_ok DbActionBackup d)"
proof -
  define w0 where "w0 = snd (run_cmd E (MkdirAll (BackupDbDir (env_cfg E) (tk_DbName t))) w)"
  have "w_dbs w0 = w_dbs w" by (simp add: w0_def run_cmd_def ext_def)
  with assms show ?thesis
    unfolding BackupDb_def w0_def [symmetric]
    by (intro action_moves) (auto simp: spec_result_def ShouldBackup_def body_ok body_tables in_stage_ok Let_def
        intro: moved_stay in_stage_moves)
qed

lemma createDatabase_spec:
  assumes "healthy E" and "stored (w_dbs w) d" and u: "distinct (map db_Name (w_dbs w))"
    and n: "db_Name d = tk_DbName t" "db_Owner d = td_Owner (tk_Data t)"
  shows "moved d (spec_result DbActionCreate d) (w_dbs (snd (createDatabase E t w)))"
    and "snd (fst (createDatabase E t w)) = Ok ()"
    and "\<not> spec_ok DbActionCreate d \<Longrightarrow> fst (fst (createDatabase E t w)) = t"
    and "spec_ok DbActionCreate d \<Longrightarrow> tk_Status (fst (fst (createDatabase E t w))) = DbTaskStatusCompleted"
proof -
  have "d \<in> set (w_dbs w)" using assms(2) by (auto simp: stored_def dest: sel_by_mem)
  then have sel: "sel_by db_Name (tk_DbName t) (w_dbs w) = Some d"
    using sel_by_unique [OF u] n(1) by metis
  define w0 where "w0 = w\<lparr>w_calls := Suc (w_calls w)\<rparr>"
  define run where "run = in_task E False t (in_stage E False DbStage_CreateDatabase d (create_database_sql E t)) w0"
  have g: "createDatabase E t w = (if spec_ok DbActionCreate d then run else ((t, Ok ()), w0))"
    using assms(1) sel n
    by (simp add: createDatabase_def api_simps stmt_call_def Db_IsNotExist_def run_def w0_def)
  obtain w1 where w1: "w_dbs w1 = w_dbs w0"
    and r: "snd (fst run) = fst (in_stage E False DbStage_CreateDatabase d (create_database_sql E t) w1)"
      "w_dbs (snd run) = w_dbs (snd (in_stage E False DbStage_CreateDatabase d (create_database_sql E t) w1))"
    unfolding run_def by (rule in_task_via)
  have st1: "stored (w_dbs w1) d" using assms(2) w1 by (simp add: w0_def)
  note m = in_stage_moves [OF assms(1) st1 body_tables(2) create_database_sql_ok [OF assms(1)]]
  have rok: "snd (fst run) = Ok ()" using m r by simp
  show "moved d (spec_result DbActionCreate d) (w_dbs (snd (createDatabase E t w)))"
    using m(1) [where q = False and stage = DbStage_CreateDatabase] r(2) assms(2)
    by (auto simp: g spec_result_def w0_def intro: moved_stay)
  show "snd (fst (createDatabase E t w)) = Ok ()" using rok by (simp add: g)
  show "\<not> spec_ok DbActionCreate d \<Longrightarrow> fst (fst (createDatabase E t w)) = t" by (simp add: g)
  have "finished (fst (fst run)) (snd (fst run))"
    using in_task_finished [of E False t _ w0] unfolding run_def by (metis prod.collapse)
  then show "spec_ok DbActionCreate d \<Longrightarrow> tk_Status (fst (fst (createDatabase E t w))) = DbTaskStatusCompleted"
    using rok by (simp add: g finished_def)
qed


text \<open>\<open>handle\<close> of a task that is pending or running, by its action; \<open>w0\<close> is the world inside the transaction.\<close>

lemma handle_by_action:
  fixes w :: agent_world
  assumes "healthy E" and "tk_Status t \<in> {DbTaskStatusPending, DbTaskStatusRunning}"
  defines "w0 \<equiv> w\<lparr>w_calls := Suc (w_calls w)\<rparr>"
  shows "handle E t w = (case tk_Action t of
      DbActionMigrateOut \<Rightarrow> migrateOut E t w0 | DbActionCreateUser \<Rightarrow> createUser E t w0
    | DbActionCreate \<Rightarrow> createDatabase E t w0 | DbActionBackup \<Rightarrow> BackupDb E t w
    | DbActionRestore \<Rightarrow> RestoreDb E t w | DbActionWaitReady \<Rightarrow> WaitReadyDb E t w
    | _ \<Rightarrow> ((t, Fail (ErrNew (''invalid db action '' @ action_string (tk_Action t)))), w))"
proof -
  have q: "api_Query E f g w = f w0" for f :: "agent_world \<Rightarrow> 'x \<times> agent_world" and g
    using assms(1) by (simp add: api_Query_def api_simps w0_def)
  show ?thesis
    using assms(2) by (auto simp: handle_def MigrateOut_def CreateUser_def CreateDatabase_def q split: DbAction.split)
qed

lemma completed_answers:
  assumes "P \<and> answers (snd (fst R)) b" and "\<And>t' r w'. R = ((t', r), w') \<Longrightarrow> finished t' r \<and> same_task t t'"
  shows "tk_Status (fst (fst R)) = DbTaskStatusCompleted \<longleftrightarrow> b"
  using assms(1) assms(2) [of "fst (fst R)" "snd (fst R)" "snd R"] by (auto simp: finished_def split: outcome.splits)

lemma handle_moves:
  assumes "healthy E" and "cfg_tmpl (env_cfg E) \<noteq> None" and "wf_world w"
    and "sel_by db_ID (tk_DbID t) (w_dbs w) = Some d"
    and "db_Name d = tk_DbName t" and "tk_Action t = DbActionCreate \<Longrightarrow> db_Owner d = td_Owner (tk_Data t)"
    and "tk_Status t \<in> {DbTaskStatusPending, DbTaskStatusRunning}"
  shows "moved d (spec_result (tk_Action t) d) (w_dbs (snd (handle E t w)))"
    and "tk_Status (fst (fst (handle E t w))) = DbTaskStatusCompleted \<longleftrightarrow> spec_ok (tk_Action t) d"
    and "snd (fst (handle E t w)) \<noteq> Panicked"
proof -
  have i: "db_ID d = tk_DbID t" using sel_by_key [OF assms(4)] .
  have st: "stored (w_dbs w) d" and un: "distinct (map db_Name (w_dbs w))"
    using assms(3,4) i by (simp_all add: stored_def wf_world_def wf_tables_def)
  define w0 where "w0 = w\<lparr>w_calls := Suc (w_calls w)\<rparr>"
  have st0: "stored (w_dbs w0) d" and un0: "distinct (map db_Name (w_dbs w0))"
    using st un by (simp_all add: w0_def)
  note h = handle_by_action [OF assms(1,7), where w = w, folded w0_def]
  show "moved d (spec_result (tk_Action t) d) (w_dbs (snd (handle E t w)))"
    using migrateOut_spec [OF assms(1) st0 i] createUser_spec [OF assms(1) st0 i]
      createDatabase_spec(1) [OF assms(1) st0 un0 assms(5)] BackupDb_spec [OF assms(1,2) st i]
      RestoreDb_spec [OF assms(1,2) st i] WaitReadyDb_spec [OF assms(1) st i] assms(6) moved_stay [OF st]
    unfolding h by (cases "tk_Action t") (auto simp: spec_result_def)
  show "tk_Status (fst (fst (handle E t w))) = DbTaskStatusCompleted \<longleftrightarrow> spec_ok (tk_Action t) d"
  proof (cases "tk_Action t")
    case DbActionMigrateOut
    with completed_answers [OF migrateOut_spec [OF assms(1) st0 i] migrateOut_finished] show ?thesis by (simp add: h)
  next
    case DbActionCreateUser
    with completed_answers [OF createUser_spec [OF assms(1) st0 i] createUser_finished] show ?thesis by (simp add: h)
  next
    case DbActionBackup
    with completed_answers [OF BackupDb_spec [OF assms(1,2) st i] BackupDb_finished] show ?thesis by (simp add: h)
  next
    case DbActionRestore
    with completed_answers [OF RestoreDb_spec [OF assms(1,2) st i] RestoreDb_finished] show ?thesis by (simp add: h)
  next
    case DbActionWaitReady
    with completed_answers [OF WaitReadyDb_spec [OF assms(1) st i] WaitReadyDb_finished] show ?thesis by (simp add: h)
  next
    case DbActionCreate
    with createDatabase_spec(3,4) [OF assms(1) st0 un0 assms(5)] assms(6,7) show ?thesis
      unfolding h by auto
  qed (use assms(7) in \<open>auto simp: h\<close>)
  show "snd (fst (handle E t w)) \<noteq> Panicked"
    using migrateOut_spec [OF assms(1) st0 i] createUser_spec [OF assms(1) st0 i]
      createDatabase_spec(2) [OF assms(1) st0 un0 assms(5)] BackupDb_spec [OF assms(1,2) st i]
      RestoreDb_spec [OF assms(1,2) st i] WaitReadyDb_spec [OF assms(1) st i] assms(6)
    unfolding h by (cases "tk_Action t") (auto simp: answers_def)
qed

section \<open>Properties\<close>


text \<open>A database of each stage for the witnesses, and a task for it.\<close>

definition sample_db :: "DbStage \<Rightarrow> DbStatus \<Rightarrow> db_row" where
  "sample_db s x = \<lparr>db_ID = 1, db_Name = ''app'', db_Owner = ''joe'', db_CreatedAt = 0, db_UpdatedAt = 0,
     db_ExpiredAt = None, db_MigrateFrom = [], db_MigrateTo = [], db_Status = x, db_Stage = s,
     db_ErrorMsg = [], db_LastJobID = uuid_Nil\<rparr>"

definition sample_action :: "DbAction \<Rightarrow> db_task_row" where
  "sample_action a = (sample_task 5 [] DbTaskStatusPending)\<lparr>tk_Action := a, tk_DbName := ''app'',
     tk_Data := zero_task_data\<lparr>td_Owner := ''joe'', td_BackupPath := ''pg-16/app/now.sql''\<rparr>\<rparr>"

definition sample_world :: "db_row \<Rightarrow> db_task_row \<Rightarrow> agent_world" where
  "sample_world d t = empty_world\<lparr>w_dbs := [d], w_tasks := [t], w_next_id := 2\<rparr>"

lemmas sample_defs = sample_db_def sample_action_def sample_world_def sample_task_def zero_task_def
  zero_task_data_def empty_world_def


end
