(* ===== verification/Agent_Requests.thy ===== *)
theory Agent_Requests
  imports Db_Tasks
begin

text \<open>
  What the agent does with a job it receives from the server: \<open>GrpcAgentHandler\<close>
  (\<open>internal/handler/grpc_agent/handler.go\<close>) and its two requests, \<open>CreateDatabaseRequest\<close> and
  \<open>MigrateOutDatabaseRequest\<close>. A request runs in a transaction, creates the rows of its tasks, and
  sends the job to the job handler. The result of a request is the job it sent, if any: its name,
  id and task rows (the first task of a create job carries the password, which the table does not).
\<close>

type_synonym sent_job = "string \<times> uuid \<times> db_task_row list"

section \<open>Messages\<close>

record create_database_job =
  cj_Name :: string
  cj_Reason :: string
  cj_Owner :: string
  cj_Password :: string
  cj_MigrateFrom :: string
  cj_BackupPath :: string

text \<open>\<open>ExpiredAt\<close> is \<open>None\<close> when it is nil or not a valid timestamp.\<close>

record migrate_out_job =
  mj_Name :: string
  mj_Reason :: string
  mj_MigrateTo :: string
  mj_ExpiredAt :: "time option"

datatype db_job_kind = DbJob_CreateDatabase create_database_job | DbJob_MigrateOutDatabase migrate_out_job
  | DbJob_Unset

record db_job =
  dj_JobId :: string
  dj_Job :: db_job_kind

section \<open>CreateDatabaseRequest\<close>

record create_request =
  cr_Job :: create_database_job
  cr_JobId :: uuid

definition NewCreateDatabaseRequest ::
    "(string \<Rightarrow> uuid option) \<Rightarrow> string \<Rightarrow> create_database_job \<Rightarrow> create_request" where
  "NewCreateDatabaseRequest uuid_parse jobId j = \<lparr>cr_Job = j, cr_JobId = StringToUuid uuid_parse jobId\<rparr>"

definition create_validate :: "agent_env \<Rightarrow> create_request \<Rightarrow> go_error option" where
  "create_validate E r =
     (if IsReservedName (env_cfg E) (cj_Name (cr_Job r))
      then Some (ErrNew ''the database name is Reserved'') else None)"

text \<open>\<open>uuid.New()\<close>.\<close>

definition new_uuid :: "agent_env \<Rightarrow> agent_world \<Rightarrow> uuid \<times> agent_world" where
  "new_uuid E w = (env_uuid E (w_calls w), w\<lparr>w_calls := Suc (w_calls w)\<rparr>)"

text \<open>
  The tasks after the first: each is created from the same parameters with its own action and a
  dependency on the last task of the job so far.
\<close>

definition add_task ::
    "agent_env \<Rightarrow> create_task_params \<Rightarrow> DbAction \<Rightarrow> db_task_row list \<Rightarrow> agent_world
      \<Rightarrow> (go_error + db_task_row list) \<times> agent_world" where
  "add_task E p a tasks w =
     (case CreateDbTask E False
             (p\<lparr>cp_Action := a, cp_Data := (cp_Data p)\<lparr>td_DependsOn := [tk_ID (last tasks)]\<rparr>\<rparr>) w of
        (Inl e, w1) \<Rightarrow> (Inl e, w1)
      | (Inr t, w1) \<Rightarrow> (Inr (tasks @ [t]), w1))"

fun add_tasks ::
    "agent_env \<Rightarrow> create_task_params \<Rightarrow> DbAction list \<Rightarrow> db_task_row list \<Rightarrow> agent_world
      \<Rightarrow> (go_error + db_task_row list) \<times> agent_world" where
  "add_tasks E p [] tasks w = (Inr tasks, w)"
| "add_tasks E p (a # as) tasks w =
     (case add_task E p a tasks w of
        (Inl e, w1) \<Rightarrow> (Inl e, w1)
      | (Inr tasks', w1) \<Rightarrow> add_tasks E p as tasks' w1)"

definition create_actions :: "create_database_job \<Rightarrow> DbAction list" where
  "create_actions j =
     [DbActionCreate] @
     (if cj_MigrateFrom j \<noteq> [] then [DbActionBackup] else []) @
     (if cj_MigrateFrom j \<noteq> [] \<or> cj_BackupPath j \<noteq> [] then [DbActionRestore] else []) @
     [DbActionWaitReady]"

definition create_params :: "agent_env \<Rightarrow> create_database_job \<Rightarrow> uuid \<Rightarrow> db_row \<Rightarrow> agent_world \<Rightarrow> create_task_params" where
  "create_params E j jobId d w =
     \<lparr>cp_JobID = jobId, cp_DbID = db_ID d, cp_DbName = db_Name d, cp_Action = DbActionCreateUser,
      cp_Reason = cj_Reason j, cp_Status = DbTaskStatusPending,
      cp_Data = zero_task_data\<lparr>td_Owner := cj_Owner j, td_BackupFrom := cj_MigrateFrom j,
        td_BackupPath := NewBackupFile (env_format_time E) (env_cfg E) (env_now E (w_calls w)) (cj_Name j)\<rparr>\<rparr>"

text \<open>The first half of \<open>process\<close>: the record of the name, made if there is none.\<close>

definition create_record ::
    "agent_env \<Rightarrow> create_database_job \<Rightarrow> agent_world \<Rightarrow> (go_error + db_row option) \<times> agent_world" where
  "create_record E j w =
     (case GetDbByName E False (cj_Name j) w of (res, w1) \<Rightarrow>
        if (case res of Inl e \<Rightarrow> e \<noteq> ErrNoRows | Inr _ \<Rightarrow> False)
        then (Inl (AlreadyLogged (projl res) WarnLevel), w1)
        else (case res of
                Inr (Some d) \<Rightarrow> (Inr (Some d), w1)
              | _ \<Rightarrow> CreateDb E False (cj_Name j) (cj_Owner j) w1))"

text \<open>
  The second half: the tasks of the job. As for the whole function given to \<open>QueryWithRollback\<close>,
  the result is whether it committed, what it returned, and the world.
\<close>

definition create_tasks ::
    "agent_env \<Rightarrow> create_request \<Rightarrow> db_row \<Rightarrow> agent_world \<Rightarrow> bool \<times> sent_job option outcome \<times> agent_world" where
  "create_tasks E r d w2 =
     (let j = cr_Job r;
          (jobId, w3) = (if cr_JobId r = uuid_Nil then new_uuid E w2 else (cr_JobId r, w2));
          p = create_params E j jobId d w3
      in case CreateDbTask E False p w3 of
           (Inl e, w4) \<Rightarrow> (False, Fail e, w4)
         | (Inr t, w4) \<Rightarrow>
             (case add_tasks E p (create_actions j)
                     [t\<lparr>tk_Data := (tk_Data t)\<lparr>td_Password := cj_Password j\<rparr>\<rparr>] w4 of
                (Inl e, w5) \<Rightarrow> (False, Fail e, w5)
              | (Inr tasks, w5) \<Rightarrow>
                  (case tx_Commit E w5 of
                     (c, w6) \<Rightarrow> (c, Ok (Some (''CreateDatabase-'' @ cj_Name j, jobId, tasks)), w6))))"

definition create_process ::
    "agent_env \<Rightarrow> create_request \<Rightarrow> agent_world \<Rightarrow> bool \<times> sent_job option outcome \<times> agent_world" where
  "create_process E r w =
     (case create_record E (cr_Job r) w of
        (Inl e, w2) \<Rightarrow> (False, Fail e, w2)
      | (Inr None, w2) \<Rightarrow> (False, Panicked, w2)
      | (Inr (Some d), w2) \<Rightarrow>
          if \<not> Db_IsNotExist d \<and> cr_JobId r \<noteq> uuid_Nil \<and> cr_JobId r = db_LastJobID d
          then (False, Ok None, w2)
          else create_tasks E r d w2)"

definition create_Process ::
    "agent_env \<Rightarrow> create_request \<Rightarrow> agent_world \<Rightarrow> sent_job option outcome \<times> agent_world" where
  "create_Process E r w =
     (case create_validate E r of
        Some e \<Rightarrow> (Fail e, w)
      | None \<Rightarrow> api_QueryWithRollback E (create_process E r) w)"

section \<open>MigrateOutDatabaseRequest\<close>

record migrate_request =
  mr_Job :: migrate_out_job
  mr_JobId :: uuid

definition NewMigrateOutDatabaseRequest ::
    "(string \<Rightarrow> uuid option) \<Rightarrow> string \<Rightarrow> migrate_out_job \<Rightarrow> migrate_request" where
  "NewMigrateOutDatabaseRequest uuid_parse jobId j = \<lparr>mr_Job = j, mr_JobId = StringToUuid uuid_parse jobId\<rparr>"

text \<open>
  A name without a record leaves \<open>database\<close> nil, and its method call panics. The error of
  \<open>q.CreateDbTask\<close> is not looked at: the job then has the zero task.
\<close>

definition migrate_process ::
    "agent_env \<Rightarrow> migrate_request \<Rightarrow> agent_world \<Rightarrow> bool \<times> sent_job option outcome \<times> agent_world" where
  "migrate_process E r w =
     (let j = mr_Job r in
      case GetDbByName E False (mj_Name j) w of
        (Inl e, w1) \<Rightarrow>
          if e \<noteq> ErrNoRows then (False, Fail (AlreadyLogged e WarnLevel), w1) else (False, Panicked, w1)
      | (Inr None, w1) \<Rightarrow> (False, Panicked, w1)
      | (Inr (Some d), w1) \<Rightarrow>
          if Db_IsNotExist d then (False, Ok None, NotifyDbStatusChanged E d w1)
          else if mr_JobId r \<noteq> uuid_Nil \<and> mr_JobId r = db_LastJobID d then (False, Ok None, w1)
          else if Db_IsAlreadyIdle d then (False, Ok None, NotifyDbStatusChanged E d w1)
          else if \<not> Db_IsReadyToUse d
          then (False, Fail (ErrNew ''database is not in ready stage, can not migrate out''),
                NotifyDbStatusChanged E d w1)
          else
            (let (jobId, w2) = new_uuid E w1;
                 d1 = d\<lparr>db_LastJobID := jobId, db_Stage := DbStage_Idle, db_Status := DbStatus_Processing,
                        db_MigrateTo := mj_MigrateTo j,
                        db_ExpiredAt := (case mj_ExpiredAt j of None \<Rightarrow> db_ExpiredAt d | Some t \<Rightarrow> Some t)\<rparr>;
                 w3 = snd (UpdateDbStatus E False d1 w2);
                 p = \<lparr>cp_JobID = jobId, cp_DbID = db_ID d, cp_DbName = db_Name d,
                      cp_Action = DbActionMigrateOut, cp_Reason = mj_Reason j,
                      cp_Status = DbTaskStatusPending, cp_Data = zero_task_data\<rparr>;
                 (res, w4) = q_CreateDbTask E p w3;
                 t = (case res of Inl e \<Rightarrow> zero_task | Inr t \<Rightarrow> t);
                 (c, w5) = tx_Commit E w4
             in (c, Ok (Some ([], jobId, [t])), w5)))"

definition migrate_Process ::
    "agent_env \<Rightarrow> migrate_request \<Rightarrow> agent_world \<Rightarrow> sent_job option outcome \<times> agent_world" where
  "migrate_Process E r w = api_QueryWithRollback E (migrate_process E r) w"

section \<open>GrpcAgentHandler\<close>

definition GrpcAgentHandler_handle ::
    "(string \<Rightarrow> uuid option) \<Rightarrow> agent_env \<Rightarrow> db_job \<Rightarrow> agent_world \<Rightarrow> sent_job option outcome \<times> agent_world" where
  "GrpcAgentHandler_handle uuid_parse E task w =
     (case dj_Job task of
        DbJob_CreateDatabase j \<Rightarrow> create_Process E (NewCreateDatabaseRequest uuid_parse (dj_JobId task) j) w
      | DbJob_MigrateOutDatabase j \<Rightarrow> migrate_Process E (NewMigrateOutDatabaseRequest uuid_parse (dj_JobId task) j) w
      | DbJob_Unset \<Rightarrow> (Ok None, w))"

section \<open>The tasks of a job\<close>

text \<open>Each task depends on exactly the one before it.\<close>

fun chain_from :: "uuid \<Rightarrow> db_task_row list \<Rightarrow> bool" where
  "chain_from u [] = True"
| "chain_from u (t # ts) = (td_DependsOn (tk_Data t) = [u] \<and> chain_from (tk_ID t) ts)"

fun chain_rows :: "db_task_row list \<Rightarrow> bool" where
  "chain_rows [] = False"
| "chain_rows (t # ts) = (td_DependsOn (tk_Data t) = [] \<and> chain_from (tk_ID t) ts)"

lemma chain_from_linear: "chain_from u ts \<Longrightarrow> linear_rows ts"
  by (induction ts arbitrary: u) (auto simp: linear_rows_def)

lemma chain_rows_linear: "chain_rows ts \<Longrightarrow> linear_rows ts"
  using chain_from_linear by (cases ts) (fastforce simp: linear_rows_def)+

text \<open>The fields a task takes over from the parameters it is created with.\<close>

definition from_params :: "create_task_params \<Rightarrow> db_task_row \<Rightarrow> bool" where
  "from_params p t \<longleftrightarrow> tk_JobID t = cp_JobID p \<and> tk_DbID t = cp_DbID p \<and> tk_DbName t = cp_DbName p \<and>
     tk_Status t = cp_Status p \<and> td_Owner (tk_Data t) = td_Owner (cp_Data p)"

text \<open>The tables after the rows \<open>ts\<close> were inserted.\<close>

definition inserted :: "db_task_row list \<Rightarrow> agent_world \<Rightarrow> agent_world \<Rightarrow> bool" where
  "inserted ts w w' \<longleftrightarrow> w_tasks w' = w_tasks w @ ts \<and> w_dbs w' = w_dbs w \<and> w_next_id w' = w_next_id w \<and>
     distinct (map tk_ID ts) \<and> tk_ID ` set ts \<inter> tk_ID ` set (w_tasks w) = {}"

lemma inserted_Cons:
  "inserted [t] w w1 \<Longrightarrow> inserted ts w1 w2 \<Longrightarrow> inserted (t # ts) w w2"
  by (auto simp: inserted_def)

lemma q_CreateDbTask_ok:
  assumes "q_CreateDbTask E p w = (Inr t, w')"
  shows "inserted [t] w w'" and "from_params p t" and "tk_Action t = cp_Action p"
    and "tk_Data t = stored_data (cp_Data p)"
  using assms
  by (auto simp: q_CreateDbTask_def query1_def ext_def Let_def inserted_def from_params_def stored_data_def
      split: option.splits if_splits)

lemma q_CreateDbTask_fail: "q_CreateDbTask E p w = (Inl e, w') \<Longrightarrow> inserted [] w w'"
  by (auto simp: q_CreateDbTask_def query1_def ext_def Let_def inserted_def split: option.splits if_splits)

lemma CreateDbTask_q:
  "CreateDbTask E False p w = (Inr t, w') \<longleftrightarrow> q_CreateDbTask E p w = (Inr t, w')"
  by (auto simp: CreateDbTask_def split: prod.splits sum.splits)

lemma add_tasks_ok:
  assumes "add_tasks E p as tasks w = (Inr tasks', w')"
  shows "\<exists>ts. tasks' = tasks @ ts \<and> chain_from (tk_ID (last tasks)) ts \<and> map tk_Action ts = as \<and>
    inserted ts w w' \<and> (\<forall>t \<in> set ts. from_params p t)"
  using assms
proof (induction as arbitrary: tasks w)
  case Nil
  then show ?case by (auto simp: inserted_def)
next
  case (Cons a as)
  from Cons.prems obtain t1 w1 where add: "add_task E p a tasks w = (Inr t1, w1)"
    and rest: "add_tasks E p as t1 w1 = (Inr tasks', w')"
    by (auto split: prod.splits sum.splits)
  define pa where "pa = p\<lparr>cp_Action := a, cp_Data := (cp_Data p)\<lparr>td_DependsOn := [tk_ID (last tasks)]\<rparr>\<rparr>"
  obtain t where q: "q_CreateDbTask E pa w = (Inr t, w1)" and t1: "t1 = tasks @ [t]"
    using add by (auto simp: add_task_def pa_def CreateDbTask_q split: prod.splits sum.splits)
  note t = q_CreateDbTask_ok [OF q]
  have d: "td_DependsOn (tk_Data t) = [tk_ID (last tasks)]" "from_params p t" "tk_Action t = a"
    using t by (auto simp: pa_def from_params_def stored_data_def)
  obtain ts where "tasks' = t1 @ ts" "chain_from (tk_ID (last t1)) ts" "map tk_Action ts = as"
    "inserted ts w1 w'" "\<forall>t \<in> set ts. from_params p t"
    using Cons.IH [OF rest] by blast
  with d t1 inserted_Cons [OF t(1)] show ?case
    by (intro exI [of _ "t # ts"]) simp
qed

definition create_rows_of :: "create_database_job \<Rightarrow> uuid \<Rightarrow> db_row \<Rightarrow> db_task_row list \<Rightarrow> bool" where
  "create_rows_of j i d rows \<longleftrightarrow> chain_rows rows \<and> distinct (map tk_ID rows) \<and>
     map tk_Action rows = DbActionCreateUser # create_actions j \<and>
     (\<forall>t \<in> set rows. tk_JobID t = i \<and> tk_Status t = DbTaskStatusPending \<and> tk_DbID t = db_ID d \<and>
        tk_DbName t = db_Name d \<and> td_Owner (tk_Data t) = cj_Owner j)"

lemma tx_Commit_tables [simp]:
  "w_dbs (snd (tx_Commit E w)) = w_dbs w" "w_tasks (snd (tx_Commit E w)) = w_tasks w"
  by (auto simp: tx_Commit_def ext_def split: option.splits)

lemma create_tasks_sent:
  assumes "create_tasks E r d w = (c, Ok (Some (n, i, rows)), w')"
  shows "create_rows_of (cr_Job r) i d rows" and "w_dbs w' = w_dbs w"
    and "\<exists>t ts. w_tasks w' = w_tasks w @ t # ts \<and>
           rows = t\<lparr>tk_Data := (tk_Data t)\<lparr>td_Password := cj_Password (cr_Job r)\<rparr>\<rparr> # ts"
    and "n = ''CreateDatabase-'' @ cj_Name (cr_Job r)"
    and "i = (if cr_JobId r = uuid_Nil then fst (new_uuid E w) else cr_JobId r)"
proof -
  define j where "j = cr_Job r"
  obtain jobId w3 where i: "(if cr_JobId r = uuid_Nil then new_uuid E w else (cr_JobId r, w)) = (jobId, w3)"
    by (metis surj_pair)
  have w3: "w_tasks w3 = w_tasks w" "w_dbs w3 = w_dbs w" "w_next_id w3 = w_next_id w"
    and ji: "jobId = (if cr_JobId r = uuid_Nil then fst (new_uuid E w) else cr_JobId r)"
    using i by (auto simp: new_uuid_def split: if_splits)
  define p where "p = create_params E j jobId d w3"
  from assms i obtain t w4 where q: "q_CreateDbTask E p w3 = (Inr t, w4)"
    by (auto simp: create_tasks_def Let_def p_def j_def CreateDbTask_q split: prod.splits sum.splits)
  define t1 where "t1 = t\<lparr>tk_Data := (tk_Data t)\<lparr>td_Password := cj_Password j\<rparr>\<rparr>"
  obtain w5 where a: "add_tasks E p (create_actions j) [t1] w4 = (Inr rows, w5)"
    and n: "n = ''CreateDatabase-'' @ cj_Name j" "i = jobId" and w': "w' = snd (tx_Commit E w5)"
    using assms i q CreateDbTask_q [of E p w3 t w4]
    unfolding create_tasks_def Let_def j_def [symmetric] t1_def
    by (auto simp: p_def split: prod.splits sum.splits)
  obtain ts where ts: "rows = t1 # ts" "chain_from (tk_ID t) ts" "map tk_Action ts = create_actions j"
    "inserted ts w4 w5" "\<forall>t \<in> set ts. from_params p t"
    using add_tasks_ok [OF a] by (auto simp: t1_def)
  note t = q_CreateDbTask_ok [OF q]
  have ins: "inserted (t # ts) w3 w5" using t(1) ts(4) by (rule inserted_Cons)
  have t1: "from_params p t1" "tk_ID t1 = tk_ID t" "tk_Action t1 = DbActionCreateUser"
    "td_DependsOn (tk_Data t1) = []"
    using t by (auto simp: t1_def from_params_def p_def create_params_def stored_data_def zero_task_data_def)
  have "\<forall>t \<in> set rows. from_params p t" using t1 ts by simp
  then show "create_rows_of (cr_Job r) i d rows"
    using ts t1 ins n by (auto simp: create_rows_of_def inserted_def from_params_def p_def create_params_def j_def)
  show "w_dbs w' = w_dbs w" using w' ins w3 by (simp add: inserted_def)
  show "\<exists>t ts. w_tasks w' = w_tasks w @ t # ts \<and>
      rows = t\<lparr>tk_Data := (tk_Data t)\<lparr>td_Password := cj_Password (cr_Job r)\<rparr>\<rparr> # ts"
    using w' ins w3 ts by (auto simp: inserted_def t1_def j_def)
  show "n = ''CreateDatabase-'' @ cj_Name (cr_Job r)"
    "i = (if cr_JobId r = uuid_Nil then fst (new_uuid E w) else cr_JobId r)"
    using n ji by (simp_all add: j_def)
qed

text \<open>The record a create request works on: the one of the name, made if there is none.\<close>

lemma create_record_ok:
  assumes "create_record E j w = (Inr x, w')"
  shows "w_tasks w' = w_tasks w \<and> (\<exists>d. x = Some d \<and>
    (case sel_by db_Name (cj_Name j) (w_dbs w) of
       Some d0 \<Rightarrow> d = d0 \<and> w_dbs w' = w_dbs w
     | None \<Rightarrow> w_dbs w' = w_dbs w @ [d] \<and> db_ID d = w_next_id w \<and> db_Name d = cj_Name j \<and>
         db_Owner d = cj_Owner j \<and> db_Stage d = DbStage_None \<and> db_Status d = DbStatus_Processing))"
proof (cases "sel_by db_Name (cj_Name j) (w_dbs w)")
  case None
  with assms show ?thesis
    by (auto simp: create_record_def GetDbByName_def q_GetDbByName_def CreateDb_def q_CreateDb_def query1_def
        ext_def Let_def one_row_def split: option.splits if_splits)
next
  case (Some d)
  then have "cj_Name j \<in> db_Name ` set (w_dbs w)"
    using sel_by_mem [OF Some] sel_by_key [OF Some] by force
  with Some assms show ?thesis
    by (auto simp: create_record_def GetDbByName_def q_GetDbByName_def CreateDb_def q_CreateDb_def query1_def
        ext_def Let_def one_row_def split: option.splits if_splits)
qed

section \<open>What a request leaves behind\<close>

lemma rollback_unless_sent:
  assumes f: "\<And>w1. fst (f w1) \<Longrightarrow> \<exists>x. fst (snd (f w1)) = Ok (Some x)"
    and r: "\<And>x. fst (api_QueryWithRollback E f w) \<noteq> Ok (Some x)"
  shows "w_dbs (snd (api_QueryWithRollback E f w)) = w_dbs w \<and>
    w_tasks (snd (api_QueryWithRollback E f w)) = w_tasks w"
  using f r
  by (auto simp: api_QueryWithRollback_def ext_def split: option.splits prod.splits) (metis fst_conv snd_conv)+

lemma create_committed_sent: "fst (create_process E r w) \<Longrightarrow> \<exists>x. fst (snd (create_process E r w)) = Ok (Some x)"
  by (auto simp: create_process_def create_tasks_def Let_def split: prod.splits sum.splits option.splits if_splits)

lemma migrate_committed_sent: "fst (migrate_process E r w) \<Longrightarrow> \<exists>x. fst (snd (migrate_process E r w)) = Ok (Some x)"
  by (auto simp: migrate_process_def Let_def split: prod.splits sum.splits option.splits if_splits)

lemma request_atomic:
  assumes "\<And>x. fst (GrpcAgentHandler_handle up E task w) \<noteq> Ok (Some x)"
  shows "w_dbs (snd (GrpcAgentHandler_handle up E task w)) = w_dbs w \<and>
    w_tasks (snd (GrpcAgentHandler_handle up E task w)) = w_tasks w"
  using assms rollback_unless_sent [OF create_committed_sent] rollback_unless_sent [OF migrate_committed_sent]
  by (auto simp: GrpcAgentHandler_handle_def create_Process_def migrate_Process_def
      split: db_job_kind.splits option.splits)

section \<open>What the requests keep\<close>

context insert_invariant begin

lemma inv_new_uuid: "inv w \<Longrightarrow> inv (snd (new_uuid E w))"
  by (simp add: new_uuid_def inv_call)

lemma inv_add_task_row: "inv w \<Longrightarrow> inv (snd (add_task E p a ts w))"
  using inv_api_ops(4)[of w E False "p\<lparr>cp_Action := a, cp_Data := (cp_Data p)\<lparr>td_DependsOn := [tk_ID (last ts)]\<rparr>\<rparr>"]
  by (auto simp: add_task_def split: prod.splits sum.splits)

lemma inv_add_tasks: "inv w \<Longrightarrow> inv (snd (add_tasks E p as ts w))"
proof (induction as arbitrary: ts w)
  case (Cons a as)
  then show ?case using inv_add_task_row[OF Cons.prems, of E p a ts] by (auto split: prod.splits sum.splits)
qed simp

lemma inv_create_record: "inv w \<Longrightarrow> inv (snd (create_record E j w))"
  using inv_api_ops(2)[of w E False "cj_Name j"]
  by (auto simp: create_record_def split: prod.splits sum.splits option.splits intro!: inv_api_ops)

lemma inv_create_tasks:
  assumes "inv w" shows "inv (snd (snd (create_tasks E r d w)))"
proof -
  define q where "q = (if cr_JobId r = uuid_Nil then new_uuid E w else (cr_JobId r, w))"
  have q: "inv (snd q)" using assms by (simp add: q_def inv_new_uuid)
  obtain i w3 where i: "q = (i, w3)" by (cases q)
  define p where "p = create_params E (cr_Job r) i d w3"
  obtain x w4 where c: "CreateDbTask E False p w3 = (x, w4)" by fastforce
  have "inv w4" using inv_api_ops(4)[of w3 E False p] q i c by simp
  then show ?thesis
    unfolding create_tasks_def Let_def q_def[symmetric] i using c
    by (auto simp: p_def split: prod.splits sum.splits) (metis inv_add_tasks inv_tx_Commit snd_conv)+
qed

lemma inv_create_process: "inv w \<Longrightarrow> inv (snd (snd (create_process E r w)))"
  using inv_create_record[of w E "cr_Job r"]
  by (auto simp: create_process_def split: prod.splits sum.splits option.splits intro!: inv_create_tasks)

end

context request_invariant begin

lemma inv_update_row:
  "inv w \<Longrightarrow> d \<in> set (w_dbs w) \<Longrightarrow> same_db d d' \<Longrightarrow> inv (snd (UpdateDbStatus E q d' (w\<lparr>w_calls := n\<rparr>)))"
  by (rule inv_UpdateDbStatus[OF inv_call]) (use ok_request[OF ok_row] in simp_all)

lemma inv_migrate_process:
  assumes "inv w" shows "inv (snd (snd (migrate_process E r w)))"
proof -
  obtain x w1 where g: "GetDbByName E False (mj_Name (mr_Job r)) w = (x, w1)" by fastforce
  have w1: "inv w1" using inv_api_ops(2)[OF assms, of E False "mj_Name (mr_Job r)"] g by simp
  note mem = GetDbByName_mem[of E False "mj_Name (mr_Job r)" w _ w1]
  show ?thesis
    using w1 g mem by (auto simp: migrate_process_def Let_def case_prod_unfold split: sum.splits option.splits
      simp: new_uuid_def intro!: inv_Notify inv_tx_Commit inv_q_CreateDbTask inv_update_row[of w1] same_dbI)
qed

end

context tx_invariant begin

lemma inv_request:
  assumes "inv w"
  shows "inv (snd (GrpcAgentHandler_handle up E task w))"
proof -
  have "inv (snd (api_QueryWithRollback E (create_process E r) w))" for r
    by (rule inv_QueryWithRollback[OF assms inv_create_process growing.inv_create_process]) simp_all
  moreover have "inv (snd (api_QueryWithRollback E (migrate_process E r) w))" for r
    by (rule inv_QueryWithRollback[OF assms inv_migrate_process growing.inv_migrate_process]) simp_all
  ultimately show ?thesis
    using assms by (auto simp: GrpcAgentHandler_handle_def create_Process_def migrate_Process_def split: db_job_kind.splits option.splits)
qed

end

end
