(* ===== verification/Job_Run.thy ===== *)
theory Job_Run
  imports Agent_Requests
begin

text \<open>
  A job of the agent from its request to its end: one worker takes the ready tasks in order and the
  job handler hears of each result at once. For a job whose tasks form a chain the run is the tasks
  one after the other, whatever they return, and the job is dropped at the end; with the transitions
  of the actions this gives the stage a create or migrate-out request leads to.
\<close>

section \<open>Driving a job\<close>

definition one_step :: "agent_env \<Rightarrow> job_state \<Rightarrow> job_state" where
  "one_step E s =
     (case js_ready s of
        [] \<Rightarrow> s
      | r # rs \<Rightarrow>
          (case DbTaskHandler_Handle E (MsgTask r) (s\<lparr>js_ready := rs\<rparr>) of
             (res, s1, ms) \<Rightarrow> fold (\<lambda>m s. snd (JobHandler_Handle E m s)) ms s1))"

fun drive :: "nat \<Rightarrow> agent_env \<Rightarrow> job_state \<Rightarrow> job_state" where
  "drive 0 E s = s"
| "drive (Suc n) E s = drive n E (one_step E s)"

definition start_job :: "agent_env \<Rightarrow> sent_job \<Rightarrow> agent_world \<Rightarrow> job_state" where
  "start_job E sj w =
     (case sj of (name, i, rows) \<Rightarrow>
        snd (JobHandler_Handle E (MsgJob (new_job name i 0 rows))
          \<lparr>js_heap = alloc 0 rows (\<lambda>_. NewDbTask zero_task), js_jobs = Map.empty, js_ready = [], js_world = w\<rparr>))"

text \<open>The tasks handled one after the other, each on the world the one before left.\<close>

fun run_rows :: "agent_env \<Rightarrow> db_task_row list \<Rightarrow> agent_world \<Rightarrow> db_task_row list \<times> agent_world" where
  "run_rows E [] w = ([], w)"
| "run_rows E (t # ts) w =
     (case handle E t w of ((t', r), w1) \<Rightarrow> case run_rows E ts w1 of (ts', w2) \<Rightarrow> (t' # ts', w2))"

definition done_row :: "db_task_row \<Rightarrow> bool" where
  "done_row t = IsDone (NewDbTask t)"

lemma IsDone_row: "IsDone t = done_row (dt_row t)"
  by (simp add: done_row_def IsDone_def NewDbTask_def)

fun all_finish :: "agent_env \<Rightarrow> db_task_row list \<Rightarrow> agent_world \<Rightarrow> bool" where
  "all_finish E [] w = True"
| "all_finish E (t # ts) w =
     (case handle E t w of ((t', r), w1) \<Rightarrow> r \<noteq> Panicked \<and> done_row t' \<and> all_finish E ts w1)"

text \<open>
  A job whose tasks form a chain, with the tasks \<open>pre\<close> handled and \<open>suf\<close> to come: the first of
  these is the only one in the queue, and the rest wait for their predecessor.
\<close>

definition chain_state :: "uuid \<Rightarrow> job \<Rightarrow> db_task_row list \<Rightarrow> db_task_row list \<Rightarrow> job_state \<Rightarrow> bool" where
  "chain_state i j pre suf s \<longleftrightarrow>
     job_ID j = i \<and> job_Tasks j = [0..<length pre + length suf] \<and> js_jobs s = [i \<mapsto> j] \<and>
     (\<forall>k < length pre. dt_row (js_heap s k) = pre ! k \<and> done_row (pre ! k)) \<and>
     (\<forall>k < length suf. dt_row (js_heap s (length pre + k)) = suf ! k \<and> \<not> done_row (suf ! k) \<and> tk_JobID (suf ! k) = i) \<and>
     (\<forall>k. Suc k < length suf \<longrightarrow> liveDependsOn (dt_dep (js_heap s (length pre + Suc k))) = [tk_ID (suf ! k)]) \<and>
     (suf \<noteq> [] \<longrightarrow> liveDependsOn (dt_dep (js_heap s (length pre))) = []) \<and>
     distinct (map tk_ID suf) \<and> js_ready s = (if suf = [] then [] else [length pre])"

lemma same_task_ids: "same_task t t' \<Longrightarrow> tk_ID t' = tk_ID t \<and> tk_JobID t' = tk_JobID t"
  by (auto simp: same_task_def)

text \<open>The heap once the next task has been handled: only its row has changed.\<close>

definition handled_heap :: "nat \<Rightarrow> db_task_row \<Rightarrow> (nat \<Rightarrow> db_task) \<Rightarrow> nat \<Rightarrow> db_task" where
  "handled_heap n t' h = h(n := (h n)\<lparr>dt_row := t'\<rparr>)"

lemma chain_done:
  assumes c: "chain_state i j pre (t # suf) s" and "done_row t'" and k: "k < length pre + length (t # suf)"
  shows "IsDone (handled_heap (length pre) t' (js_heap s) k) \<longleftrightarrow> k \<le> length pre"
proof (cases "k \<le> length pre")
  case True
  then show ?thesis
    using c assms(2) by (cases "k = length pre") (auto simp: chain_state_def IsDone_row handled_heap_def)
next
  case False
  then obtain x where x: "k = length pre + Suc x" using less_iff_Suc_add by (auto simp: not_le)
  with k have "x < length suf" by simp
  with c x show ?thesis by (auto simp: chain_state_def IsDone_row handled_heap_def)
qed

text \<open>A task of the rest waits for the handled one exactly when it comes next.\<close>

lemma chain_next:
  assumes "chain_state i j pre (t # suf) s" and "x < length suf"
  shows "tk_ID t = tk_ID ((t # suf) ! x) \<longleftrightarrow> x = 0"
proof (cases x)
  case (Suc y)
  have "tk_ID t \<notin> tk_ID ` set suf" using assms(1) by (simp add: chain_state_def)
  moreover have "suf ! y \<in> set suf" using assms(2) Suc by simp
  ultimately show ?thesis using Suc by (metis image_eqI nat.simps(3) nth_Cons_Suc)
qed simp

lemma chain_told:
  assumes c: "chain_state i j pre (t # suf) s" and d: "done_row t'"
  defines "h \<equiv> handled_heap (length pre) t' (js_heap s)"
  defines "T \<equiv> \<lambda>k. told (IsFailed (h (length pre))) (IsDone (h k)) (tk_ID t) (dt_dep (h k))"
  shows "k < length pre + length (t # suf) \<Longrightarrow> fst (T k) \<longleftrightarrow> k = Suc (length pre)"
    and "x < length suf \<Longrightarrow> liveDependsOn (snd (T (length pre + Suc x))) = (if x = 0 then [] else [tk_ID ((t # suf) ! x)])"
proof -
  have later: "liveDependsOn (dt_dep (h (length pre + Suc x))) = [tk_ID ((t # suf) ! x)]" if "x < length suf" for x
    using c that by (auto simp: chain_state_def h_def handled_heap_def)
  note dn = chain_done [OF c d, folded h_def]
  show "fst (T k) \<longleftrightarrow> k = Suc (length pre)" if k: "k < length pre + length (t # suf)"
  proof (cases "k \<le> length pre")
    case True
    then show ?thesis using dn [OF k] told_fst unfolding T_def by fastforce
  next
    case False
    then obtain x where x: "k = length pre + Suc x" using less_iff_Suc_add by (auto simp: not_le)
    with k have "x < length suf" by simp
    with x later [of x] chain_next [OF c, of x] dn [OF k] show ?thesis
      by (cases "x = 0") (simp_all add: T_def told_def DependsDone_eq DependsFailed_eq)
  qed
  show "liveDependsOn (snd (T (length pre + Suc x))) = (if x = 0 then [] else [tk_ID ((t # suf) ! x)])" if "x < length suf"
    using later [OF that] chain_next [OF c that] dn [of "length pre + Suc x"] that by (simp add: T_def told_snd)
qed

text \<open>So the job hands out exactly the next task.\<close>

lemma chain_OnTaskDone:
  assumes c: "chain_state i j pre (t # suf) s" and d: "done_row t'" and id: "tk_ID t' = tk_ID t"
  defines "h \<equiv> handled_heap (length pre) t' (js_heap s)"
  shows "OnTaskDone h j (length pre) = (if suf = [] then [] else [Suc (length pre)],
    (\<lambda>k. if k < length pre + length (t # suf)
         then (h k)\<lparr>dt_dep := snd (told (IsFailed (h (length pre))) (IsDone (h k)) (tk_ID t) (dt_dep (h k)))\<rparr> else h k))"
proof -
  let ?m = "length pre + length (t # suf)"
  have j: "job_Tasks j = [0..<?m]" using c by (simp add: chain_state_def)
  have u: "task_UUID (h (length pre)) = tk_ID t" using id by (simp add: task_UUID_def h_def handled_heap_def)
  have "filter (\<lambda>k. fst (told (IsFailed (h (length pre))) (IsDone (h k)) (tk_ID t) (dt_dep (h k)))) [0..<?m] =
      filter (\<lambda>k. k = Suc (length pre)) [0..<?m]"
    by (intro filter_cong refl chain_told(1) [OF c d, folded h_def]) (simp del: upt_Suc)
  also have "\<dots> = (if suf = [] then [] else [Suc (length pre)])"
  proof -
    have "filter (\<lambda>k. k = a) [0..<b] = (if a < b then [a] else [])" for a b :: nat
      by (induction b) auto
    then show ?thesis by (simp only:) simp
  qed
  finally show ?thesis
    using OnTaskDone_eq [of j h "length pre"] by (simp add: j u del: upt_Suc cong: if_cong)
qed

lemma one_step_eq:
  assumes c: "chain_state i j pre (t # suf) s"
    and h: "handle E t (js_world s) = ((t', r), w')" "r \<noteq> Panicked" "done_row t'"
  defines "h1 \<equiv> handled_heap (length pre) t' (js_heap s)"
  shows "one_step E s = s\<lparr>js_heap := snd (OnTaskDone h1 j (length pre)), js_world := w',
    js_ready := (if suf = [] then [] else [Suc (length pre)]), js_jobs := (if suf = [] then Map.empty else [i \<mapsto> j])\<rparr>"
proof -
  let ?n = "length pre" and ?s1 = "s\<lparr>js_ready := [], js_heap := h1, js_world := w'\<rparr>"
  have j: "job_ID j = i" "job_Tasks j = [0..<?n + length (t # suf)]" "js_jobs s = [i \<mapsto> j]" "js_ready s = [?n]"
    and row: "dt_row (js_heap s ?n) = t" and ji: "tk_JobID t = i"
    using c by (auto simp: chain_state_def)
  have ids: "tk_ID t' = tk_ID t" "tk_JobID t' = i"
    using same_task_ids [OF handle_same_task [OF h(1)]] ji by simp_all
  have step: "one_step E s = snd (processTask E ?n ?s1)"
    using j(4) h row by (simp add: one_step_def DbTaskHandler_Handle_def h1_def handled_heap_def)
  have dn: "IsDone (js_heap ?s1 ?n)" using h(3) by (simp add: IsDone_row h1_def handled_heap_def)
  have jb: "js_jobs ?s1 (task_JobID (js_heap ?s1 ?n)) = Some j"
    using j ids by (simp add: h1_def handled_heap_def task_JobID_def)
  have jd: "job_IsDone h1 j \<longleftrightarrow> suf = []"
    using chain_done [OF c h(3), folded h1_def] by (auto simp: job_IsDone_def list_all_iff j(2))
  show ?thesis
    using processTask_done [OF dn jb, of E] jd chain_OnTaskDone [OF c h(3) ids(1), folded h1_def]
    unfolding step by (simp add: j)
qed

lemma chain_step:
  assumes c: "chain_state i j pre (t # suf) s"
    and h: "handle E t (js_world s) = ((t', r), w')" "r \<noteq> Panicked" "done_row t'"
  shows "js_world (one_step E s) = w' \<and>
    (if suf = [] then js_jobs (one_step E s) = Map.empty \<and> js_ready (one_step E s) = []
     else chain_state i j (pre @ [t']) suf (one_step E s)) \<and>
    (\<forall>k. dt_row (js_heap (one_step E s) k) = (if k = length pre then t' else dt_row (js_heap s k)))"
proof -
  have id: "tk_ID t' = tk_ID t" using same_task_ids [OF handle_same_task [OF h(1)]] by simp
  note fin = one_step_eq [OF c h, unfolded chain_OnTaskDone [OF c h(3) id] snd_conv]
  have rows: "dt_row (js_heap (one_step E s) k) = (if k = length pre then t' else dt_row (js_heap s k))" for k
    by (simp add: fin handled_heap_def)
  have "chain_state i j (pre @ [t']) suf (one_step E s)" if ne: "suf \<noteq> []"
  proof -
    have "liveDependsOn (dt_dep (js_heap (one_step E s) (length (pre @ [t']) + Suc k))) = [tk_ID (suf ! k)]"
      if "Suc k < length suf" for k
      using chain_told(2) [OF c h(3) that] that by (simp add: fin)
    moreover have "liveDependsOn (dt_dep (js_heap (one_step E s) (length (pre @ [t'])))) = []"
      using chain_told(2) [OF c h(3), of 0] ne by (simp add: fin)
    moreover have "dt_row (js_heap (one_step E s) (length (pre @ [t']) + k)) = suf ! k \<and> \<not> done_row (suf ! k) \<and>
        tk_JobID (suf ! k) = i" if "k < length suf" for k
      using c that by (auto simp: rows chain_state_def)
    moreover have "dt_row (js_heap (one_step E s) k) = (pre @ [t']) ! k \<and> done_row ((pre @ [t']) ! k)"
      if "k < length (pre @ [t'])" for k
      using c h(3) that by (auto simp: rows chain_state_def nth_append less_Suc_eq)
    ultimately show ?thesis
      using c ne unfolding chain_state_def by (simp add: fin)
  qed
  then show ?thesis by (auto simp: rows) (simp_all add: fin)
qed

lemma drive_chain:
  assumes "chain_state i j pre suf s" and "suf \<noteq> []" and "all_finish E suf (js_world s)"
  shows "js_jobs (drive (length suf) E s) = Map.empty \<and> js_ready (drive (length suf) E s) = [] \<and>
    js_world (drive (length suf) E s) = snd (run_rows E suf (js_world s)) \<and>
    (\<forall>k < length suf. dt_row (js_heap (drive (length suf) E s) (length pre + k)) =
       fst (run_rows E suf (js_world s)) ! k) \<and>
    (\<forall>k < length pre. dt_row (js_heap (drive (length suf) E s) k) = dt_row (js_heap s k))"
  using assms
proof (induction suf arbitrary: pre s)
  case (Cons t suf)
  obtain t' r w' where h: "handle E t (js_world s) = ((t', r), w')" by (metis surj_pair)
  have f: "r \<noteq> Panicked" "done_row t'" "all_finish E suf w'" using Cons.prems(3) h by simp_all
  note st = chain_step [OF Cons.prems(1) h f(1,2)]
  show ?case
  proof (cases "suf = []")
    case True
    with st h show ?thesis by simp
  next
    case False
    have "chain_state i j (pre @ [t']) suf (one_step E s)" "js_world (one_step E s) = w'"
      using st False by simp_all
    with Cons.IH [of "pre @ [t']" "one_step E s"] False f(3)
    have IH: "js_jobs (drive (length suf) E (one_step E s)) = Map.empty"
      "js_ready (drive (length suf) E (one_step E s)) = []"
      "js_world (drive (length suf) E (one_step E s)) = snd (run_rows E suf w')"
      "\<And>k. k < length suf \<Longrightarrow> dt_row (js_heap (drive (length suf) E (one_step E s)) (Suc (length pre) + k)) =
         fst (run_rows E suf w') ! k"
      "\<And>k. k < Suc (length pre) \<Longrightarrow> dt_row (js_heap (drive (length suf) E (one_step E s)) k) =
         dt_row (js_heap (one_step E s) k)"
      by simp_all
    have "dt_row (js_heap (drive (length suf) E (one_step E s)) (length pre + k)) =
        (t' # fst (run_rows E suf w')) ! k" if "k < Suc (length suf)" for k
    proof (cases k)
      case 0 then show ?thesis using IH(5) [of "length pre"] st by simp
    next
      case (Suc x) then show ?thesis using IH(4) [of x] that by simp
    qed
    with IH h st show ?thesis by (simp add: case_prod_unfold)
  qed
qed simp

section \<open>What a run keeps\<close>

lemma addJob_world: "js_world (snd (addJob j s)) = js_world s"
  by (simp add: addJob_def checkReadyToRun_def readyToRun_def split: option.splits)

lemma processDoneTask_world: "js_world (snd (processDoneTask r s)) = js_world s"
  by (simp add: processDoneTask_def readyToRun_def onJobDone_def Let_def split: option.splits prod.splits)

context world_invariant begin

lemma inv_processTask: "inv (js_world s) \<Longrightarrow> inv (js_world (snd (processTask E r s)))"
proof -
  have c: "inv (js_world (snd (processCancellingTask E r s1)))" if "inv (js_world s1)" for s1
    using inv_Cancel[OF that] by (simp add: processCancellingTask_def split: prod.split) (metis snd_conv)
  have d: "inv (js_world s2)" if "processDoneTask r s1 = (e, s2)" "inv (js_world s1)" for e s1 s2
    using that processDoneTask_world[of r s1] by simp
  show "inv (js_world s) \<Longrightarrow> inv (js_world (snd (processTask E r s)))"
    using c[of s] by (auto simp: processTask_def Let_def split: prod.split option.split intro: d)
qed

lemma inv_JobHandler: "inv (js_world s) \<Longrightarrow> inv (js_world (snd (JobHandler_Handle E m s)))"
  by (cases m) (simp_all add: inv_processTask addJob_world)

lemma inv_DbTaskHandler:
  assumes "inv (js_world s)" and "DbTaskHandler_Handle E m s = (res, s', ms)"
  shows "inv (js_world s')"
proof (cases m)
  case (MsgTask r)
  then show ?thesis using inv_handle[OF assms(1), of "dt_row (js_heap s r)"] assms(2)
    by (auto simp: DbTaskHandler_Handle_def split: prod.splits)
qed (use assms in \<open>simp_all add: DbTaskHandler_Handle_def\<close>)

lemma inv_one_step: "inv (js_world s) \<Longrightarrow> inv (js_world (one_step E s))"
proof -
  have "inv (js_world (fold (\<lambda>m s. snd (JobHandler_Handle E m s)) ms s1))" if "inv (js_world s1)" for ms s1
    using that by (induction ms arbitrary: s1) (simp_all add: inv_JobHandler)
  then show "inv (js_world s) \<Longrightarrow> inv (js_world (one_step E s))"
    by (auto simp: one_step_def split: list.splits prod.splits dest: inv_DbTaskHandler[rotated])
qed

lemma inv_drive: "inv (js_world s) \<Longrightarrow> inv (js_world (drive n E s))"
  by (induction n arbitrary: s) (simp_all add: inv_one_step)

lemma inv_start_job: "inv w \<Longrightarrow> inv (js_world (start_job E sj w))"
  by (cases sj) (simp add: start_job_def addJob_world)

end

section \<open>From the sent job to the chain\<close>

lemma chain_from_nth:
  "chain_from u ts \<Longrightarrow> k < length ts \<Longrightarrow>
     td_DependsOn (tk_Data (ts ! k)) = [if k = 0 then u else tk_ID (ts ! (k - 1))]"
proof (induction ts arbitrary: u k)
  case (Cons t ts)
  then show ?case by (cases k) (auto simp: nth_Cons')
qed simp

lemma chain_rows_nth:
  assumes "chain_rows rows" and "k < length rows"
  shows "td_DependsOn (tk_Data (rows ! k)) = (if k = 0 then [] else [tk_ID (rows ! (k - 1))])"
proof -
  obtain t ts where r: "rows = t # ts" using assms(1) by (cases rows) auto
  show ?thesis
  proof (cases k)
    case (Suc x)
    with assms r show ?thesis
      using chain_from_nth [of "tk_ID t" ts x] by (cases x) auto
  qed (use assms r in simp)
qed

lemma start_job_chain:
  assumes c: "chain_rows rows" and d: "distinct (map tk_ID rows)"
    and p: "\<forall>t \<in> set rows. tk_Status t = DbTaskStatusPending \<and> tk_JobID t = i"
  shows "chain_state i (new_job name i 0 rows) [] rows (start_job E (name, i, rows) w)"
    and "js_world (start_job E (name, i, rows) w) = w"
proof -
  define h where "h = alloc 0 rows (\<lambda>_. NewDbTask zero_task)"
  have hk: "h k = NewDbTask (rows ! k)" if "k < length rows" for k
    using that by (simp add: h_def alloc_def)
  have nd: "\<not> done_row (rows ! k)" if "k < length rows" for k
    using p that by (simp add: done_row_def IsDone_def NewDbTask_def)
  have ne: "rows \<noteq> []" using c by auto
  have live: "liveDependsOn (dt_dep (h k)) = (if k = 0 then [] else [tk_ID (rows ! (k - 1))])"
    if "k < length rows" for k
    using chain_rows_nth [OF c that] hk [OF that]
    by (simp add: NewDbTask_def NewBaseTaskDependency_def Requires_def)
  have rdy: "IsReadyToRun (IsDone (h k)) (dt_dep (h k)) \<longleftrightarrow> k = 0" if "k < length rows" for k
    using live [OF that] hk [OF that] nd [OF that]
    by (simp add: IsReadyToRun_def IsDone_row NewDbTask_def NewBaseTaskDependency_def)
  have "filter (\<lambda>k. IsReadyToRun (IsDone (h k)) (dt_dep (h k))) [0..<length rows] =
      filter (\<lambda>k. k = 0) [0..<length rows]"
    using rdy by (auto intro: filter_cong)
  also have "\<dots> = [0]"
  proof -
    obtain m where m: "length rows = Suc m" using ne by (cases rows) auto
    show ?thesis unfolding m by (simp add: upt_conv_Cons del: upt_Suc)
  qed
  finally have s: "start_job E (name, i, rows) w = \<lparr>js_heap = h, js_jobs = [i \<mapsto> new_job name i 0 rows],
      js_ready = [0], js_world = w\<rparr>"
    by (simp add: start_job_def addJob_new new_job_def ReadyToRun_def h_def)
  show "js_world (start_job E (name, i, rows) w) = w" by (simp add: s)
  show "chain_state i (new_job name i 0 rows) [] rows (start_job E (name, i, rows) w)"
    using p d ne nd hk live by (auto simp: chain_state_def s new_job_def NewDbTask_def)
qed

text \<open>Driving a chain job from the start to the end.\<close>

lemma drive_job:
  fixes name :: string
  assumes "chain_rows rows" and "distinct (map tk_ID rows)"
    and "\<forall>t \<in> set rows. tk_Status t = DbTaskStatusPending \<and> tk_JobID t = i"
    and "all_finish E rows w"
    and "s = drive (length rows) E (start_job E (name, i, rows) w)"
  shows "js_jobs s = Map.empty \<and> js_ready s = [] \<and> js_world s = snd (run_rows E rows w) \<and>
    (\<forall>k < length rows. dt_row (js_heap s k) = fst (run_rows E rows w) ! k)"
proof -
  have "rows \<noteq> []" using assms(1) by auto
  then show ?thesis
    using drive_chain [OF start_job_chain(1) [OF assms(1-3), where name = name and E = E and w = w], of E]
      start_job_chain(2) [OF assms(1-3), where name = name and E = E and w = w] assms(4,5)
    by simp
qed

section \<open>The run as transitions\<close>

definition spec_step :: "DbAction \<Rightarrow> DbStage \<times> DbStatus \<Rightarrow> DbStage \<times> DbStatus" where
  "spec_step a s = (case stage_spec a s of None \<Rightarrow> s | Some s' \<Rightarrow> s')"

fun spec_run :: "DbAction list \<Rightarrow> DbStage \<times> DbStatus \<Rightarrow> DbTaskStatus list \<times> (DbStage \<times> DbStatus)" where
  "spec_run [] s = ([], s)"
| "spec_run (a # as) s =
     (case spec_run as (spec_step a s) of
        (xs, s') \<Rightarrow> ((if stage_spec a s = None then DbTaskStatusFailed else DbTaskStatusCompleted) # xs, s'))"

text \<open>Only \<open>create\<close> may leave its task unfinished: when its transition refuses.\<close>

fun creates_ok :: "DbAction list \<Rightarrow> DbStage \<times> DbStatus \<Rightarrow> bool" where
  "creates_ok [] s = True"
| "creates_ok (a # as) s =
     (a \<in> {DbActionMigrateOut, DbActionCreateUser, DbActionCreate, DbActionBackup, DbActionRestore, DbActionWaitReady} \<and>
      (a = DbActionCreate \<longrightarrow> stage_spec a s \<noteq> None) \<and> creates_ok as (spec_step a s))"

lemma finished_status:
  "finished t r \<Longrightarrow> tk_Status t \<in> {DbTaskStatusCompleted, DbTaskStatusFailed}"
  by (auto simp: finished_def split: outcome.splits)

lemma stored_wf: "wf_world w \<Longrightarrow> stored (w_dbs w) d \<longleftrightarrow> sel_by db_ID (db_ID d) (w_dbs w) = Some d"
  by (simp add: stored_def wf_world_def wf_tables_def)

lemma run_rows_spec:
  assumes "healthy E" and "cfg_tmpl (env_cfg E) \<noteq> None" and "wf_world w" and "stored (w_dbs w) d"
    and "\<forall>t \<in> set rows. tk_Status t = DbTaskStatusPending \<and> tk_DbID t = db_ID d \<and> tk_DbName t = db_Name d \<and>
           (tk_Action t = DbActionCreate \<longrightarrow> td_Owner (tk_Data t) = db_Owner d)"
    and "creates_ok (map tk_Action rows) (db_Stage d, db_Status d)"
  shows "all_finish E rows w \<and>
    map tk_Status (fst (run_rows E rows w)) = fst (spec_run (map tk_Action rows) (db_Stage d, db_Status d)) \<and>
    moved d (snd (spec_run (map tk_Action rows) (db_Stage d, db_Status d))) (w_dbs (snd (run_rows E rows w)))"
  using assms(3-6)
proof (induction rows arbitrary: w d)
  case Nil
  then show ?case by (simp add: moved_stay)
next
  case (Cons t rows)
  obtain t' r w1 where h: "handle E t w = ((t', r), w1)" by (metis surj_pair)
  have sel: "sel_by db_ID (tk_DbID t) (w_dbs w) = Some d" using Cons.prems by (simp add: stored_def)
  have n: "db_Name d = tk_DbName t" "tk_Action t = DbActionCreate \<Longrightarrow> db_Owner d = td_Owner (tk_Data t)"
    "tk_Status t \<in> {DbTaskStatusPending, DbTaskStatusRunning}" "tk_Status t \<noteq> DbTaskStatusCancelling"
    using Cons.prems(3) by auto
  note m = handle_moves [OF assms(1,2) Cons.prems(1) sel n(1,2,3), unfolded h, simplified]
  have fin: "done_row t' \<and> tk_Status t' = (if spec_ok (tk_Action t) d then DbTaskStatusCompleted else DbTaskStatusFailed)"
  proof -
    have "(finished t' r) \<or> tk_Status t' = DbTaskStatusCompleted"
      using handle_finishes [OF h n(4)] assms(1) Cons.prems(4) m(2) by (auto simp: healthy_def)
    with m(2) show ?thesis
      by (auto dest!: finished_status simp: done_row_def IsDone_def NewDbTask_def)
  qed
  obtain d1 where d1: "stored (w_dbs w1) d1" "same_db d d1"
    "(db_Stage d1, db_Status d1) = spec_step (tk_Action t) (db_Stage d, db_Status d)"
    using m(1) by (auto simp: moved_def spec_result_def spec_step_def)
  have wf1: "wf_world w1" using tables.inv_handle [OF Cons.prems(1), of E t] h by simp
  have "\<forall>t \<in> set rows. tk_Status t = DbTaskStatusPending \<and> tk_DbID t = db_ID d1 \<and> tk_DbName t = db_Name d1 \<and>
      (tk_Action t = DbActionCreate \<longrightarrow> td_Owner (tk_Data t) = db_Owner d1)"
    using Cons.prems(3) d1(2) by (simp add: same_db_def)
  note IH = Cons.IH [OF wf1 d1(1) this]
  show ?case
    using IH Cons.prems(4) d1 fin h m(3)
    by (auto simp: case_prod_unfold moved_def intro: same_db_trans)
qed

section \<open>A request that is answered\<close>

text \<open>The next \<open>n\<close> uuids are distinct and name no task yet.\<close>

definition fresh_uuids :: "agent_env \<Rightarrow> agent_world \<Rightarrow> nat \<Rightarrow> bool" where
  "fresh_uuids E w n \<longleftrightarrow> inj_on (env_uuid E) {w_calls w..<w_calls w + n} \<and>
     (\<forall>m \<in> {w_calls w..<w_calls w + n}. env_uuid E m \<notin> tk_ID ` set (w_tasks w))"

lemma fresh_uuids_later:
  assumes "fresh_uuids E w n" and "w_calls w' + m \<le> w_calls w + n" and "w_calls w \<le> w_calls w'"
    and "w_tasks w' = w_tasks w"
  shows "fresh_uuids E w' m"
proof -
  have sub: "{w_calls w'..<w_calls w' + m} \<subseteq> {w_calls w..<w_calls w + n}" using assms(2,3) by auto
  then have "inj_on (env_uuid E) {w_calls w'..<w_calls w' + m}"
    using assms(1) inj_on_subset unfolding fresh_uuids_def by blast
  moreover have "\<forall>k \<in> {w_calls w'..<w_calls w' + m}. env_uuid E k \<notin> tk_ID ` set (w_tasks w)"
    using assms(1) sub unfolding fresh_uuids_def by blast
  ultimately show ?thesis unfolding fresh_uuids_def assms(4) by blast
qed

lemma CreateDbTask_fresh:
  assumes "healthy E" and "fresh_uuids E w (Suc n)"
  shows "\<exists>t w'. CreateDbTask E False p w = (Inr t, w') \<and> fresh_uuids E w' n"
proof -
  define c where "c = w_calls w"
  have ids: "inj_on (env_uuid E) {c..<c + Suc n}" "\<And>m. m \<in> {c..<c + Suc n} \<Longrightarrow> env_uuid E m \<notin> tk_ID ` set (w_tasks w)"
    using assms(2) by (simp_all add: fresh_uuids_def c_def)
  have new: "env_uuid E c \<notin> tk_ID ` set (w_tasks w)" by (rule ids(2)) simp
  have other: "env_uuid E m \<noteq> env_uuid E c" if "m \<in> {Suc c..<Suc c + n}" for m
    using ids(1) that by (auto dest: inj_onD [of _ _ m c])
  have sub: "{Suc c..<Suc c + n} \<subseteq> {c..<c + Suc n}" by auto
  obtain t w' where q: "q_CreateDbTask E p w = (Inr t, w')" and t: "tk_ID t = env_uuid E c"
    "w_tasks w' = w_tasks w @ [t]" "w_calls w' = Suc c"
    using assms(1) new by (auto simp: q_CreateDbTask_def query1_def api_simps Let_def c_def)
  have "inj_on (env_uuid E) {Suc c..<Suc c + n}" using ids(1) sub by (rule inj_on_subset)
  moreover have "\<forall>m \<in> {Suc c..<Suc c + n}. env_uuid E m \<notin> tk_ID ` set (w_tasks w')"
    using ids(2) sub other t(1,2) by (simp add: subset_iff)
  ultimately show ?thesis using q t(3) by (auto simp: CreateDbTask_q fresh_uuids_def)
qed

lemma add_tasks_fresh:
  assumes "healthy E" and "fresh_uuids E w (length as)"
  shows "\<exists>ts w'. add_tasks E p as tasks w = (Inr ts, w')"
  using assms(2)
proof (induction as arbitrary: tasks w)
  case (Cons a as)
  define q where "q = p\<lparr>cp_Action := a, cp_Data := (cp_Data p)\<lparr>td_DependsOn := [tk_ID (last tasks)]\<rparr>\<rparr>"
  obtain t w1 where c: "CreateDbTask E False q w = (Inr t, w1)" and f: "fresh_uuids E w1 (length as)"
    using CreateDbTask_fresh [OF assms(1), of w "length as" q] Cons.prems by auto
  show ?case using Cons.IH [OF f, of "tasks @ [t]"] c by (simp add: add_task_def q_def)
qed simp

lemma length_create_actions: "length (create_actions j) \<le> 4"
  by (simp add: create_actions_def)

lemma create_tasks_fresh:
  assumes "healthy E" and "fresh_uuids E w 6"
  shows "\<exists>x w'. create_tasks E r d w = (True, Ok (Some x), w')"
proof -
  define q where "q = (if cr_JobId r = uuid_Nil then new_uuid E w else (cr_JobId r, w))"
  obtain i w3 where i: "q = (i, w3)" by (cases q)
  have w3: "w_tasks w3 = w_tasks w" "w_calls w3 = w_calls w \<or> w_calls w3 = Suc (w_calls w)"
    using i by (auto simp: q_def new_uuid_def split: if_splits)
  have f3: "fresh_uuids E w3 (Suc (length (create_actions (cr_Job r))))"
    using w3 length_create_actions [of "cr_Job r"] by (intro fresh_uuids_later [OF assms(2)]) auto
  define p where "p = create_params E (cr_Job r) i d w3"
  obtain t w4 where t: "CreateDbTask E False p w3 = (Inr t, w4)" "fresh_uuids E w4 (length (create_actions (cr_Job r)))"
    using CreateDbTask_fresh [OF assms(1) f3] by blast
  obtain ts w5 where "add_tasks E p (create_actions (cr_Job r))
      [t\<lparr>tk_Data := (tk_Data t)\<lparr>td_Password := cj_Password (cr_Job r)\<rparr>\<rparr>] w4 = (Inr ts, w5)"
    using add_tasks_fresh [OF assms(1) t(2)] by blast
  with t(1) i assms(1) show ?thesis
    unfolding create_tasks_def Let_def q_def [symmetric]
    by (simp add: p_def tx_Commit_def api_simps)
qed

text \<open>A create request for a new name, when the environment answers, up to the end of its job.\<close>

lemma create_Process_fresh:
  assumes E: "healthy E" and f: "fresh_uuids E w 10" and wf: "wf_world w"
    and nr: "\<not> IsReservedName (env_cfg E) (cj_Name (cr_Job r))"
    and new: "sel_by db_Name (cj_Name (cr_Job r)) (w_dbs w) = None"
  shows "\<exists>n i rows w1 d. create_Process E r w = (Ok (Some (n, i, rows)), w1) \<and> wf_world w1 \<and>
    create_rows_of (cr_Job r) i d rows \<and> stored (w_dbs w1) d \<and> db_ID d = w_next_id w \<and>
    db_Name d = cj_Name (cr_Job r) \<and> db_Owner d = cj_Owner (cr_Job r) \<and>
    (db_Stage d, db_Status d) = (DbStage_None, DbStatus_Processing)"
proof -
  define w2 where "w2 = w\<lparr>w_calls := Suc (Suc (w_calls w))\<rparr>"
  obtain d w4 where r: "create_record E (cr_Job r) w2 = (Inr (Some d), w4)" and
    w4: "w_tasks w4 = w_tasks w" "w_calls w4 = w_calls w + 4" "w_dbs w4 = w_dbs w @ [d]" and
    d: "db_ID d = w_next_id w" "db_Name d = cj_Name (cr_Job r)" "db_Owner d = cj_Owner (cr_Job r)"
    "db_Stage d = DbStage_None" "db_Status d = DbStatus_Processing"
    using E new
    by (auto simp: create_record_def GetDbByName_def q_GetDbByName_def CreateDb_def q_CreateDb_def query1_def
        api_simps one_row_def w2_def Let_def sel_by_None_iff)
  have f4: "fresh_uuids E w4 6" using w4 by (intro fresh_uuids_later [OF f]) auto
  obtain n i rows w5 where t: "create_tasks E r d w4 = (True, Ok (Some (n, i, rows)), w5)"
    using create_tasks_fresh [OF E f4, of r d] by auto
  have p: "create_process E r w2 = (True, Ok (Some (n, i, rows)), w5)"
    using r t d by (simp add: create_process_def Db_IsNotExist_def)
  have P: "create_Process E r w = (Ok (Some (n, i, rows)), w5)"
    using nr E p by (simp add: create_Process_def create_validate_def api_QueryWithRollback_def api_simps w2_def)
  have wf2: "wf_world w2" using wf by (simp add: w2_def wf_world_def)
  have wf5: "wf_world w5" using tables.inv_create_process [OF wf2, of E r] p by simp
  have "w_dbs w5 = w_dbs w @ [d]" using create_tasks_sent(2) [OF t] w4 by simp
  then have "stored (w_dbs w5) d"
    using wf5 sel_by_unique [of db_ID "w_dbs w5" d] by (simp add: stored_def wf_world_def wf_tables_def)
  with P wf5 create_tasks_sent(1) [OF t] d show ?thesis by blast
qed

lemma create_run:
  assumes "healthy E" and "cfg_tmpl (env_cfg E) \<noteq> None" and "fresh_uuids E w 10" and "wf_world w"
    and "\<not> IsReservedName (env_cfg E) (cj_Name (cr_Job r))"
    and "sel_by db_Name (cj_Name (cr_Job r)) (w_dbs w) = None"
    and spec: "spec_run (DbActionCreateUser # create_actions (cr_Job r)) (DbStage_None, DbStatus_Processing) = (xs, s)"
    and ok: "creates_ok (DbActionCreateUser # create_actions (cr_Job r)) (DbStage_None, DbStatus_Processing)"
  shows "\<exists>n i rows w1 st. create_Process E r w = (Ok (Some (n, i, rows)), w1) \<and>
    st = drive (length rows) E (start_job E (n, i, rows) w1) \<and>
    js_jobs st = Map.empty \<and> js_ready st = [] \<and> stage_of (js_world st) (w_next_id w) = Some s \<and>
    map (\<lambda>k. tk_Status (dt_row (js_heap st k))) [0..<length rows] = xs"
proof -
  obtain n i rows w1 d where P: "create_Process E r w = (Ok (Some (n, i, rows)), w1)" "wf_world w1"
      "create_rows_of (cr_Job r) i d rows" "stored (w_dbs w1) d" "db_ID d = w_next_id w"
      "db_Owner d = cj_Owner (cr_Job r)" "(db_Stage d, db_Status d) = (DbStage_None, DbStatus_Processing)"
    using create_Process_fresh [OF assms(1,3,4,5,6)] by metis
  have rows: "chain_rows rows" "distinct (map tk_ID rows)"
      "\<forall>t \<in> set rows. tk_Status t = DbTaskStatusPending \<and> tk_JobID t = i"
      "map tk_Action rows = DbActionCreateUser # create_actions (cr_Job r)"
      "\<forall>t \<in> set rows. tk_Status t = DbTaskStatusPending \<and> tk_DbID t = db_ID d \<and> tk_DbName t = db_Name d \<and>
           (tk_Action t = DbActionCreate \<longrightarrow> td_Owner (tk_Data t) = db_Owner d)"
    using P(3,6) by (auto simp: create_rows_of_def)
  have "creates_ok (map tk_Action rows) (db_Stage d, db_Status d)"
    using ok P(7) rows(4) by simp
  from run_rows_spec [OF assms(1,2) P(2,4) rows(5) this]
  have R: "all_finish E rows w1" "map tk_Status (fst (run_rows E rows w1)) = xs"
      "moved d s (w_dbs (snd (run_rows E rows w1)))"
    unfolding P(7) rows(4) spec by simp_all
  define st where "st = drive (length rows) E (start_job E (n, i, rows) w1)"
  note D = drive_job [OF rows(1-3) R(1) st_def]
  have len: "length (fst (run_rows E rows w1)) = length rows"
    by (induction rows arbitrary: w1) (auto simp: case_prod_unfold)
  have "map (\<lambda>k. tk_Status (dt_row (js_heap st k))) [0..<length rows] = xs"
    using D R(2) len by (intro nth_equalityI) (auto simp del: upt_Suc)
  moreover have "stage_of (js_world st) (w_next_id w) = Some s"
    using D R(3) P(5) by (auto simp: stage_of_def moved_def stored_def same_db_def)
  ultimately show ?thesis using P(1) D st_def by blast
qed

text \<open>A migrate-out request on a database that is ready, up to the end of its job.\<close>

lemma migrate_process_ready:
  assumes E: "healthy E" and f: "fresh_uuids E w 6" and wf: "wf_world w"
    and sel: "sel_by db_Name (mj_Name (mr_Job r)) (w_dbs w) = Some d" and rd: "Db_IsReadyToUse d"
    and job: "mr_JobId r = uuid_Nil \<or> mr_JobId r \<noteq> db_LastJobID d"
  shows "\<exists>i t w1 d1. migrate_Process E r w = (Ok (Some ([], i, [t])), w1) \<and> wf_world w1 \<and>
    stored (w_dbs w1) d1 \<and> same_db d d1 \<and> (db_Stage d1, db_Status d1) = (DbStage_Idle, DbStatus_Processing) \<and>
    db_LastJobID d1 = i \<and>
    tk_Status t = DbTaskStatusPending \<and> tk_JobID t = i \<and> tk_DbID t = db_ID d \<and> tk_DbName t = db_Name d \<and>
    tk_Action t = DbActionMigrateOut \<and> td_DependsOn (tk_Data t) = []"
proof -
  define w2 where "w2 = w\<lparr>w_calls := w_calls w + 4\<rparr>"
  define i where "i = env_uuid E (w_calls w + 3)"
  define d1 where "d1 = d\<lparr>db_LastJobID := i, db_Stage := DbStage_Idle, db_Status := DbStatus_Processing,
    db_MigrateTo := mj_MigrateTo (mr_Job r),
    db_ExpiredAt := (case mj_ExpiredAt (mr_Job r) of None \<Rightarrow> db_ExpiredAt d | Some t \<Rightarrow> Some t)\<rparr>"
  have "d \<in> set (w_dbs w)" using sel by (rule sel_by_mem)
  then have st2: "stored (w_dbs w2) d"
    using wf sel_by_unique [of db_ID "w_dbs w" d] by (simp add: stored_def w2_def wf_world_def wf_tables_def)
  obtain now w3 where u: "UpdateDbStatus E False d1 w2 = ((d1\<lparr>db_UpdatedAt := now\<rparr>, None), w3)"
      "stored (w_dbs w3) (d1\<lparr>db_UpdatedAt := now\<rparr>)" "w_tasks w3 = w_tasks w2"
    by (rule UpdateDbStatus_stored [OF E st2, of d1 False]) (auto simp: same_db_def d1_def)
  have c3: "w_calls w3 = w_calls w2 + 1"
    using u(1) UpdateDbStatus_healthy [OF E, of False d1 w2] by (auto simp: stmt_call_def split: if_splits)
  have f3: "fresh_uuids E w3 (Suc 0)"
    using c3 u(3) by (intro fresh_uuids_later [OF f]) (auto simp: w2_def)
  define p where "p = \<lparr>cp_JobID = i, cp_DbID = db_ID d, cp_DbName = db_Name d, cp_Action = DbActionMigrateOut,
    cp_Reason = mj_Reason (mr_Job r), cp_Status = DbTaskStatusPending, cp_Data = zero_task_data\<rparr>"
  obtain t w4 where q: "q_CreateDbTask E p w3 = (Inr t, w4)"
    using CreateDbTask_fresh [OF E f3, of p] by (auto simp: CreateDbTask_q)
  note t = q_CreateDbTask_ok [OF q]
  define w5 where "w5 = w4\<lparr>w_calls := Suc (w_calls w4)\<rparr>"
  define w0 where "w0 = w\<lparr>w_calls := Suc (Suc (w_calls w))\<rparr>"
  have nn: "\<not> Db_IsNotExist d" "\<not> Db_IsAlreadyIdle d"
    using rd by (auto simp: Db_IsReadyToUse_def Db_IsNotExist_def Db_IsAlreadyIdle_def)
  have g: "GetDbByName E False (mj_Name (mr_Job r)) w0 = (Inr (Some d), w\<lparr>w_calls := w_calls w + 3\<rparr>)"
    using E sel by (simp add: api_simps w0_def stmt_call_def)
  have w2: "w\<lparr>w_calls := 4 + w_calls w\<rparr> = w2" by (simp add: w2_def)
  have P: "migrate_process E r w0 = (True, Ok (Some ([], i, [t])), w5)"
    using E sel rd job nn u(1) q
    by (simp add: migrate_process_def Let_def g new_uuid_def tx_Commit_def ext_healthy
        w2 w5_def i_def [symmetric] d1_def [symmetric] p_def [symmetric])
  have R: "migrate_Process E r w = (Ok (Some ([], i, [t])), w5)"
    using E P by (simp add: migrate_Process_def api_QueryWithRollback_def api_simps w0_def)
  have "wf_world w5"
    using tables.inv_migrate_process [of w0 E r] P wf by (simp add: w0_def wf_world_def)
  moreover have "stored (w_dbs w5) (d1\<lparr>db_UpdatedAt := now\<rparr>)"
    using u(2) t(1) by (simp add: w5_def inserted_def)
  moreover have "same_db d (d1\<lparr>db_UpdatedAt := now\<rparr>)" by (simp add: same_db_def d1_def)
  ultimately show ?thesis
    using R t by (intro exI [of _ i] exI [of _ t] exI [of _ w5] exI [of _ "d1\<lparr>db_UpdatedAt := now\<rparr>"])
      (auto simp: d1_def p_def from_params_def stored_data_def zero_task_data_def)
qed

section \<open>Properties\<close>

lemma create_job_reaches_ready:
  assumes "healthy E" and "cfg_tmpl (env_cfg E) \<noteq> None" and "fresh_uuids E w 10" and "wf_world w"
    and "\<not> IsReservedName (env_cfg E) (cj_Name (cr_Job r))"
    and "sel_by db_Name (cj_Name (cr_Job r)) (w_dbs w) = None"
    and "cj_MigrateFrom (cr_Job r) = []"
  shows "\<exists>n i rows w1 st. create_Process E r w = (Ok (Some (n, i, rows)), w1) \<and>
    st = drive (length rows) E (start_job E (n, i, rows) w1) \<and>
    js_jobs st = Map.empty \<and> js_ready st = [] \<and>
    stage_of (js_world st) (w_next_id w) = Some (DbStage_ReadyToUse, DbStatus_Done) \<and>
    (\<forall>k < length rows. tk_Status (dt_row (js_heap st k)) = DbTaskStatusCompleted)"
proof -
  define as where "as = DbActionCreateUser # create_actions (cr_Job r)"
  have as: "as = [DbActionCreateUser, DbActionCreate, DbActionWaitReady] \<or>
      as = [DbActionCreateUser, DbActionCreate, DbActionRestore, DbActionWaitReady]"
    using assms(7) by (simp add: as_def create_actions_def)
  have s: "spec_run as (DbStage_None, DbStatus_Processing) =
      (replicate (length as) DbTaskStatusCompleted, (DbStage_ReadyToUse, DbStatus_Done))"
    and ok: "creates_ok as (DbStage_None, DbStatus_Processing)"
    using as by (auto simp: spec_step_def numeral_3_eq_3)
  obtain n i rows w1 st where R: "create_Process E r w = (Ok (Some (n, i, rows)), w1)"
      "st = drive (length rows) E (start_job E (n, i, rows) w1)" "js_jobs st = Map.empty" "js_ready st = []"
      "stage_of (js_world st) (w_next_id w) = Some (DbStage_ReadyToUse, DbStatus_Done)"
      "map (\<lambda>k. tk_Status (dt_row (js_heap st k))) [0..<length rows] = replicate (length as) DbTaskStatusCompleted"
    using create_run [OF assms(1-6) s [unfolded as_def] ok [unfolded as_def]] by (auto simp: as_def)
  have "tk_Status (dt_row (js_heap st k)) = DbTaskStatusCompleted" if "k < length rows" for k
  proof -
    have "tk_Status (dt_row (js_heap st k)) \<in> set (map (\<lambda>k. tk_Status (dt_row (js_heap st k))) [0..<length rows])"
      using that by simp
    then show ?thesis unfolding R(6) by simp
  qed
  with R(1-5) show ?thesis by blast
qed

text \<open>
  A create request for a new database that migrates from nowhere, when the environment answers:
  the request sends its job, the job runs to its end and is dropped, every task is completed and the
  database is ready to use.
\<close>

theorem create_reaches_ready:
  assumes "healthy E" and "cfg_tmpl (env_cfg E) \<noteq> None" and "fresh_uuids E w 10" and "wf_world w"
    and "\<not> IsReservedName (env_cfg E) (cj_Name (cr_Job r))"
    and "sel_by db_Name (cj_Name (cr_Job r)) (w_dbs w) = None"
    and "cj_MigrateFrom (cr_Job r) = []"
  shows "\<exists>n i rows w1 st. create_Process E r w = (Ok (Some (n, i, rows)), w1) \<and>
    st = drive (length rows) E (start_job E (n, i, rows) w1) \<and>
    js_jobs st = Map.empty \<and> js_ready st = [] \<and>
    stage_of (js_world st) (w_next_id w) = Some (DbStage_ReadyToUse, DbStatus_Done) \<and>
    (\<forall>k < length rows. tk_Status (dt_row (js_heap st k)) = DbTaskStatusCompleted)"
  using assms by (rule create_job_reaches_ready)


text \<open>
  C20. A migrate-out request on a database that is ready never completes: the request itself moves
  the record to idle and processing, and its task wants a database that is ready. The task fails and
  the record stays idle and processing.
\<close>

theorem migrate_out_never_completes:
  assumes "healthy E" and "cfg_tmpl (env_cfg E) \<noteq> None" and "fresh_uuids E w 6" and "wf_world w"
    and "sel_by db_Name (mj_Name (mr_Job r)) (w_dbs w) = Some d" and "Db_IsReadyToUse d"
    and "mr_JobId r = uuid_Nil \<or> mr_JobId r \<noteq> db_LastJobID d"
  shows "\<exists>i t w1 st. migrate_Process E r w = (Ok (Some ([], i, [t])), w1) \<and>
    st = drive 1 E (start_job E ([], i, [t]) w1) \<and> js_jobs st = Map.empty \<and>
    tk_Status (dt_row (js_heap st 0)) = DbTaskStatusFailed \<and>
    stage_of (js_world st) (db_ID d) = Some (DbStage_Idle, DbStatus_Processing)"
proof -
  obtain i t w1 d1 where R: "migrate_Process E r w = (Ok (Some ([], i, [t])), w1)" "wf_world w1"
      "stored (w_dbs w1) d1" "same_db d d1" "(db_Stage d1, db_Status d1) = (DbStage_Idle, DbStatus_Processing)"
    and t: "tk_Status t = DbTaskStatusPending" "tk_JobID t = i" "tk_DbID t = db_ID d" "tk_DbName t = db_Name d"
      "tk_Action t = DbActionMigrateOut" "td_DependsOn (tk_Data t) = []"
    using migrate_process_ready [OF assms(1,3-7)] by metis
  have "all_finish E [t] w1 \<and>
      map tk_Status (fst (run_rows E [t] w1)) = fst (spec_run (map tk_Action [t]) (db_Stage d1, db_Status d1)) \<and>
      moved d1 (snd (spec_run (map tk_Action [t]) (db_Stage d1, db_Status d1))) (w_dbs (snd (run_rows E [t] w1)))"
    by (rule run_rows_spec [OF assms(1,2) R(2,3)]) (use t R(4,5) in \<open>auto simp: same_db_def\<close>)
  then have S: "all_finish E [t] w1" "map tk_Status (fst (run_rows E [t] w1)) = [DbTaskStatusFailed]"
      "moved d1 (DbStage_Idle, DbStatus_Processing) (w_dbs (snd (run_rows E [t] w1)))"
    using R(5) by (simp_all add: t(5) spec_step_def)
  define st where "st = drive (length [t]) E (start_job E ([], i, [t]) w1)"
  have D: "js_jobs st = Map.empty" "js_world st = snd (run_rows E [t] w1)"
      "dt_row (js_heap st 0) = fst (run_rows E [t] w1) ! 0"
    using drive_job [OF _ _ _ S(1) st_def] t by auto
  have "tk_Status (dt_row (js_heap st 0)) = DbTaskStatusFailed"
    using S(2) D(3) by (auto simp: case_prod_unfold)
  moreover have "stage_of (js_world st) (db_ID d) = Some (DbStage_Idle, DbStatus_Processing)"
    using D(2) S(3) R(4) by (auto simp: stage_of_def moved_def stored_def same_db_def)
  ultimately show ?thesis using R(1) D(1) by (auto simp: st_def)
qed

definition sample_create :: "string \<Rightarrow> create_request" where
  "sample_create migrate_from = \<lparr>cr_Job = \<lparr>cj_Name = ''app'', cj_Reason = [], cj_Owner = ''joe'',
     cj_Password = ''pw'', cj_MigrateFrom = migrate_from, cj_BackupPath = []\<rparr>, cr_JobId = uuid_Nil\<rparr>"

definition sample_migrate :: migrate_request where
  "sample_migrate = \<lparr>mr_Job = \<lparr>mj_Name = ''app'', mj_Reason = [], mj_MigrateTo = ''pg-17'',
     mj_ExpiredAt = None\<rparr>, mr_JobId = uuid_Nil\<rparr>"

definition ready_world :: agent_world where
  "ready_world = empty_world\<lparr>w_dbs := [sample_db DbStage_ReadyToUse DbStatus_Done], w_next_id := 2\<rparr>"

lemma sample_fresh:
  assumes "w_calls w = 0" and "w_tasks w = []" and "n \<le> 10"
  shows "fresh_uuids sample_env w n"
proof -
  have "take_bit 128 k = k" if "k < 10" for k :: nat
    using that by (simp add: take_bit_nat_eq_self)
  then show ?thesis
    using assms by (auto simp: fresh_uuids_def sample_env_def inj_on_def word_of_nat_eq_iff)
qed

lemma sample_cfg_tmpl [simp]: "cfg_tmpl sample_cfg = Some Inr" "env_cfg sample_env = sample_cfg"
  "IsReservedName sample_cfg ''app'' = False"
  by (simp_all add: sample_env_def sample_cfg_def IsReservedName_iff)

lemma sample_fields [simp]:
  "w_dbs empty_world = []" "w_tasks empty_world = []" "w_calls empty_world = 0" "w_next_id empty_world = 1"
  "cj_Name (cr_Job (sample_create m)) = ''app''" "cj_MigrateFrom (cr_Job (sample_create m)) = m"
  "mj_Name (mr_Job sample_migrate) = ''app''" "mr_JobId sample_migrate = uuid_Nil"
  "db_Name (sample_db x y) = ''app''" "db_ID (sample_db x y) = 1" "db_Stage (sample_db x y) = x"
  "db_Status (sample_db x y) = y"
  by (simp_all add: empty_world_def sample_create_def sample_migrate_def sample_db_def)

lemma ready_world_fields [simp]:
  "w_dbs ready_world = [sample_db DbStage_ReadyToUse DbStatus_Done]" "w_tasks ready_world = []"
  "w_calls ready_world = 0" "wf_world ready_world"
  by (simp_all add: ready_world_def wf_world_def wf_tables_def)

theorem create_reaches_ready_witness:
  "\<exists>n i rows w1 st. create_Process sample_env (sample_create []) empty_world = (Ok (Some (n, i, rows)), w1) \<and>
     st = drive (length rows) sample_env (start_job sample_env (n, i, rows) w1) \<and>
     js_jobs st = Map.empty \<and> js_ready st = [] \<and>
     stage_of (js_world st) 1 = Some (DbStage_ReadyToUse, DbStatus_Done) \<and>
     (\<forall>k < length rows. tk_Status (dt_row (js_heap st k)) = DbTaskStatusCompleted)"
  using create_reaches_ready [of sample_env empty_world "sample_create []"]
  by (simp add: sample_fresh)


theorem migrate_out_never_completes_witness:
  "\<exists>i t w1 st. migrate_Process sample_env sample_migrate ready_world = (Ok (Some ([], i, [t])), w1) \<and>
     st = drive 1 sample_env (start_job sample_env ([], i, [t]) w1) \<and> js_jobs st = Map.empty \<and>
     tk_Status (dt_row (js_heap st 0)) = DbTaskStatusFailed \<and>
     stage_of (js_world st) 1 = Some (DbStage_Idle, DbStatus_Processing)"
  using migrate_out_never_completes [of sample_env ready_world sample_migrate "sample_db DbStage_ReadyToUse DbStatus_Done"]
  by (simp add: sample_fresh Db_IsReadyToUse_def)

section \<open>Properties of the layers below\<close>

text \<open>
  C23. The table invariant: ids and database names stay unique, ids come from the sequence, and no
  password is ever stored, whatever the request or the task action does and whatever fails.
\<close>

theorem agent_keeps_tables:
  assumes "wf_world w"
  shows "wf_world (snd (GrpcAgentHandler_handle up E task w)) \<and> wf_world (snd (handle E t w)) \<and>
    wf_world (snd (Cancel E reason dt w))"
  using assms by (simp add: tables.inv_request tables.inv_handle tables.inv_Cancel)

theorem agent_keeps_tables_witness:
  "wf_world (snd (handle sample_env (sample_action DbActionCreateUser)
     (sample_world (sample_db DbStage_None DbStatus_Processing) (sample_action DbActionCreateUser))))"
  by (rule agent_keeps_tables [THEN conjunct2, THEN conjunct1])
    (simp add: sample_defs wf_world_def wf_tables_def)

text \<open>
  A request that sends no job leaves the tables as they were, on every path: refused, failing
  half-way through its tasks, or panicking.
\<close>

theorem request_without_job_changes_nothing:
  assumes "\<And>x. fst (GrpcAgentHandler_handle up E task w) \<noteq> Ok (Some x)"
  shows "w_dbs (snd (GrpcAgentHandler_handle up E task w)) = w_dbs w \<and>
    w_tasks (snd (GrpcAgentHandler_handle up E task w)) = w_tasks w"
  using assms by (rule request_atomic)

text \<open>The fourth call, creating the record of the first task, fails.\<close>

definition failing_env :: agent_env where
  "failing_env = sample_env\<lparr>env_fault := (\<lambda>n. if n = 5 then Some (ErrExt ''connection lost'') else None)\<rparr>"

definition sample_job :: db_job where
  "sample_job = \<lparr>dj_JobId = [], dj_Job = DbJob_CreateDatabase (cr_Job (sample_create []))\<rparr>"

theorem request_without_job_changes_nothing_witness:
  "fst (GrpcAgentHandler_handle (\<lambda>_. None) failing_env sample_job empty_world) =
     Fail (AlreadyLogged (ErrExt ''connection lost'') ErrorLevel) \<and>
   w_dbs (snd (GrpcAgentHandler_handle (\<lambda>_. None) failing_env sample_job empty_world)) = []"
proof -
  have r: "fst (GrpcAgentHandler_handle (\<lambda>_. None) failing_env sample_job empty_world) =
      Fail (AlreadyLogged (ErrExt ''connection lost'') ErrorLevel)"
    by code_simp
  have "w_dbs (snd (GrpcAgentHandler_handle (\<lambda>_. None) failing_env sample_job empty_world)) = w_dbs empty_world"
    using request_without_job_changes_nothing [of "\<lambda>_. None" failing_env sample_job empty_world] r by simp
  with r show ?thesis by simp
qed

text \<open>
  Optimistic locking: \<open>UpdateDbStatus\<close> either finds the row at the version its caller holds,
  writes it, hands the caller the new version and notifies, or it returns an error and changes
  neither the table nor the record, and notifies nobody.
\<close>

theorem UpdateDbStatus_optimistic:
  "(\<exists>now. fst (UpdateDbStatus E q d w) = (d\<lparr>db_UpdatedAt := now\<rparr>, None) \<and> db_current w d \<and>
      w_dbs (snd (UpdateDbStatus E q d w)) = put_db d now (w_dbs w) \<and>
      w_notified (snd (UpdateDbStatus E q d w)) = w_notified w @ [proto_of E (d\<lparr>db_UpdatedAt := now\<rparr>)]) \<or>
   (\<exists>e. fst (UpdateDbStatus E q d w) = (d, Some e) \<and> w_dbs (snd (UpdateDbStatus E q d w)) = w_dbs w \<and>
      w_notified (snd (UpdateDbStatus E q d w)) = w_notified w)"
  by (rule UpdateDbStatus_cases)

text \<open>
  A task that waits for several distinct tasks becomes ready at exactly one of their
  completions: the one after which all of them are done.
\<close>

theorem ready_at_last_dependency:
  assumes "distinct (liveDependsOn d)" and "distinct us" and "i < length us"
  shows "fst (DependsDone_all us d) ! i \<longleftrightarrow>
    us ! i \<in> set (liveDependsOn d) \<and> set (liveDependsOn d) \<subseteq> set (take (Suc i) us)"
  using assms by (rule DependsDone_all_nth)

theorem ready_at_last_dependency_witness:
  "fst (DependsDone_all [5, 2, 1, 4] (NewBaseTaskDependency [1, 2])) ! 2"
  using ready_at_last_dependency [of "NewBaseTaskDependency [1, 2]" "[5, 2, 1, 4]" 2]
  by (simp add: NewBaseTaskDependency_def)



text \<open>
  A configuration that \<open>AfterApply\<close> accepts has an instance name, a password and a parsed
  template, so that asking it for a host never panics.
\<close>

theorem applied_config_is_usable:
  assumes "AfterApply tp rf c = (c', None)"
  shows "cfg_InstanceName c' \<noteq> [] \<and> cfg_Password c' \<noteq> [] \<and> (\<exists>h. Host c' info = Ok h)"
  using AfterApply_ok [OF assms] Host_after_apply [OF assms] by blast

theorem applied_config_is_usable_witness:
  "cfg_InstanceName (fst (AfterApply (\<lambda>_. Inr Inr) (\<lambda>_. Inl (ErrExt [])) sample_cfg)) \<noteq> []"
proof -
  have a: "AfterApply (\<lambda>_. Inr Inr) (\<lambda>_. Inl (ErrExt [])) sample_cfg =
      (fst (AfterApply (\<lambda>_. Inr Inr) (\<lambda>_. Inl (ErrExt [])) sample_cfg), None)"
    by (simp add: AfterApply_def setTmpl_def setPassword_def sample_cfg_def)
  show ?thesis using applied_config_is_usable [OF a, of None] by blast
qed





text \<open>
  Waiting for the database at start-up returns once a ping is answered or the quit context is
  done, however many pings fail before.
\<close>

theorem migrate_returns:
  assumes "env_fault E (w_calls w + k) = None \<or> env_quit E (w_calls w + k)"
  shows "\<exists>r. MigrateDB E w = Some r"
  using ping_loop_returns [OF assms] by (auto simp: MigrateDB_def split: option.splits)

theorem migrate_returns_witness: "\<exists>r. MigrateDB failing_env (empty_world\<lparr>w_calls := 5\<rparr>) = Some r"
  using migrate_returns [of failing_env "empty_world\<lparr>w_calls := 5\<rparr>" 1]
  by (simp add: failing_env_def)

end
