(* ===== verification/Recovery.thy ===== *)
theory Recovery
  imports Job_Run
begin

text \<open>
  What the agent takes up again after a restart (\<open>recoverJobs\<close>, \<open>internal/handler/db_task/handler.go\<close>):
  the unfinished last job of each record, and nothing of a creation, since only a migration request
  writes the last job of a record.
\<close>

section \<open>The jobs recovery sends\<close>

text \<open>The tasks of a job, and whether one of them is not done.\<close>

definition tasks_of :: "uuid \<Rightarrow> agent_world \<Rightarrow> db_task_row list" where
  "tasks_of i w = filter (\<lambda>t. tk_JobID t = i) (w_tasks w)"

definition interrupted :: "agent_world \<Rightarrow> uuid \<Rightarrow> bool" where
  "interrupted w i \<longleftrightarrow> i \<noteq> uuid_Nil \<and> \<not> list_all done_row (tasks_of i w)"

text \<open>The message is a job of the id, with the rows of its tasks on the heap.\<close>

definition sends_job :: "agent_world \<Rightarrow> heap \<Rightarrow> uuid \<Rightarrow> job_msg \<Rightarrow> bool" where
  "sends_job w h i m \<longleftrightarrow> (\<exists>j. m = MsgJob j \<and> job_ID j = i \<and> map (\<lambda>k. dt_row (h k)) (job_Tasks j) = tasks_of i w)"

lemma alloc_rows: "map (\<lambda>k. dt_row (alloc n rows h k)) [n..<n + length rows] = rows"
  by (rule nth_equalityI) (simp_all add: alloc_def NewDbTask_def)

lemma alloc_done: "job_IsDone (alloc n rows h) (new_job [] i n rows) \<longleftrightarrow> list_all done_row rows"
proof -
  have "job_IsDone (alloc n rows h) (new_job [] i n rows) \<longleftrightarrow> list_all done_row (map (\<lambda>k. dt_row (alloc n rows h k)) [n..<n + length rows])"
    by (simp add: job_IsDone_def new_job_def list_all_iff IsDone_row)
  then show ?thesis by (simp only: alloc_rows)
qed

lemma recoverJob_cases:
  assumes "healthy E"
  obtains n1 h1 ms w1 where "recoverJob E i (h, n) w = ((None, (h1, n1), ms), w1)" and "n \<le> n1"
    and "\<And>k. k < n \<Longrightarrow> dt_row (h1 k) = dt_row (h k)" and "w_dbs w1 = w_dbs w" and "w_tasks w1 = w_tasks w"
    and "interrupted w i \<Longrightarrow> \<exists>j. ms = [MsgJob j] \<and> job_ID j = i \<and> (\<forall>k\<in>set (job_Tasks j). k < n1) \<and> map (\<lambda>k. dt_row (h1 k)) (job_Tasks j) = tasks_of i w"
    and "\<not> interrupted w i \<Longrightarrow> ms = []"
proof (cases "i = uuid_Nil")
  case True
  then show ?thesis by (intro that[of h n "[]" w]) (simp_all add: recoverJob_def interrupted_def)
next
  case False
  let ?rows = "tasks_of i w" and ?w = "w\<lparr>w_calls := Suc (Suc (w_calls w))\<rparr>"
  let ?h = "alloc n ?rows h" and ?j = "new_job [] i n ?rows"
  have q: "q_ListDbTasksByJobID E i (w\<lparr>w_calls := Suc (w_calls w)\<rparr>) = (Inr ?rows, ?w)"
    using assms by (simp add: q_ListDbTasksByJobID_def query1_def api_simps tasks_of_def)
  have d: "distinct (job_Tasks ?j)" by (simp add: new_job_def)
  have r: "recoverJob E i (h, n) w = (if list_all done_row ?rows then ((None, (?h, n + length ?rows), []), ?w)
      else ((None, (job_Init ?h ?j, n + length ?rows), [MsgJob ?j]), ?w))"
    using False assms q alloc_done[of n ?rows h i] by (simp add: recoverJob_def api_Query_def api_simps Let_def)
  have rows: "dt_row (job_Init ?h ?j k) = dt_row (?h k)" for k by (simp add: job_Init_def init_loop_row[OF d])
  have old: "dt_row (?h k) = dt_row (h k)" if "k < n" for k using that by (simp add: alloc_def)
  have new: "map (\<lambda>k. dt_row (job_Init ?h ?j k)) (job_Tasks ?j) = ?rows"
    using alloc_rows[of n ?rows h] rows by (simp add: new_job_def)
  show ?thesis
  proof (cases "list_all done_row ?rows")
    case True
    with r old show ?thesis by (intro that[of ?h "n + length ?rows" "[]" ?w]) (simp_all add: interrupted_def)
  next
    case f: False
    with r old rows new False show ?thesis
      by (intro that[of "job_Init ?h ?j" "n + length ?rows" "[MsgJob ?j]" ?w]) (simp_all add: new_job_def interrupted_def)
  qed
qed

lemma recover_loop_sends:
  assumes "healthy E"
  shows "\<exists>h1 n1 ms w1. recover_loop E ds (h, n) w = ((None, (h1, n1), ms), w1) \<and> n \<le> n1 \<and>
    (\<forall>k<n. dt_row (h1 k) = dt_row (h k)) \<and> w_tasks w1 = w_tasks w \<and>
    list_all2 (sends_job w h1) (filter (interrupted w) (map db_LastJobID ds)) ms"
proof (induction ds arbitrary: h n w)
  case (Cons d ds)
  let ?i = "db_LastJobID d"
  obtain n1 h1 ms w1 where r: "recoverJob E ?i (h, n) w = ((None, (h1, n1), ms), w1)" "n \<le> n1"
      "\<And>k. k < n \<Longrightarrow> dt_row (h1 k) = dt_row (h k)" "w_tasks w1 = w_tasks w"
    and wd: "w_dbs w1 = w_dbs w" and s: "interrupted w ?i \<Longrightarrow> \<exists>j. ms = [MsgJob j] \<and> job_ID j = ?i \<and> (\<forall>k\<in>set (job_Tasks j). k < n1) \<and>
        map (\<lambda>k. dt_row (h1 k)) (job_Tasks j) = tasks_of ?i w"
    and z: "\<not> interrupted w ?i \<Longrightarrow> ms = []"
    by (rule recoverJob_cases[OF assms, of ?i h n w]) blast
  obtain h2 n2 ms2 w2 where l: "recover_loop E ds (h1, n1) w1 = ((None, (h2, n2), ms2), w2)" "n1 \<le> n2"
      "\<And>k. k < n1 \<Longrightarrow> dt_row (h2 k) = dt_row (h1 k)" "w_tasks w2 = w_tasks w1"
      "list_all2 (sends_job w1 h2) (filter (interrupted w1) (map db_LastJobID ds)) ms2"
    using Cons[of h1 n1 w1] by blast
  have same: "tasks_of k w1 = tasks_of k w" for k using r(4) by (simp add: tasks_of_def)
  have eq: "interrupted w1 = interrupted w" "sends_job w1 h2 = sends_job w h2"
    by (simp_all add: fun_eq_iff interrupted_def sends_job_def same)
  have "list_all2 (sends_job w h2) (if interrupted w ?i then [?i] else []) ms"
  proof (cases "interrupted w ?i")
    case True
    then obtain j where j: "ms = [MsgJob j]" "job_ID j = ?i" "\<forall>k\<in>set (job_Tasks j). k < n1"
        "map (\<lambda>k. dt_row (h1 k)) (job_Tasks j) = tasks_of ?i w" using s by blast
    have "map (\<lambda>k. dt_row (h2 k)) (job_Tasks j) = map (\<lambda>k. dt_row (h1 k)) (job_Tasks j)"
      using j(3) l(3) by simp
    then show ?thesis using True j by (simp add: sends_job_def)
  qed (use z in simp)
  from list_all2_appendI[OF this l(5)[unfolded eq]]
  have "list_all2 (sends_job w h2) (filter (interrupted w) (map db_LastJobID (d # ds))) (ms @ ms2)"
    by (cases "interrupted w ?i") simp_all
  then show ?case using r l by auto
qed (simp add: sends_job_def)


definition halted_world :: agent_world where
  "halted_world = empty_world\<lparr>w_dbs := [(sample_db DbStage_Idle DbStatus_Processing)\<lparr>db_LastJobID := 9\<rparr>],
     w_tasks := [sample_task 1 [] DbTaskStatusRunning]\<rparr>"


section \<open>Creations are not recovered\<close>

interpretation jobless: world_invariant "\<lambda>w. \<forall>d\<in>set (w_dbs w). db_LastJobID d = uuid_Nil" E "\<lambda>_ d. db_LastJobID d = uuid_Nil" for E
  by unfold_locales (auto simp: same_tables_def same_job_def dest!: set_put_db)

interpretation stored_tasks: world_invariant "\<lambda>w. I \<subseteq> tk_ID ` set (w_tasks w)" E "\<lambda>_ _. True" for E I
  by unfold_locales (auto simp: same_tables_def simp flip: set_map)

lemma ListDbs_rows: "ListDbs E q w = (Inr ds, w') \<Longrightarrow> set ds \<subseteq> set (w_dbs w)"
  by (auto simp: ListDbs_def api_Query_def q_ListDbs_def query1_def ext_def Let_def split: option.splits if_splits)

lemma recover_loop_nothing: "\<forall>d\<in>set ds. db_LastJobID d = uuid_Nil \<Longrightarrow> recover_loop E ds hn w = ((None, hn, []), w)"
  by (induction ds) (simp_all add: recoverJob_def)

lemma recoverJobs_nothing:
  assumes "\<forall>d\<in>set (w_dbs w). db_LastJobID d = uuid_Nil"
  shows "snd (snd (fst (recoverJobs E hn w))) = []"
proof (cases "ListDbs E True w")
  case (Pair r w1)
  then show ?thesis using ListDbs_rows[of E True w _ w1] assms recover_loop_nothing
    by (cases r) (auto simp: recoverJobs_def subset_iff)
qed

lemma create_Process_stored:
  assumes "create_Process E r w = (Ok (Some (n, i, rows)), w1)"
  shows "w_tasks w1 \<noteq> w_tasks w \<longrightarrow> tk_ID ` set rows \<subseteq> tk_ID ` set (w_tasks w1)"
    and "\<forall>d\<in>set (w_dbs w). db_LastJobID d = uuid_Nil \<Longrightarrow> \<forall>d\<in>set (w_dbs w1). db_LastJobID d = uuid_Nil"
proof -
  define w2 where "w2 = w\<lparr>w_calls := Suc (Suc (w_calls w))\<rparr>"
  obtain c x w3 where f: "create_process E r w2 = (c, x, w3)" by (cases "create_process E r w2")
  have x: "x = Ok (Some (n, i, rows))" and w1: "w1 = (if c then w3 else w3\<lparr>w_dbs := w_dbs w2, w_tasks := w_tasks w2\<rparr>)"
    using assms f by (auto simp: create_Process_def api_QueryWithRollback_def ext_def w2_def split: option.splits)
  obtain d w4 where "create_tasks E r d w4 = (c, Ok (Some (n, i, rows)), w3)"
    using f unfolding x by (auto simp: create_process_def split: prod.splits sum.splits option.splits if_splits)
  from create_tasks_sent(3)[OF this] have "tk_ID ` set rows \<subseteq> tk_ID ` set (w_tasks w3)" by auto
  then show "w_tasks w1 \<noteq> w_tasks w \<longrightarrow> tk_ID ` set rows \<subseteq> tk_ID ` set (w_tasks w1)"
    by (simp add: w1 w2_def)
  show "\<forall>d\<in>set (w_dbs w1). db_LastJobID d = uuid_Nil" if "\<forall>d\<in>set (w_dbs w). db_LastJobID d = uuid_Nil"
    using that jobless.inv_create_process[of w2 E r] f by (simp add: w1 w2_def)
qed

text \<open>
  C12. An interrupted creation is not recovered: as long as no migration was requested, whenever the agent
  stops after a create request has committed its tasks, the tasks are all in the table, and recovery
  sends no job, whatever the environment answers.
\<close>

theorem interrupted_creation_is_not_recovered:
  assumes "\<forall>d\<in>set (w_dbs w). db_LastJobID d = uuid_Nil"
    and "create_Process E r w = (Ok (Some (n, i, rows)), w1)" and "st = drive k E (start_job E (n, i, rows) w1)"
  shows "(w_tasks w1 \<noteq> w_tasks w \<longrightarrow> tk_ID ` set rows \<subseteq> tk_ID ` set (w_tasks (js_world st))) \<and>
    snd (snd (fst (recoverJobs E' hn (js_world st)))) = []"
proof (intro conjI impI)
  assume "w_tasks w1 \<noteq> w_tasks w"
  with create_Process_stored(1)[OF assms(2)] have "tk_ID ` set rows \<subseteq> tk_ID ` set (w_tasks w1)" ..
  then show "tk_ID ` set rows \<subseteq> tk_ID ` set (w_tasks (js_world st))"
    unfolding assms(3) by (intro stored_tasks.inv_drive stored_tasks.inv_start_job)
next
  have "\<forall>d\<in>set (w_dbs (js_world st)). db_LastJobID d = uuid_Nil"
    unfolding assms(3) by (intro jobless.inv_drive jobless.inv_start_job create_Process_stored(2)[OF assms(2,1)])
  then show "snd (snd (fst (recoverJobs E' hn (js_world st)))) = []" by (rule recoverJobs_nothing)
qed

text \<open>The agent stops after the first of the three tasks.\<close>

theorem interrupted_creation_is_not_recovered_witness:
  "\<exists>n i rows w1 st. create_Process sample_env (sample_create []) empty_world = (Ok (Some (n, i, rows)), w1) \<and>
     st = drive 1 sample_env (start_job sample_env (n, i, rows) w1) \<and>
     snd (snd (fst (recoverJobs sample_env (\<lambda>_. NewDbTask zero_task, 0) (js_world st)))) = []"
proof -
  obtain n i rows w1 where c: "create_Process sample_env (sample_create []) empty_world = (Ok (Some (n, i, rows)), w1)"
    using create_Process_fresh[of sample_env empty_world "sample_create []"] by (auto simp: sample_fresh)
  have "\<forall>d\<in>set (w_dbs empty_world). db_LastJobID d = uuid_Nil" by simp
  from interrupted_creation_is_not_recovered[OF this c refl] c show ?thesis by blast
qed

end
