(* ===== verification/Source_Safety.thy ===== *)
theory Source_Safety
  imports Sources
begin

text \<open>
  The interleaving of the calls of the source handler, and what it keeps: no registered source is ever
  forgotten. Then the handler's behaviour on a refused creation, on an instance that comes online, on a
  file that is deleted and written again, and on a drop.
\<close>

section \<open>No source is lost\<close>

text \<open>
  The interleaving of the handler's calls: a source is added under a new address, as the files and the
  web server create it; a call that was started on its own runs; a timer fires; and the database
  manager may change at any time.
\<close>

definition fresh_source :: "nat \<Rightarrow> 'm source_state \<Rightarrow> bool" where
  "fresh_source r s = (r \<notin> ran (sh_Databases s) \<and> GoSend r \<notin> set (sh_spawned s) \<and> GoRemove r \<notin> set (sh_spawned s))"

inductive source_step :: "'m source_env \<Rightarrow> 'm source_state \<Rightarrow> 'm source_state \<Rightarrow> bool" for E where
  Add: "fresh_source r s \<Longrightarrow> so_State x = SourceStateUnknown \<Longrightarrow> so_ExpectState x = SourceStateZero \<Longrightarrow>
    source_step E s (snd (AddDatabaseSource E r (put_source r x s)))"
| MarkIdle: "source_step E s (MarkDatabaseSourceIdle E name s)"
| Handle: "sh_spawned s = xs @ GoSend r # ys \<Longrightarrow>
    source_step E s (snd (SourceHandler_Handle E r (s\<lparr>sh_spawned := xs @ ys\<rparr>)))"
| Remove: "sh_spawned s = xs @ GoRemove r # ys \<Longrightarrow>
    source_step E s (RemoveDatabaseSource r (s\<lparr>sh_spawned := xs @ ys\<rparr>))"
| Online: "sh_spawned s = xs @ GoOnline inst # ys \<Longrightarrow> distinct order \<Longrightarrow> set order = dom (sh_Databases s) \<Longrightarrow>
    source_step E s (handleDatabasesOnInstanceOnline E inst order (s\<lparr>sh_spawned := xs @ ys\<rparr>))"
| Fire: "sh_cron s = xs @ (t, f) # ys \<Longrightarrow> source_step E s (cron_fire f t (s\<lparr>sh_cron := xs @ ys\<rparr>))"
| DbStatus: "source_step E s (snd (OnDbStatusChanged E d s))"
| InstanceStatus: "source_step E s (snd (OnInstanceStatusChanged i s))"
| Manager: "source_step E s (s\<lparr>sh_manager := m\<rparr>)"

inductive source_reach :: "'m source_env \<Rightarrow> 'm source_state \<Rightarrow> bool" for E where
  new: "source_reach E (NewSourceHandler h m)"
| step: "source_reach E s \<Longrightarrow> source_step E s s' \<Longrightarrow> source_reach E s'"

text \<open>What a registered source waits for, by its state.\<close>

definition awaited :: "spawned set \<Rightarrow> (time \<times> cron_func) set \<Rightarrow> nat \<Rightarrow> DatabaseSource \<Rightarrow> bool" where
  "awaited sp cr r x =
     ((so_ExpectState x = SourceStateReady \<or> so_ExpectState x = SourceStateIdle) \<and>
      (case so_State x of
         SourceStateUnknown \<Rightarrow> GoSend r \<in> sp
       | SourceStateScheduling \<Rightarrow> GoSend r \<in> sp \<or> (so_NextScheduleAt x, CronRetry (so_Name x)) \<in> cr \<or>
           so_ExpectState x = SourceStateIdle \<and> (so_NextScheduleAt x, CronIdle (so_Name x)) \<in> cr
       | SourceStateDropped \<Rightarrow> GoRemove r \<in> sp
       | SourceStateFailed \<Rightarrow> False
       | SourceStateZero \<Rightarrow> False
       | _ \<Rightarrow> True))"

definition tracked :: "'m source_state \<Rightarrow> nat \<Rightarrow> bool" where
  "tracked s r = awaited (set (sh_spawned s)) (set (sh_cron s)) r (sh_heap s r)"

definition source_inv :: "'m source_state \<Rightarrow> bool" where
  "source_inv s = (\<forall>name r. sh_Databases s name = Some r \<longrightarrow> so_Name (sh_heap s r) = name \<and> tracked s r)"

text \<open>A call that works on one source leaves the others as they are, and drops nothing that waits.\<close>

definition touches :: "nat \<Rightarrow> 'm source_state \<Rightarrow> 'm source_state \<Rightarrow> bool" where
  "touches r s s' = (sh_Databases s' = sh_Databases s \<and> (\<forall>q. q \<noteq> r \<longrightarrow> sh_heap s' q = sh_heap s q) \<and>
     so_Request (sh_heap s' r) = so_Request (sh_heap s r) \<and>
     set (sh_spawned s) \<subseteq> set (sh_spawned s') \<and> set (sh_cron s) \<subseteq> set (sh_cron s'))"

lemma touches_refl [simp, intro]: "touches r s s"
  by (simp add: touches_def)

lemma touches_trans: "touches r s t \<Longrightarrow> touches r t u \<Longrightarrow> touches r s u"
  unfolding touches_def by auto

lemma awaited_mono: "awaited sp cr r x \<Longrightarrow> sp \<subseteq> sp' \<Longrightarrow> cr \<subseteq> cr' \<Longrightarrow> awaited sp' cr' r x"
  unfolding awaited_def by (auto split: SourceState.splits)

lemma tracked_touches: "touches r s s' \<Longrightarrow> q \<noteq> r \<Longrightarrow> tracked s q \<Longrightarrow> tracked s' q"
  unfolding tracked_def touches_def by (metis awaited_mono)

lemma source_inv_touches:
  assumes "touches r s s'" and "\<And>name q. sh_Databases s name = Some q \<Longrightarrow> so_Name (sh_heap s q) = name \<and> (q \<noteq> r \<longrightarrow> tracked s q)"
    and "r \<in> ran (sh_Databases s) \<Longrightarrow> tracked s' r"
  shows "source_inv s'"
  unfolding source_inv_def
proof (intro allI impI)
  fix name q
  assume "sh_Databases s' name = Some q"
  then have q: "sh_Databases s name = Some q" using assms(1) by (simp add: touches_def)
  show "so_Name (sh_heap s' q) = name \<and> tracked s' q"
  proof (cases "q = r")
    case True
    then show ?thesis using assms q by (auto simp: touches_def ran_def)
  next
    case False
    then show ?thesis using assms(2)[OF q] tracked_touches[OF assms(1) False] assms(1) by (simp add: touches_def)
  qed
qed

lemma retryNextTime_touches: "touches r s (retryNextTime E r s)"
  by (simp add: touches_def retryNextTime_def read_clock_def put_source_def NextRetryDelay_def Let_def subset_insertI)

lemma retryNextTime_source [simp]:
  "so_ExpectState (sh_heap (retryNextTime E r s) r) = so_ExpectState (sh_heap s r)"
  "so_State (sh_heap (retryNextTime E r s) r) = SourceStateScheduling"
  "so_Request (sh_heap (retryNextTime E r s) r) = so_Request (sh_heap s r)"
  "(so_NextScheduleAt (sh_heap (retryNextTime E r s) r), CronRetry (so_Name (sh_heap s r))) \<in> set (sh_cron (retryNextTime E r s))"
  by (simp_all add: retryNextTime_def read_clock_def put_source_def NextRetryDelay_def Let_def)

abbreviation expects :: "DatabaseSource \<Rightarrow> bool" where
  "expects x \<equiv> so_ExpectState x = SourceStateReady \<or> so_ExpectState x = SourceStateIdle"

lemma tracked_expects: "tracked s r \<Longrightarrow> expects (sh_heap s r)"
  by (simp add: tracked_def awaited_def)

lemma retryNextTime_tracked: "expects (sh_heap s r) \<Longrightarrow> tracked (retryNextTime E r s) r"
  unfolding tracked_def awaited_def by auto

lemma UpdateState_source:
  assumes "UpdateState d x = (changed, y)"
  shows "so_Request y = so_Request x \<and> so_ExpectState y = so_ExpectState x \<and>
    (if changed then so_State y = SourceStateDropped \<or> so_State y = SourceStateFailed \<or> so_State y = so_ExpectState x
     else y = x)"
  using assms by (auto simp: UpdateState_def ResetRetryDelay_def split: if_splits)

lemma put_source_touches: "so_Request x = so_Request (sh_heap s r) \<Longrightarrow> touches r s (put_source r x s)"
  by (simp add: touches_def put_source_def)

lemma spawn_touches: "touches r s (spawn g s)"
  by (simp add: touches_def spawn_def subset_insertI)

lemma put_source_heap [simp]: "sh_heap (put_source r x s) r = x"
  by (simp add: put_source_def)

lemma updateDbStatus_touches: "touches r s (updateDbStatus E r d s)"
proof (cases "UpdateState d (sh_heap s r)")
  case (Pair changed y)
  then have "touches r s (put_source r y s)" using UpdateState_source by (blast intro: put_source_touches)
  then show ?thesis using Pair
    by (auto simp: updateDbStatus_def Let_def intro: touches_trans retryNextTime_touches spawn_touches)
qed

lemma updateDbStatus_expect [simp]:
  "so_ExpectState (sh_heap (updateDbStatus E r d s) r) = so_ExpectState (sh_heap s r)"
  using UpdateState_source[of d "sh_heap s r"]
  by (cases "UpdateState d (sh_heap s r)") (auto simp: updateDbStatus_def Let_def spawn_def put_source_def)

lemma tracked_cong:
  "sh_heap s r = sh_heap s' r \<Longrightarrow> sh_spawned s = sh_spawned s' \<Longrightarrow> sh_cron s = sh_cron s' \<Longrightarrow> tracked s r = tracked s' r"
  by (simp add: tracked_def)

lemma updateDbStatus_tracked:
  assumes "tracked s r"
  shows "tracked (updateDbStatus E r d s) r"
proof (cases "UpdateState d (sh_heap s r)")
  case (Pair changed y)
  note y = UpdateState_source[OF Pair] tracked_expects[OF assms]
  show ?thesis
  proof (cases changed)
    case False
    then have "tracked (put_source r y s) r" using assms y by (simp add: tracked_def put_source_def)
    then show ?thesis using Pair False by (simp add: updateDbStatus_def)
  next
    case True
    consider (failed) "so_State y = SourceStateFailed" | (dropped) "so_State y = SourceStateDropped"
      | (expect) "so_State y = so_ExpectState y" "so_State y \<noteq> SourceStateFailed" "so_State y \<noteq> SourceStateDropped"
      using y True by auto
    then show ?thesis
    proof cases
      case failed
      then show ?thesis using Pair True y by (simp add: updateDbStatus_def Let_def retryNextTime_tracked)
    next
      case dropped
      then show ?thesis using Pair True y
        by (simp add: updateDbStatus_def Let_def tracked_def awaited_def spawn_def put_source_def)
    next
      case expect
      then show ?thesis using Pair True y
        by (auto simp: updateDbStatus_def Let_def tracked_def awaited_def put_source_def)
    qed
  qed
qed

lemma read_clock_touches: "read_clock E s = (now, s') \<Longrightarrow> touches r s s' \<and> sh_heap s' = sh_heap s"
  by (auto simp: read_clock_def touches_def)

lemma syncDatabaseSource_touches: "syncDatabaseSource E r s = (b, s') \<Longrightarrow> touches r s s'"
  by (auto simp: syncDatabaseSource_def Let_def updateDbStatus_touches split: sum.splits)

lemma syncDatabaseSource_expect:
  "syncDatabaseSource E r s = (b, s') \<Longrightarrow>
    so_ExpectState (sh_heap s' r) = so_ExpectState (sh_heap s r) \<and>
    (b \<longrightarrow> so_State (sh_heap s' r) = so_ExpectState (sh_heap s' r))"
  by (auto simp: syncDatabaseSource_def Let_def Synced_def split: sum.splits)

lemma tracked_resting:
  "expects (sh_heap s r) \<Longrightarrow> so_State (sh_heap s r) \<in> {SourceStateReady, SourceStateIdle, SourceStateProcessing, SourceStatePending} \<Longrightarrow>
   tracked s r"
  by (auto simp: tracked_def awaited_def)

lemma touches_manager: "touches r s (s\<lparr>sh_manager := m\<rparr>)"
  by (simp add: touches_def)

text \<open>After a source was handled it waits for something again, whatever happened before.\<close>

lemma requestCreate_tracked:
  "touches r s (snd (requestCreate E r s)) \<and>
   (expects (sh_heap s r) \<and> so_State (sh_heap s r) = SourceStateProcessing \<longrightarrow> tracked (snd (requestCreate E r s)) r)"
proof -
  have k: "expects (sh_heap s r) \<and> so_State (sh_heap s r) = SourceStateProcessing \<longrightarrow> tracked s r"
    by (auto intro: tracked_resting)
  show ?thesis
  proof (cases "so_ExpectState (sh_heap s r) = SourceStateIdle \<or> (\<exists>e. PasswordContent (se_read_trimmed E) (so_Request (sh_heap s r)) = Inl e)")
    case True
    then show ?thesis using k by (auto simp: requestCreate_def Let_def)
  next
    case False
    then obtain password where pw: "PasswordContent (se_read_trimmed E) (so_Request (sh_heap s r)) = Inr password"
      by (metis sum.exhaust)
    obtain res m where create: "se_CreateDb E (create_request_of (sh_heap s r) password) (sh_manager s) = (res, m)"
      by fastforce
    have km: "tracked (s\<lparr>sh_manager := m\<rparr>) r = tracked s r" by (simp add: tracked_def)
    have tm: "touches r s (s\<lparr>sh_manager := m\<rparr>)" by (rule touches_manager)
    show ?thesis
    proof (cases res)
      case None
      then show ?thesis using False pw create km k tm by (simp add: requestCreate_def Let_def)
    next
      case (Some e)
      obtain now s1 where s1: "read_clock E (s\<lparr>sh_manager := m\<rparr>) = (now, s1)" by fastforce
      define x where "x = (sh_heap s r)\<lparr>so_LastErrorMsg := error_text e, so_UpdatedAt := now\<rparr>"
      have t1: "touches r s s1" by (rule touches_trans[OF tm read_clock_touches[OF s1, THEN conjunct1]])
      have h1: "sh_heap s1 r = sh_heap s r" using read_clock_touches[OF s1] by simp
      have t2: "touches r s (put_source r (x\<lparr>so_State := st\<rparr>) s1)" for st
        by (rule touches_trans[OF t1]) (simp add: put_source_touches x_def h1)
      have ex: "expects (sh_heap s r) \<longrightarrow> expects (x\<lparr>so_State := st\<rparr>)" for st by (simp add: x_def)
      have eq: "snd (requestCreate E r s) =
          (if e = ErrInstanceOffline then put_source r (x\<lparr>so_State := SourceStatePending\<rparr>) s1
           else retryNextTime E r (put_source r (x\<lparr>so_State := SourceStateFailed\<rparr>) s1))"
        using False pw create Some s1 by (simp add: requestCreate_def Let_def x_def)
      show ?thesis
      proof (cases "e = ErrInstanceOffline")
        case True
        then show ?thesis using t2 ex[of SourceStatePending] by (auto simp: eq intro!: tracked_resting)
      next
        case other: False
        then show ?thesis using touches_trans[OF t2 retryNextTime_touches] ex[of SourceStateFailed]
          by (auto simp: eq intro!: retryNextTime_tracked)
      qed
    qed
  qed
qed

lemma SourceHandler_Handle_tracked:
  "touches r s (snd (SourceHandler_Handle E r s)) \<and>
   (expects (sh_heap s r) \<longrightarrow> tracked (snd (SourceHandler_Handle E r s)) r)"
proof -
  obtain now s1 where s1: "read_clock E s = (now, s1)" by fastforce
  define s2 where "s2 = put_source r ((sh_heap s1 r)\<lparr>so_LastScheduledAt := now\<rparr>) s1"
  obtain synced s3 where s3: "syncDatabaseSource E r s2 = (synced, s3)" by fastforce
  define s4 where "s4 = put_source r ((sh_heap s3 r)\<lparr>so_State := SourceStateProcessing\<rparr>) s3"
  have t2: "touches r s1 s2" unfolding s2_def by (rule put_source_touches) simp
  have t1: "touches r s s1" using read_clock_touches[OF s1] by blast
  have t3: "touches r s s3" by (rule touches_trans[OF touches_trans[OF t1 t2] syncDatabaseSource_touches[OF s3]])
  have e3: "expects (sh_heap s r) \<longrightarrow> expects (sh_heap s3 r)"
    using syncDatabaseSource_expect[OF s3] read_clock_touches[OF s1] by (simp add: s2_def)
  have t4: "touches r s s4" unfolding s4_def by (rule touches_trans[OF t3]) (simp add: put_source_touches)
  have e4: "expects (sh_heap s r) \<longrightarrow> expects (sh_heap s4 r) \<and> so_State (sh_heap s4 r) = SourceStateProcessing"
    using e3 by (simp add: s4_def)
  note r4 = requestCreate_tracked[of r s4 E]
  have eq: "SourceHandler_Handle E r s = (if synced then (None, s3) else requestCreate E r s4)"
    unfolding SourceHandler_Handle_def using s1 s3 by (simp add: s2_def[symmetric] s4_def[symmetric])
  show ?thesis
    using t3 touches_trans[OF t4 r4[THEN conjunct1]] r4 e3 e4 syncDatabaseSource_expect[OF s3] tracked_resting[of s3 r]
    by (auto simp: eq)
qed

lemma source_invD:
  "source_inv s \<Longrightarrow> sh_Databases s name = Some r \<Longrightarrow> so_Name (sh_heap s r) = name \<and> tracked s r"
  by (simp add: source_inv_def)

lemma cron_fire_inv:
  assumes inv: "source_inv s" and cron: "sh_cron s = xs @ (t, f) # ys"
  shows "source_inv (cron_fire f t (s\<lparr>sh_cron := xs @ ys\<rparr>))"
  unfolding source_inv_def
proof (intro allI impI)
  fix name r
  let ?s = "s\<lparr>sh_cron := xs @ ys\<rparr>"
  assume reg: "sh_Databases (cron_fire f t ?s) name = Some r"
  have same: "sh_Databases (cron_fire f t ?s) = sh_Databases s" "sh_heap (cron_fire f t ?s) = sh_heap s"
      "sh_cron (cron_fire f t ?s) = xs @ ys" "set (sh_spawned s) \<subseteq> set (sh_spawned (cron_fire f t ?s))"
    by (cases f; auto simp: idleDatabaseSource_def spawn_def split: option.splits)+
  note old = source_invD[OF inv reg[unfolded same(1)]]
  let ?x = "sh_heap s r"
  have sent: "GoSend r \<in> set (sh_spawned (cron_fire f t ?s))"
    if "t = so_NextScheduleAt ?x" and "f = CronRetry name \<or> f = CronIdle name \<and> so_ExpectState ?x = SourceStateIdle"
    using that reg[unfolded same(1)] by (auto simp: idleDatabaseSource_def spawn_def)
  have "awaited (set (sh_spawned (cron_fire f t ?s))) (set (xs @ ys)) r ?x"
  proof (cases "t = so_NextScheduleAt ?x \<and> (f = CronRetry name \<or> f = CronIdle name \<and> so_ExpectState ?x = SourceStateIdle)")
    case True
    then show ?thesis using sent old same(4)
      unfolding tracked_def awaited_def by (auto split: SourceState.splits)
  next
    case False
    then show ?thesis using old same(4) cron
      unfolding tracked_def awaited_def by (auto split: SourceState.splits)
  qed
  then show "so_Name (sh_heap (cron_fire f t ?s) r) = name \<and> tracked (cron_fire f t ?s) r"
    using old same by (simp add: tracked_def)
qed

text \<open>Taking a call of another source, or another kind, out of the list.\<close>

lemma tracked_take:
  assumes "tracked s q" and "sh_spawned s = xs @ g # ys" and "g \<noteq> GoSend q" and "g \<noteq> GoRemove q"
  shows "tracked (s\<lparr>sh_spawned := xs @ ys\<rparr>) q"
  using assms unfolding tracked_def awaited_def by (auto split: SourceState.splits)

lemma Handle_inv:
  assumes inv: "source_inv s" and sp: "sh_spawned s = xs @ GoSend r # ys"
  shows "source_inv (snd (SourceHandler_Handle E r (s\<lparr>sh_spawned := xs @ ys\<rparr>)))"
proof (rule source_inv_touches[OF SourceHandler_Handle_tracked[THEN conjunct1]])
  show "so_Name (sh_heap (s\<lparr>sh_spawned := xs @ ys\<rparr>) q) = name \<and> (q \<noteq> r \<longrightarrow> tracked (s\<lparr>sh_spawned := xs @ ys\<rparr>) q)"
    if "sh_Databases (s\<lparr>sh_spawned := xs @ ys\<rparr>) name = Some q" for name q
    using that source_invD[OF inv, of name q] tracked_take[OF _ sp, of q] by simp
  show "tracked (snd (SourceHandler_Handle E r (s\<lparr>sh_spawned := xs @ ys\<rparr>))) r"
    if "r \<in> ran (sh_Databases (s\<lparr>sh_spawned := xs @ ys\<rparr>))"
    using that source_invD[OF inv, of _ r] tracked_expects[of s r]
      SourceHandler_Handle_tracked[of r "s\<lparr>sh_spawned := xs @ ys\<rparr>" E] by (auto simp: ran_def)
qed

lemma RemoveDatabaseSource_inv:
  assumes inv: "source_inv s" and sp: "sh_spawned s = xs @ GoRemove r # ys"
  shows "source_inv (RemoveDatabaseSource r (s\<lparr>sh_spawned := xs @ ys\<rparr>))"
  unfolding source_inv_def
proof (intro allI impI)
  fix name q
  let ?s = "RemoveDatabaseSource r (s\<lparr>sh_spawned := xs @ ys\<rparr>)"
  assume reg: "sh_Databases ?s name = Some q"
  then have q: "sh_Databases s name = Some q" by (simp add: RemoveDatabaseSource_def split: if_splits)
  have "so_State (sh_heap s q) \<noteq> SourceStateDropped" if "q = r"
    using that reg source_invD[OF inv q] by (auto simp: RemoveDatabaseSource_def)
  then show "so_Name (sh_heap ?s q) = name \<and> tracked ?s q"
    using source_invD[OF inv q] sp
    by (auto simp: RemoveDatabaseSource_def tracked_def awaited_def split: SourceState.splits)
qed

text \<open>One source of the loop over the map, when an instance came online.\<close>

lemma online_source_tracked:
  "touches r s (online_source E inst r s) \<and> (tracked s r \<longrightarrow> tracked (online_source E inst r s) r)"
proof -
  define s1 where "s1 = (case is_Databases inst (so_Name (sh_heap s r)) of
                     None \<Rightarrow> s | Some d \<Rightarrow> updateDbStatus E r d s)"
  have s1: "touches r s s1 \<and> (tracked s r \<longrightarrow> tracked s1 r)"
    by (simp add: s1_def updateDbStatus_touches updateDbStatus_tracked split: option.splits)
  obtain now s2 where s2: "read_clock E s1 = (now, s2)" by fastforce
  define x where "x = (sh_heap s1 r)\<lparr>so_State := SourceStateScheduling, so_NextScheduleAt := now\<rparr>"
  have t2: "touches r s1 s2" and h2: "sh_heap s2 = sh_heap s1" using read_clock_touches[OF s2] by blast+
  have t3: "touches r s2 (put_source r x s2)" by (simp add: put_source_touches x_def h2)
  have sent: "touches r s (spawn (GoSend r) (put_source r x s2)) \<and>
      (tracked s r \<longrightarrow> tracked (spawn (GoSend r) (put_source r x s2)) r)"
    using touches_trans[OF touches_trans[OF touches_trans[OF s1[THEN conjunct1] t2] t3] spawn_touches]
      s1 tracked_expects[of s1 r]
    by (auto simp: tracked_def awaited_def x_def spawn_def put_source_def)
  have eq: "online_source E inst r s = (if Synced (sh_heap s r) then s
      else if so_InstanceName (sh_heap s r) \<noteq> is_Name inst \<and> rq_MigrateFrom (so_Request (sh_heap s r)) \<noteq> is_Name inst then s
      else if so_State (sh_heap s1 r) = SourceStatePending then spawn (GoSend r) (put_source r x s2) else s1)"
    using s2 h2 by (simp add: online_source_def s1_def[symmetric] x_def Let_def)
  show ?thesis using s1 sent unfolding eq by simp
qed

lemma touches_inv:
  assumes "source_inv s" and "touches r s s'" and "tracked s r \<Longrightarrow> tracked s' r"
  shows "source_inv s'"
  by (rule source_inv_touches[OF assms(2)]) (use assms source_invD[OF assms(1)] in \<open>auto simp: ran_def\<close>)

lemma online_source_inv: "source_inv s \<Longrightarrow> source_inv (online_source E inst r s)"
  using touches_inv online_source_tracked by blast

lemma online_loop_inv: "source_inv s \<Longrightarrow> source_inv (handleDatabasesOnInstanceOnline E inst order s)"
proof (induction order arbitrary: s)
  case (Cons k order)
  have "source_inv (case sh_Databases s k of None \<Rightarrow> s | Some r \<Rightarrow> online_source E inst r s)"
    using Cons.prems online_source_inv by (auto split: option.splits)
  then show ?case using Cons.IH by simp
qed simp

lemma take_online_inv:
  "source_inv s \<Longrightarrow> sh_spawned s = xs @ GoOnline i # ys \<Longrightarrow> source_inv (s\<lparr>sh_spawned := xs @ ys\<rparr>)"
  using tracked_take[of s] by (simp add: source_inv_def)


lemma AddDatabaseSource_inv:
  assumes inv: "source_inv s" and fresh: "fresh_source r s"
    and x: "so_State x = SourceStateUnknown" "so_ExpectState x = SourceStateZero"
  shows "source_inv (snd (AddDatabaseSource E r (put_source r x s)))"
proof -
  have other: "so_Name (sh_heap (put_source r x s) q) = name \<and> tracked (put_source r x s) q \<and> q \<noteq> r"
    if "sh_Databases s name = Some q" for name q
    using source_invD[OF inv that] that fresh by (auto simp: fresh_source_def ran_def tracked_def put_source_def)
  define s' where "s' = snd (AddDatabaseSource E r (put_source r x s))"
  have "s' = put_source r x s \<or> s' = spawn (GoSend r) ((put_source r (x\<lparr>so_ExpectState := SourceStateReady\<rparr>)
      (put_source r x s))\<lparr>sh_Databases := (sh_Databases s)(so_Name x \<mapsto> r)\<rparr>)"
    using x by (auto simp: s'_def AddDatabaseSource_def Let_def put_source_def split: option.splits)
  then show ?thesis
  proof
    assume "s' = put_source r x s"
    moreover have "sh_Databases (put_source r x s) = sh_Databases s" by (simp add: put_source_def)
    ultimately show ?thesis using other unfolding s'_def[symmetric] source_inv_def by metis
  next
    assume added: "s' = spawn (GoSend r) ((put_source r (x\<lparr>so_ExpectState := SourceStateReady\<rparr>)
      (put_source r x s))\<lparr>sh_Databases := (sh_Databases s)(so_Name x \<mapsto> r)\<rparr>)"
    show ?thesis
      unfolding source_inv_def s'_def[symmetric]
    proof (intro allI impI)
      fix name q
      assume "sh_Databases s' name = Some q"
      then have "name = so_Name x \<and> q = r \<or> sh_Databases s name = Some q"
        by (auto simp: added spawn_def put_source_def split: if_splits)
      then show "so_Name (sh_heap s' q) = name \<and> tracked s' q"
      proof
        assume "name = so_Name x \<and> q = r"
        then show ?thesis using x by (simp add: added spawn_def put_source_def tracked_def awaited_def)
      next
        assume "sh_Databases s name = Some q"
        then show ?thesis using other[of name q] awaited_mono[of "set (sh_spawned s)" "set (sh_cron s)" q "sh_heap s q" "set (sh_spawned s')" "set (sh_cron s')"]
          by (auto simp: added spawn_def put_source_def tracked_def subset_insertI)
      qed
    qed
  qed
qed

lemma MarkDatabaseSourceIdle_inv: "source_inv s \<Longrightarrow> source_inv (MarkDatabaseSourceIdle E name s)"
proof (cases "sh_Databases s name")
  case (Some r)
  assume inv: "source_inv s"
  show ?thesis
  proof (cases "so_ExpectState (sh_heap s r) = SourceStateIdle")
    case False
    obtain now s1 where s1: "read_clock E s = (now, s1)" by fastforce
    define x where "x = (sh_heap s1 r)\<lparr>so_ExpectState := SourceStateIdle, so_State := SourceStateScheduling,
      so_NextScheduleAt := now + se_DeleyDelete E\<rparr>"
    define s2 where "s2 = (put_source r x s1)\<lparr>sh_cron := sh_cron s1 @ [(so_NextScheduleAt x, CronIdle name)]\<rparr>"
    have h1: "sh_heap s1 = sh_heap s" using read_clock_touches[OF s1] by blast
    have "touches r s s1" using read_clock_touches[OF s1] by blast
    moreover have "touches r s1 s2" by (auto simp: touches_def s2_def put_source_def x_def)
    ultimately have "touches r s s2" by (rule touches_trans)
    moreover have "tracked s2 r"
      using source_invD[OF inv Some] by (simp add: s2_def tracked_def awaited_def x_def put_source_def h1)
    moreover have "MarkDatabaseSourceIdle E name s = s2"
      using Some False s1 by (simp add: MarkDatabaseSourceIdle_def s2_def x_def Let_def)
    ultimately show ?thesis using touches_inv[OF inv] by simp
  qed (use Some inv in \<open>simp add: MarkDatabaseSourceIdle_def\<close>)
qed (simp add: MarkDatabaseSourceIdle_def)

lemma source_inv_frame:
  assumes "source_inv s" and "sh_Databases s' = sh_Databases s" and "sh_heap s' = sh_heap s"
    and "set (sh_spawned s) \<subseteq> set (sh_spawned s')" and "sh_cron s' = sh_cron s"
  shows "source_inv s'"
  using assms awaited_mono by (fastforce simp: source_inv_def tracked_def)

lemma source_step_inv: "source_step E s s' \<Longrightarrow> source_inv s \<Longrightarrow> source_inv s'"
proof (induction rule: source_step.induct)
  case (DbStatus s d)
  then show ?case
    using touches_inv[OF DbStatus updateDbStatus_touches updateDbStatus_tracked]
    by (simp add: OnDbStatusChanged_def split: option.splits)
next
  case (InstanceStatus i s)
  then show ?case
    by (rule source_inv_frame) (auto simp: OnInstanceStatusChanged_def Let_def spawn_def)
next
  case (Manager s m)
  then show ?case by (rule source_inv_frame) simp_all
qed (simp_all add: AddDatabaseSource_inv MarkDatabaseSourceIdle_inv Handle_inv RemoveDatabaseSource_inv
    take_online_inv online_loop_inv cron_fire_inv)

lemma source_reach_inv: "source_reach E s \<Longrightarrow> source_inv s"
  by (induction rule: source_reach.induct) (simp add: source_inv_def NewSourceHandler_def, rule source_step_inv)


text \<open>The condition under which the firing of one of the timers sends the source again.\<close>

definition woken_by_timer :: "'m source_state \<Rightarrow> nat \<Rightarrow> bool" where
  "woken_by_timer s r =
     (\<exists>t f. (t, f) \<in> set (sh_cron s) \<and> (\<forall>cs. GoSend r \<in> set (sh_spawned (cron_fire f t (s\<lparr>sh_cron := cs\<rparr>)))))"

lemma timer_wakes:
  assumes "sh_Databases s name = Some r" and "so_Name (sh_heap s r) = name" and "tracked s r"
    and "so_State (sh_heap s r) = SourceStateScheduling"
  shows "GoSend r \<in> set (sh_spawned s) \<or> woken_by_timer s r"
proof -
  have retry: "woken_by_timer s r" if "(so_NextScheduleAt (sh_heap s r), CronRetry name) \<in> set (sh_cron s)"
    unfolding woken_by_timer_def
    by (rule exI[of _ "so_NextScheduleAt (sh_heap s r)"], rule exI[of _ "CronRetry name"])
      (use that assms in \<open>simp add: spawn_def\<close>)
  have idle: "woken_by_timer s r" if "(so_NextScheduleAt (sh_heap s r), CronIdle name) \<in> set (sh_cron s)"
      "so_ExpectState (sh_heap s r) = SourceStateIdle"
    unfolding woken_by_timer_def
    by (rule exI[of _ "so_NextScheduleAt (sh_heap s r)"], rule exI[of _ "CronIdle name"])
      (use that assms in \<open>simp add: spawn_def idleDatabaseSource_def\<close>)
  show ?thesis using assms retry idle by (auto simp: tracked_def awaited_def)
qed


definition sample_request :: DatabaseRequest where
  "sample_request = \<lparr>rq_Name = ''app'', rq_Owner = ''app'', rq_PasswordFile = [], rq_Password = ''secret12'',
     rq_InstanceName = ''pg-16'', rq_MigrateFrom = [], rq_BackupPath = []\<rparr>"

definition sample_source :: DatabaseSource where
  "sample_source = \<lparr>so_Request = sample_request, so_Type = FileSource, so_ExpectState = SourceStateZero,
     so_State = SourceStateUnknown, so_UpdatedAt = 0, so_RetryDelay = 0, so_RetryTimes = 0,
     so_LastErrorMsg = [], so_LastScheduledAt = 0, so_NextScheduleAt = 0\<rparr>"

text \<open>A manager that knows no database and fails to create one.\<close>

definition refusing_env :: "unit source_env" where
  "refusing_env = \<lparr>se_now = int, se_read_trimmed = \<lambda>_. Inr [], se_GetDbStatus = \<lambda>_ _. Inl (ErrNew ''database not found''),
     se_CreateDb = \<lambda>_ m. (Some (ErrNew ''database is dropping''), m), se_validate = \<lambda>_. None, se_DeleyDelete = 100\<rparr>"

definition sample_sources :: "unit source_state" where
  "sample_sources = snd (AddDatabaseSource refusing_env 0 (put_source 0 sample_source (NewSourceHandler (\<lambda>_. sample_source) ())))"

definition failed_sources :: "unit source_state" where
  "failed_sources = snd (SourceHandler_Handle refusing_env 0 (sample_sources\<lparr>sh_spawned := []\<rparr>))"

lemmas sample_source_defs = sample_request_def sample_source_def refusing_env_def sample_sources_def
  NewSourceHandler_def AddDatabaseSource_def put_source_def spawn_def

lemma sample_sources_reach: "source_reach refusing_env sample_sources"
  unfolding sample_sources_def
  by (rule source_reach.step[OF source_reach.new source_step.Add])
    (simp_all add: fresh_source_def NewSourceHandler_def sample_source_def)

lemma failed_sources_reach: "source_reach refusing_env failed_sources"
proof -
  have "sh_spawned sample_sources = [] @ GoSend 0 # []" by (simp add: sample_source_defs)
  from source_step.Handle[OF this, of refusing_env] show ?thesis
    unfolding failed_sources_def by (auto intro: source_reach.step[OF sample_sources_reach])
qed

lemma failed_sources_eq:
  "sh_Databases failed_sources ''app'' = Some 0 \<and> so_State (sh_heap failed_sources 0) = SourceStateScheduling \<and>
   sh_spawned failed_sources = []"
  by (simp add: failed_sources_def SourceHandler_Handle_def requestCreate_def syncDatabaseSource_def read_clock_def
      retryNextTime_def NextRetryDelay_def PasswordContent_def Let_def sample_source_defs)


lemma Handle_unknown:
  assumes "\<And>q m. se_GetDbStatus E q m = Inl e0"
  shows "SourceHandler_Handle E r s = requestCreate E r (put_source r
    ((sh_heap s r)\<lparr>so_LastScheduledAt := se_now E (sh_ticks s), so_State := SourceStateProcessing\<rparr>)
    (s\<lparr>sh_ticks := Suc (sh_ticks s)\<rparr>))"
  using assms by (simp add: SourceHandler_Handle_def syncDatabaseSource_def read_clock_def put_source_def)

lemma requestCreate_refused:
  assumes "so_ExpectState (sh_heap s r) \<noteq> SourceStateIdle"
    and "PasswordContent (se_read_trimmed E) (so_Request (sh_heap s r)) = Inr password"
    and "se_CreateDb E (create_request_of (sh_heap s r) password) (sh_manager s) = (Some e, m)"
    and "e \<noteq> ErrInstanceOffline"
  shows "requestCreate E r s = (Some (AlreadyLogged e WarnLevel), retryNextTime E r (put_source r
     ((sh_heap s r)\<lparr>so_LastErrorMsg := error_text e, so_UpdatedAt := se_now E (sh_ticks s), so_State := SourceStateFailed\<rparr>)
     (s\<lparr>sh_manager := m, sh_ticks := Suc (sh_ticks s)\<rparr>)))"
  using assms by (simp add: requestCreate_def read_clock_def Let_def)

lemma retryNextTime_schedule:
  assumes "so_RetryDelay (sh_heap s r) = so_RetryDelay (retries n x)"
  shows "so_NextScheduleAt (sh_heap (retryNextTime E r s) r) = se_now E (sh_ticks s) + retry_schedule n * second"
    and "sh_cron (retryNextTime E r s) =
      sh_cron s @ [(so_NextScheduleAt (sh_heap (retryNextTime E r s) r), CronRetry (so_Name (sh_heap s r)))]"
    and "sh_spawned (retryNextTime E r s) = sh_spawned s" and "sh_manager (retryNextTime E r s) = sh_manager s"
    and "so_LastErrorMsg (sh_heap (retryNextTime E r s) r) = so_LastErrorMsg (sh_heap s r)"
proof -
  have d: "so_RetryDelay ((sh_heap s r)\<lparr>so_State := SourceStateScheduling\<rparr>) = (if n = 0 then 0 else word_of_int (retry_schedule (n - 1)))"
    using assms retries_state[of n x] by simp
  show "so_NextScheduleAt (sh_heap (retryNextTime E r s) r) = se_now E (sh_ticks s) + retry_schedule n * second"
    using NextRetryDelay_schedule(2)[OF d]
    by (simp add: retryNextTime_def read_clock_def put_source_def split_beta)
qed (simp_all add: retryNextTime_def read_clock_def put_source_def NextRetryDelay_def Let_def)

text \<open>
  Backing off: when the manager does not know the database and refuses to create it for another
  reason than an offline instance, the source is scheduled again with the next delay, its error is
  kept, the call returns the error marked as logged, and firing exactly the new timer, and no timer
  set for another time, sends the source again while it is registered.
\<close>

theorem refused_create_backs_off:
  assumes "so_ExpectState (sh_heap s r) = SourceStateReady"
    and "so_RetryDelay (sh_heap s r) = so_RetryDelay (retries n x)"
    and "PasswordContent (se_read_trimmed E) (so_Request (sh_heap s r)) = Inr password"
    and "\<And>q m. se_GetDbStatus E q m = Inl e0"
    and "se_CreateDb E (create_request_of (sh_heap s r) password) (sh_manager s) = (Some e, m)"
    and "e \<noteq> ErrInstanceOffline"
    and "SourceHandler_Handle E r s = (res, s')"
  shows "res = Some (AlreadyLogged e WarnLevel) \<and> sh_manager s' = m \<and>
     so_State (sh_heap s' r) = SourceStateScheduling \<and> so_LastErrorMsg (sh_heap s' r) = error_text e \<and>
     so_NextScheduleAt (sh_heap s' r) = se_now E (sh_ticks s + 2) + retry_schedule n * second \<and>
     sh_cron s' = sh_cron s @ [(so_NextScheduleAt (sh_heap s' r), CronRetry (so_Name (sh_heap s r)))] \<and>
     sh_spawned s' = sh_spawned s \<and>
     (\<forall>t u. sh_Databases u (so_Name (sh_heap s r)) = Some r \<and> sh_heap u = sh_heap s' \<longrightarrow>
        cron_fire (CronRetry (so_Name (sh_heap s r))) t u
          = (if t = so_NextScheduleAt (sh_heap s' r) then spawn (GoSend r) u else u))"
proof -
  define y where "y = (sh_heap s r)\<lparr>so_LastScheduledAt := se_now E (sh_ticks s), so_State := SourceStateProcessing\<rparr>"
  define s1 where "s1 = put_source r y (s\<lparr>sh_ticks := Suc (sh_ticks s)\<rparr>)"
  define z where "z = y\<lparr>so_LastErrorMsg := error_text e, so_UpdatedAt := se_now E (sh_ticks s1), so_State := SourceStateFailed\<rparr>"
  define s2 where "s2 = put_source r z (s1\<lparr>sh_manager := m, sh_ticks := Suc (sh_ticks s1)\<rparr>)"
  have y: "so_ExpectState (sh_heap s1 r) = SourceStateReady" "so_Request (sh_heap s1 r) = so_Request (sh_heap s r)"
    "create_request_of (sh_heap s1 r) password = create_request_of (sh_heap s r) password" "sh_manager s1 = sh_manager s"
    using assms(1) by (simp_all add: s1_def y_def create_request_of_def put_source_def)
  have "SourceHandler_Handle E r s = requestCreate E r s1"
    using Handle_unknown[OF assms(4)] by (simp add: s1_def y_def)
  also have "\<dots> = (Some (AlreadyLogged e WarnLevel), retryNextTime E r s2)"
    using requestCreate_refused[of s1 r E password e m] assms y by (simp add: s2_def z_def s1_def)
  finally have res: "res = Some (AlreadyLogged e WarnLevel)" "s' = retryNextTime E r s2" using assms(7) by simp_all
  have d: "so_RetryDelay (sh_heap s2 r) = so_RetryDelay (retries n x)"
    using assms(2) by (simp add: s2_def z_def y_def)
  have n: "so_Request (sh_heap s2 r) = so_Request (sh_heap s r)" "so_LastErrorMsg (sh_heap s2 r) = error_text e"
    "sh_ticks s2 = sh_ticks s + 2" "sh_manager s2 = m" "sh_cron s2 = sh_cron s" "sh_spawned s2 = sh_spawned s"
    by (simp_all add: s2_def z_def y_def s1_def put_source_def)
  show ?thesis using retryNextTime_schedule[OF d, of E] n by (simp add: res)
qed

definition refused_at :: "unit source_state" where
  "refused_at = snd (SourceHandler_Handle refusing_env 0 sample_sources)"

theorem refused_create_backs_off_witness:
  "so_NextScheduleAt (sh_heap refused_at 0) = 2 + retry_schedule 0 * second \<and>
   so_LastErrorMsg (sh_heap refused_at 0) = ''database is dropping''"
proof -
  note at = refused_create_backs_off[of sample_sources 0 0 sample_source refusing_env "''secret12''"
      "ErrNew ''database not found''" "ErrNew ''database is dropping''" "()"
      "fst (SourceHandler_Handle refusing_env 0 sample_sources)" refused_at]
  have env: "se_GetDbStatus refusing_env q m = Inl (ErrNew ''database not found'')"
    "se_CreateDb refusing_env c m = (Some (ErrNew ''database is dropping''), m)" "se_now refusing_env = int" for q c m
    by (simp_all add: refusing_env_def)
  have x: "sh_heap sample_sources 0 = sample_source\<lparr>so_ExpectState := SourceStateReady\<rparr>" "sh_ticks sample_sources = 0"
    by (simp_all add: sample_source_defs)
  have e: "so_ExpectState (sh_heap sample_sources 0) = SourceStateReady" by (simp add: x)
  have d: "so_RetryDelay (sh_heap sample_sources 0) = so_RetryDelay (retries 0 sample_source)"
    by (simp add: x sample_source_def retries_def ResetRetryDelay_def)
  have p: "PasswordContent (se_read_trimmed refusing_env) (so_Request (sh_heap sample_sources 0)) = Inr ''secret12''"
    by (simp add: x sample_source_def sample_request_def PasswordContent_def)
  have c: "se_CreateDb refusing_env (create_request_of (sh_heap sample_sources 0) ''secret12'') (sh_manager sample_sources)
      = (Some (ErrNew ''database is dropping''), ())" by (simp add: env)
  have h: "SourceHandler_Handle refusing_env 0 sample_sources
      = (fst (SourceHandler_Handle refusing_env 0 sample_sources), refused_at)" by (simp add: refused_at_def)
  have "ErrNew ''database is dropping'' \<noteq> ErrInstanceOffline" by simp
  from at[OF e d p env(1) c this h] show ?thesis by (elim conjE) (simp add: x env)
qed

section \<open>Sources that wait for an instance, and sources that go away\<close>

text \<open>What a pending source becomes when its instance comes online.\<close>

definition resumed :: "'m source_state \<Rightarrow> nat \<Rightarrow> bool" where
  "resumed s r = (let x = sh_heap s r in
     so_State x = SourceStateScheduling \<and> GoSend r \<in> set (sh_spawned s) \<or>
     so_State x = so_ExpectState x \<or>
     so_State x = SourceStateDropped \<and> GoRemove r \<in> set (sh_spawned s))"

lemma UpdateState_pending:
  assumes "so_State x = SourceStatePending" and "expects x"
  shows "so_State (snd (UpdateState d x)) \<in> {SourceStatePending, so_ExpectState x, SourceStateDropped} \<and>
    (so_State (snd (UpdateState d x)) = SourceStateDropped \<longrightarrow> fst (UpdateState d x))"
  using assms by (auto simp: UpdateState_def ResetRetryDelay_def)

lemma updateDbStatus_pending:
  assumes "so_State (sh_heap s r) = SourceStatePending" and "expects (sh_heap s r)"
  shows "so_State (sh_heap (updateDbStatus E r d s) r) = SourceStatePending \<or> resumed (updateDbStatus E r d s) r"
proof (cases "UpdateState d (sh_heap s r)")
  case (Pair changed x)
  then show ?thesis
    using UpdateState_pending[OF assms, of d] UpdateState_source[OF Pair] assms(2)
    by (auto simp: updateDbStatus_def resumed_def Let_def spawn_def put_source_def split: if_splits)
qed

lemma online_source_resumes:
  assumes "so_State (sh_heap s r) = SourceStatePending" and "expects (sh_heap s r)"
    and "so_InstanceName (sh_heap s r) = is_Name inst \<or> rq_MigrateFrom (so_Request (sh_heap s r)) = is_Name inst"
  shows "resumed (online_source E inst r s) r"
proof -
  define s1 where "s1 = (case is_Databases inst (so_Name (sh_heap s r)) of
                     None \<Rightarrow> s | Some d \<Rightarrow> updateDbStatus E r d s)"
  have s1: "so_State (sh_heap s1 r) = SourceStatePending \<or> resumed s1 r"
    using assms updateDbStatus_pending by (auto simp: s1_def split: option.splits)
  have "\<not> Synced (sh_heap s r)" using assms by (auto simp: Synced_def)
  then show ?thesis using assms(2,3) s1
    by (cases "so_State (sh_heap s1 r) = SourceStatePending")
      (auto simp: online_source_def s1_def[symmetric] resumed_def read_clock_def spawn_def put_source_def Let_def)
qed

lemma resumed_touches: "touches q s s' \<Longrightarrow> q \<noteq> r \<Longrightarrow> resumed s r \<Longrightarrow> resumed s' r"
  by (auto simp: resumed_def touches_def Let_def)

lemma online_loop_frame:
  "source_inv s \<Longrightarrow> sh_Databases (handleDatabasesOnInstanceOnline E inst order s) = sh_Databases s \<and>
   (sh_Databases s name = Some r \<longrightarrow> name \<notin> set order \<longrightarrow>
     sh_heap (handleDatabasesOnInstanceOnline E inst order s) r = sh_heap s r \<and>
     (resumed s r \<longrightarrow> resumed (handleDatabasesOnInstanceOnline E inst order s) r))"
proof (induction order arbitrary: s)
  case (Cons k order)
  define t where "t = (case sh_Databases s k of None \<Rightarrow> s | Some q \<Rightarrow> online_source E inst q s)"
  have inv: "source_inv t" using Cons.prems online_source_inv by (auto simp: t_def split: option.splits)
  have db: "sh_Databases t = sh_Databases s"
    using online_source_tracked by (auto simp: t_def touches_def split: option.splits)
  have "sh_heap t r = sh_heap s r \<and> (resumed s r \<longrightarrow> resumed t r)" if "sh_Databases s name = Some r" "name \<noteq> k"
  proof (cases "sh_Databases s k")
    case (Some q)
    then have "q \<noteq> r" using source_invD[OF Cons.prems] that by blast
    then show ?thesis using Some online_source_tracked[of q s E inst] resumed_touches[of q s t r]
      by (auto simp: t_def touches_def)
  qed (simp add: t_def)
  then show ?case using Cons.IH[OF inv] db by (simp add: t_def[symmetric])
qed simp

lemma online_loop_resumes:
  assumes "source_inv s" and "distinct order" and "name \<in> set order" and "sh_Databases s name = Some r"
    and "so_State (sh_heap s r) = SourceStatePending"
    and "so_InstanceName (sh_heap s r) = is_Name inst \<or> rq_MigrateFrom (so_Request (sh_heap s r)) = is_Name inst"
  shows "resumed (handleDatabasesOnInstanceOnline E inst order s) r"
  using assms
proof (induction order arbitrary: s)
  case (Cons k order)
  define t where "t = (case sh_Databases s k of None \<Rightarrow> s | Some q \<Rightarrow> online_source E inst q s)"
  have inv: "source_inv t" using Cons.prems(1) online_source_inv by (auto simp: t_def split: option.splits)
  have db: "sh_Databases t = sh_Databases s"
    using online_source_tracked by (auto simp: t_def touches_def split: option.splits)
  have step: "handleDatabasesOnInstanceOnline E inst (k # order) s = handleDatabasesOnInstanceOnline E inst order t"
    by (simp add: t_def)
  show ?case
  proof (cases "name = k")
    case True
    have "expects (sh_heap s r)" using source_invD[OF Cons.prems(1,4)] tracked_expects by blast
    then have "resumed t r" using online_source_resumes[OF Cons.prems(5)] Cons.prems True by (simp add: t_def)
    then show ?thesis unfolding step using online_loop_frame[OF inv, of E inst order name r] db Cons.prems True by simp
  next
    case False
    have same: "sh_heap t r = sh_heap s r"
    proof (cases "sh_Databases s k")
      case (Some q)
      then have "q \<noteq> r" using source_invD[OF Cons.prems(1)] Cons.prems(4) False by blast
      then show ?thesis using Some online_source_tracked[of q s E inst] by (simp add: t_def touches_def)
    qed (simp add: t_def)
    show ?thesis unfolding step
      by (rule Cons.IH[OF inv]) (use Cons.prems False db same in auto)
  qed
qed simp

text \<open>
  C32. An instance that comes online wakes every source that was waiting for it, whatever the order in
  which the sources are visited: a pending source on the instance, or migrating from it, is queued
  again, or it turns out to be in the expected state, or dropped.
\<close>

theorem online_instance_wakes_sources:
  assumes "source_reach E s" and "sh_spawned s = xs @ GoOnline inst # ys"
    and "distinct order" and "set order = dom (sh_Databases s)"
    and "sh_Databases s name = Some r" and "so_State (sh_heap s r) = SourceStatePending"
    and "so_InstanceName (sh_heap s r) = is_Name inst \<or> rq_MigrateFrom (so_Request (sh_heap s r)) = is_Name inst"
    and "s' = handleDatabasesOnInstanceOnline E inst order (s\<lparr>sh_spawned := xs @ ys\<rparr>)"
  shows "source_reach E s' \<and>
    (so_State (sh_heap s' r) = SourceStateScheduling \<and> GoSend r \<in> set (sh_spawned s') \<or>
     so_State (sh_heap s' r) = so_ExpectState (sh_heap s' r) \<or>
     so_State (sh_heap s' r) = SourceStateDropped \<and> GoRemove r \<in> set (sh_spawned s'))"
proof
  show "source_reach E s'"
    unfolding assms(8) by (rule source_reach.step[OF assms(1) source_step.Online[OF assms(2-4)]])
  have "resumed s' r"
    unfolding assms(8)
    by (rule online_loop_resumes[OF take_online_inv[OF source_reach_inv[OF assms(1)] assms(2)] assms(3), of name])
      (use assms in auto)
  then show "so_State (sh_heap s' r) = SourceStateScheduling \<and> GoSend r \<in> set (sh_spawned s') \<or>
     so_State (sh_heap s' r) = so_ExpectState (sh_heap s' r) \<or>
     so_State (sh_heap s' r) = SourceStateDropped \<and> GoRemove r \<in> set (sh_spawned s')"
    by (simp add: resumed_def Let_def)
qed

text \<open>A manager whose instances are offline; then the instance of the sample comes online.\<close>

definition offline_env :: "unit source_env" where
  "offline_env = refusing_env\<lparr>se_CreateDb := \<lambda>_ m. (Some ErrInstanceOffline, m)\<rparr>"

definition pg16_online :: InstanceStatusResponse where
  "pg16_online = \<lparr>is_Name = ''pg-16'', is_Version = 16, is_Online = True, is_Databases = Map.empty\<rparr>"

definition pending_sources :: "unit source_state" where
  "pending_sources = snd (OnInstanceStatusChanged pg16_online
     (snd (SourceHandler_Handle offline_env 0 (sample_sources\<lparr>sh_spawned := []\<rparr>))))"

lemma pending_sources_reach: "source_reach offline_env pending_sources"
proof -
  have "source_reach offline_env (snd (AddDatabaseSource offline_env 0 (put_source 0 sample_source (NewSourceHandler (\<lambda>_. sample_source) ()))))"
    by (rule source_reach.step[OF source_reach.new source_step.Add])
      (simp_all add: fresh_source_def NewSourceHandler_def sample_source_def)
  moreover have "snd (AddDatabaseSource offline_env 0 (put_source 0 sample_source (NewSourceHandler (\<lambda>_. sample_source) ()))) = sample_sources"
    by (simp add: sample_source_defs offline_env_def)
  moreover have "sh_spawned sample_sources = [] @ GoSend 0 # []" by (simp add: sample_source_defs)
  ultimately have "source_reach offline_env (snd (SourceHandler_Handle offline_env 0 (sample_sources\<lparr>sh_spawned := [] @ []\<rparr>)))"
    by (metis source_reach.step source_step.Handle)
  then show ?thesis unfolding pending_sources_def
    by (metis append_Nil source_reach.step source_step.InstanceStatus)
qed

lemma pending_sources_eq:
  "sh_spawned pending_sources = [] @ GoOnline pg16_online # []" "dom (sh_Databases pending_sources) = {''app''}"
  "sh_Databases pending_sources ''app'' = Some 0" "so_State (sh_heap pending_sources 0) = SourceStatePending"
  "so_InstanceName (sh_heap pending_sources 0) = is_Name pg16_online" "so_ExpectState (sh_heap pending_sources 0) = SourceStateReady"
  by (simp_all add: pending_sources_def SourceHandler_Handle_def requestCreate_def syncDatabaseSource_def read_clock_def
      PasswordContent_def Let_def OnInstanceStatusChanged_def pg16_online_def offline_env_def sample_source_defs)

theorem online_instance_wakes_sources_witness:
  "source_reach offline_env (handleDatabasesOnInstanceOnline offline_env pg16_online [''app''] (pending_sources\<lparr>sh_spawned := []\<rparr>))"
  using online_instance_wakes_sources[OF pending_sources_reach pending_sources_eq(1), of "[''app'']" "''app''" 0]
    pending_sources_eq by simp

text \<open>
  A drop that \<open>Handle\<close> itself learns of is forgotten: when the manager reports the drop of a source
  that expects to be idle, \<open>Handle\<close> starts the removal of the source but then sets it to processing,
  so the removal, when it runs after the call, keeps the source registered.
\<close>

theorem drop_seen_by_handle_is_forgotten:
  assumes "sh_Databases s (so_Name (sh_heap s r)) = Some r"
    and "so_ExpectState (sh_heap s r) = SourceStateIdle"
    and "\<And>q m. se_GetDbStatus E q m = Inr d" and "ds_Stage d = ''DropDatabase''" and "ds_Status d = ''Done''"
    and "ds_InstanceName d = so_InstanceName (sh_heap s r)"
    and "SourceHandler_Handle E r s = (res, s')" and "u = s'\<lparr>sh_spawned := sh_spawned s\<rparr>"
  shows "res = None \<and> sh_spawned s' = sh_spawned s @ [GoRemove r] \<and>
     so_State (sh_heap s' r) = SourceStateProcessing \<and>
     sh_Databases (RemoveDatabaseSource r u) (so_Name (sh_heap s r)) = Some r"
proof -
  have "(res, s') = SourceHandler_Handle E r s" using assms(7) by simp
  also have "\<dots> = (None, (put_source r
     ((sh_heap s r)\<lparr>so_LastScheduledAt := se_now E (sh_ticks s), so_UpdatedAt := ds_UpdatedAt d, so_State := SourceStateProcessing\<rparr>)
     (s\<lparr>sh_ticks := Suc (sh_ticks s)\<rparr>))\<lparr>sh_spawned := sh_spawned s @ [GoRemove r]\<rparr>)"
    using assms(2-6)
    by (simp add: SourceHandler_Handle_def syncDatabaseSource_def updateDbStatus_def UpdateState_def requestCreate_def
        read_clock_def put_source_def spawn_def Synced_def Let_def)
  finally show ?thesis using assms(1,8) by (simp add: RemoveDatabaseSource_def put_source_def)
qed

definition dropped_env :: "unit source_env" where
  "dropped_env = refusing_env\<lparr>se_GetDbStatus := \<lambda>_ _. Inr \<lparr>ds_Name = ''app'', ds_Stage = ''DropDatabase'', ds_Status = ''Done'',
     ds_UpdatedAt = 7, ds_ErrorMsg = [], ds_InstanceName = ''pg-16'', ds_Version = 16\<rparr>\<rparr>"

definition idle_source :: "unit source_state" where
  "idle_source = MarkDatabaseSourceIdle dropped_env ''app'' sample_sources"

theorem drop_seen_by_handle_is_forgotten_witness:
  "so_State (sh_heap (snd (SourceHandler_Handle dropped_env 0 idle_source)) 0) = SourceStateProcessing"
proof -
  have "so_Name (sh_heap idle_source 0) = ''app''" "sh_Databases idle_source ''app'' = Some 0"
    "so_ExpectState (sh_heap idle_source 0) = SourceStateIdle" "so_InstanceName (sh_heap idle_source 0) = ''pg-16''"
    by (simp_all add: idle_source_def MarkDatabaseSourceIdle_def read_clock_def dropped_env_def sample_source_defs)
  then show ?thesis
    using drop_seen_by_handle_is_forgotten[of idle_source 0 dropped_env _ _ "snd (SourceHandler_Handle dropped_env 0 idle_source)", OF _ _ _ _ _ _ surjective_pairing refl]
    by (simp add: dropped_env_def)
qed

end
