(* ===== verification/Db_Instance.thy ===== *)
theory Db_Instance
  imports Agent_Requests Sources
begin

text \<open>
  The instances the server knows (\<open>internal/handler/grpc_server\<close>): the last status reported for each
  database (\<open>database.go\<close>), the jobs for an instance and their way to its stream
  (\<open>db-instance.go\<close>), the subscribers of status changes (\<open>db_status_subscriber.go\<close>,
  \<open>instance_status_subscriber.go\<close>) and the manager of all instances
  (\<open>db-instance-manager.go\<close>), which is the \<open>DbManager\<close> of the source handler.
  Instances and databases are never removed, so a name stands for the pointer.
\<close>

section \<open>The status of a database\<close>

text \<open>A timestamp pointer is its address and the time it holds; every decoded message has its own.\<close>

type_synonym time_ptr = "nat \<times> time"

type_synonym server_db = "time_ptr proto_database"

abbreviation ptr_of :: "time_ptr option \<Rightarrow> nat option" where
  "ptr_of p \<equiv> map_option fst p"

text \<open>\<open>Timestamp.AsTime\<close>: a nil timestamp is the Unix epoch.\<close>

definition unix_epoch :: time where
  "unix_epoch = 62135596800 * second"

definition AsTime :: "time_ptr option \<Rightarrow> time" where
  "AsTime p = (case p of None \<Rightarrow> unix_epoch | Some (a, t) \<Rightarrow> t)"

definition NewDatabase :: server_db where
  "NewDatabase = zero_proto"

definition Database_Update :: "server_db \<Rightarrow> server_db \<Rightarrow> bool \<times> server_db" where
  "Database_Update d db =
     (if ptr_of (pd_UpdatedAt db) = ptr_of (pd_UpdatedAt d) then (False, d)
      else (pd_Stage d \<noteq> pd_Stage db \<or> pd_Status d \<noteq> pd_Status db, db))"

definition Database_StatusResponse :: "server_db \<Rightarrow> DbStatusResponse" where
  "Database_StatusResponse d =
     \<lparr>ds_Name = pd_Name d, ds_Stage = stage_string (pd_Stage d), ds_Status = status_string (pd_Status d),
      ds_UpdatedAt = AsTime (pd_UpdatedAt d), ds_ErrorMsg = [], ds_InstanceName = [], ds_Version = 0\<rparr>"

section \<open>An instance\<close>

text \<open>
  \<open>in_jobs\<close> are the jobs handed to \<open>DbJobChan\<close>, oldest first: the send blocks until the stream of
  the instance takes the job (theory \<open>Instance_Stream\<close>).
\<close>

record db_instance =
  in_Name :: string
  in_PgVersion :: "32 word"
  in_Online :: bool
  in_Databases :: "string \<rightharpoonup> server_db"
  in_jobs :: "db_job list"

definition NewDbInstance :: "string \<Rightarrow> 32 word \<Rightarrow> db_instance" where
  "NewDbInstance name pgVersion =
     \<lparr>in_Name = name, in_PgVersion = pgVersion, in_Online = False, in_Databases = Map.empty, in_jobs = []\<rparr>"

definition inst_GetDb :: "string \<Rightarrow> db_instance \<Rightarrow> server_db option" where
  "inst_GetDb name a = in_Databases a name"

definition mustGetDb :: "string \<Rightarrow> db_instance \<Rightarrow> server_db \<times> db_instance" where
  "mustGetDb name a =
     (case in_Databases a name of
        Some db \<Rightarrow> (db, a)
      | None \<Rightarrow> (NewDatabase, a\<lparr>in_Databases := (in_Databases a)(name \<mapsto> NewDatabase)\<rparr>))"

text \<open>The result says whether the subscribers are told of the database.\<close>

definition UpdateDatabase :: "server_db \<Rightarrow> db_instance \<Rightarrow> bool \<times> db_instance" where
  "UpdateDatabase db a =
     (let (oldDb, a1) = mustGetDb (pd_Name db) a;
          (changed, newDb) = Database_Update oldDb db
      in (changed, a1\<lparr>in_Databases := (in_Databases a1)(pd_Name db \<mapsto> newDb)\<rparr>))"

text \<open>The names of the databases the subscribers are told of.\<close>

fun UpdateDatabases :: "server_db list \<Rightarrow> db_instance \<Rightarrow> string list \<times> db_instance" where
  "UpdateDatabases [] a = ([], a)"
| "UpdateDatabases (db # dbs) a =
     (let (changed, a1) = UpdateDatabase db a;
          (names, a2) = UpdateDatabases dbs a1
      in (if changed then pd_Name db # names else names, a2))"

definition inst_Send :: "db_job \<Rightarrow> db_instance \<Rightarrow> db_instance" where
  "inst_Send job a = a\<lparr>in_jobs := in_jobs a @ [job]\<rparr>"

text \<open>\<open>jobId\<close> is the text of \<open>uuid.New()\<close>.\<close>

definition inst_CreateDb :: "string \<Rightarrow> CreateDbRequest \<Rightarrow> db_instance \<Rightarrow> go_error option \<times> db_instance" where
  "inst_CreateDb jobId vo a =
     (let (db, a1) = mustGetDb (if_Name (cd_Filter vo)) a
      in if pd_Stage db = DbStage_DropDatabase then (Some (ErrNew ''database is dropping''), a1)
         else if pd_Stage db = DbStage_Idle then (Some (ErrNew ''database is migrating out''), a1)
         else if pd_Stage db \<noteq> DbStage_None \<and> \<not> proto_IsFailed (Some db) then (None, a1)
         else (None, inst_Send
                 \<lparr>dj_JobId = jobId,
                  dj_Job = DbJob_CreateDatabase
                    \<lparr>cj_Name = if_Name (cd_Filter vo), cj_Reason = cd_Reason vo, cj_Owner = cd_Owner vo,
                     cj_Password = cd_Password vo, cj_MigrateFrom = cd_MigrateFrom vo,
                     cj_BackupPath = cd_BackupPath vo\<rparr>\<rparr> a1))"

text \<open>\<open>order\<close> is the order in which Go visits the map; the result is keyed by the names in the records.\<close>

fun status_databases :: "db_instance \<Rightarrow> string list \<Rightarrow> (string \<rightharpoonup> DbStatusResponse) \<Rightarrow> (string \<rightharpoonup> DbStatusResponse)" where
  "status_databases a [] databases = databases"
| "status_databases a (k # order) databases =
     status_databases a order
       (case in_Databases a k of
          None \<Rightarrow> databases
        | Some d \<Rightarrow> databases(pd_Name d \<mapsto>
            (Database_StatusResponse d)\<lparr>ds_InstanceName := in_Name a, ds_Version := in_PgVersion a\<rparr>))"

definition inst_StatusResponse :: "string list \<Rightarrow> db_instance \<Rightarrow> InstanceStatusResponse" where
  "inst_StatusResponse order a =
     \<lparr>is_Name = in_Name a, is_Version = in_PgVersion a, is_Online = in_Online a,
      is_Databases = (if in_Online a then status_databases a order Map.empty else Map.empty)\<rparr>"

section \<open>The manager\<close>

text \<open>
  The subscribers of status changes are the source handler, the calls of \<open>WaitReady\<close> (each with a
  number of its own), and the migrations that wait for the old instance, with what they create then.
\<close>

datatype db_subscriber =
    SourceOnDbStatus
  | WaitReadySub nat string string
  | MigrateOutSub string string string CreateDbRequest

datatype mgr_spawned = GoDbStatus string string | GoCreateDb string CreateDbRequest

text \<open>The context and the result variable of a call of \<open>WaitReady\<close>.\<close>

record ready_waiter =
  rw_done :: bool
  rw_ready :: bool

text \<open>
  \<open>mg_to_source\<close> and \<open>mg_inst_to_source\<close> are the calls of the two callbacks of the source handler,
  oldest first; it is the only subscriber of the instances.
\<close>

datatype inst_subscriber = SourceOnInstanceStatus

record manager =
  mg_Instances :: "string \<rightharpoonup> db_instance"
  mg_subs :: "db_subscriber list"
  mg_inst_subs :: "inst_subscriber list"
  mg_waiters :: "nat \<Rightarrow> ready_waiter"
  mg_spawned :: "mgr_spawned list"
  mg_to_source :: "DbStatusResponse list"
  mg_inst_to_source :: "InstanceStatusResponse list"

definition NewDbInstanceManager :: manager where
  "NewDbInstanceManager = \<lparr>mg_Instances = Map.empty, mg_subs = [], mg_inst_subs = [],
     mg_waiters = (\<lambda>_. \<lparr>rw_done = False, rw_ready = False\<rparr>), mg_spawned = [], mg_to_source = [],
     mg_inst_to_source = []\<rparr>"

definition GetInstance :: "string \<Rightarrow> manager \<Rightarrow> db_instance option" where
  "GetInstance instName m = mg_Instances m instName"

definition set_instance :: "db_instance \<Rightarrow> manager \<Rightarrow> manager" where
  "set_instance a m = m\<lparr>mg_Instances := (mg_Instances m)(in_Name a \<mapsto> a)\<rparr>"

definition NewInstance :: "string \<Rightarrow> 32 word \<Rightarrow> manager \<Rightarrow> (go_error + db_instance) \<times> manager" where
  "NewInstance instName pgVersion m =
     (case GetInstance instName m of
        Some a \<Rightarrow>
          if in_PgVersion a \<noteq> pgVersion
          then (Inl (ErrNew ''change pg instance version is not supported''), m)
          else (Inr a, m)
      | None \<Rightarrow> (let a = NewDbInstance instName pgVersion in (Inr a, set_instance a m)))"

text \<open>The loop of \<open>filterInstances\<close>: whether there was a match, and the result.\<close>

fun filter_loop :: "InstanceFilter \<Rightarrow> db_instance list \<Rightarrow> bool \<Rightarrow> db_instance list \<Rightarrow> bool \<times> db_instance list" where
  "filter_loop flt [] matched result = (matched, result)"
| "filter_loop flt (a # rest) matched result =
     (if if_InstanceName flt \<noteq> [] \<and> in_Name a \<noteq> if_InstanceName flt then filter_loop flt rest matched result
      else
        (let matched1 = (matched \<or> if_InstanceName flt \<noteq> []) in
         if if_Version flt \<noteq> 0 \<and> in_PgVersion a \<noteq> if_Version flt then filter_loop flt rest matched1 result
         else
           (let db = (if if_Name flt \<noteq> [] then inst_GetDb (if_Name flt) a else None) in
            if if_Name flt \<noteq> [] \<and> db = None \<and> if_MustExist flt then filter_loop flt rest matched1 result
            else
              (let matched2 = (matched1 \<or> db \<noteq> None \<and> \<not> IsAlreadyIdle db \<and> \<not> IsNotExist db) in
               if matched2 then (matched2, a # result)
               else filter_loop flt rest matched2 (result @ [a])))))"

definition instances_in :: "string list \<Rightarrow> manager \<Rightarrow> db_instance list" where
  "instances_in order m = List.map_filter (mg_Instances m) order"

definition filterInstances :: "string list \<Rightarrow> InstanceFilter \<Rightarrow> manager \<Rightarrow> db_instance list" where
  "filterInstances order flt m =
     (case filter_loop flt (instances_in order m) False [] of
        (matched, result) \<Rightarrow>
          if \<not> matched \<and> if_Version flt = 0 then sort_key (\<lambda>a. - sint (in_PgVersion a)) result else result)"

definition FirstMatchedInstance :: "string list \<Rightarrow> InstanceFilter \<Rightarrow> manager \<Rightarrow> db_instance option" where
  "FirstMatchedInstance order flt m =
     (case filterInstances order flt m of [] \<Rightarrow> None | a # rest \<Rightarrow> Some a)"

definition mgr_GetDb :: "string list \<Rightarrow> InstanceFilter \<Rightarrow> manager \<Rightarrow> go_error + server_db" where
  "mgr_GetDb order flt m =
     (case FirstMatchedInstance order flt m of
        None \<Rightarrow> Inl (ErrNew ''instance not found'')
      | Some a \<Rightarrow>
          (case inst_GetDb (if_Name flt) a of
             None \<Rightarrow> Inl (ErrNew ''database not found'')
           | Some db \<Rightarrow> Inr db))"

definition GetDbStatus :: "string list \<Rightarrow> InstanceFilter \<Rightarrow> manager \<Rightarrow> go_error + DbStatusResponse" where
  "GetDbStatus order flt m =
     (case FirstMatchedInstance order flt m of
        None \<Rightarrow> Inl (ErrNew ''instance not found'')
      | Some a \<Rightarrow>
          (case inst_GetDb (if_Name flt) a of
             None \<Rightarrow> Inl (ErrNew ''database not found'')
           | Some db \<Rightarrow>
               Inr ((Database_StatusResponse db)\<lparr>ds_InstanceName := in_Name a, ds_Version := in_PgVersion a\<rparr>)))"

text \<open>
  The creation on an instance, as the manager and the waiting migrations call it. It fills in the
  state of the instance; an instance that is not there is not reached by the code.
\<close>

definition create_on :: "string \<Rightarrow> string \<Rightarrow> CreateDbRequest \<Rightarrow> manager \<Rightarrow> go_error option \<times> manager" where
  "create_on jobId instName vo m =
     (case mg_Instances m instName of
        None \<Rightarrow> (None, m)
      | Some a \<Rightarrow> (case inst_CreateDb jobId vo a of (err, a1) \<Rightarrow> (err, set_instance a1 m)))"

text \<open>
  \<open>MigrateOut\<close> on the instance \<open>a\<close>; its callback creates the database on the instance \<open>target\<close>.
\<close>

definition inst_MigrateOut ::
    "string \<Rightarrow> string \<Rightarrow> CreateDbRequest \<Rightarrow> db_instance \<Rightarrow> manager \<Rightarrow> go_error option \<times> manager" where
  "inst_MigrateOut jobId target vo a m =
     (let db = in_Databases a (if_Name (cd_Filter vo))
      in if db = None \<or> IsReadyToMigrate db then create_on jobId target vo m
         else
           (None, (set_instance
              (inst_Send \<lparr>dj_JobId = [],
                  dj_Job = DbJob_MigrateOutDatabase
                    \<lparr>mj_Name = if_Name (cd_Filter vo), mj_Reason = cd_Reason vo, mj_MigrateTo = target, mj_ExpiredAt = None\<rparr>\<rparr> a)
              (m\<lparr>mg_subs := mg_subs m @ [MigrateOutSub (if_Name (cd_Filter vo)) (in_Name a) target vo]\<rparr>))))"

definition mgr_CreateDb ::
    "string list \<Rightarrow> string \<Rightarrow> CreateDbRequest \<Rightarrow> manager \<Rightarrow> go_error option \<times> manager" where
  "mgr_CreateDb order jobId vo m =
     (case FirstMatchedInstance order (cd_Filter vo) m of
        None \<Rightarrow> (Some ErrInstanceOffline, m)
      | Some a \<Rightarrow>
          if \<not> in_Online a then (Some ErrInstanceOffline, m)
          else if cd_MigrateFrom vo \<noteq> []
          then (case GetInstance (cd_MigrateFrom vo) m of
                  None \<Rightarrow> (Some ErrInstanceOffline, m)
                | Some old \<Rightarrow>
                    if \<not> in_Online old then (Some ErrInstanceOffline, m)
                    else inst_MigrateOut jobId (in_Name a) vo old m)
          else create_on jobId (in_Name a) vo m)"

section \<open>Subscribers\<close>

definition SubscribeDbStatus :: "db_subscriber \<Rightarrow> manager \<Rightarrow> manager" where
  "SubscribeDbStatus sub m = m\<lparr>mg_subs := mg_subs m @ [sub]\<rparr>"

definition SubscribeInstanceStatus :: "inst_subscriber \<Rightarrow> manager \<Rightarrow> manager" where
  "SubscribeInstanceStatus sub m = m\<lparr>mg_inst_subs := mg_inst_subs m @ [sub]\<rparr>"

text \<open>A callback: whether it goes on, and what it does.\<close>

fun call_subscriber :: "DbStatusResponse \<Rightarrow> db_subscriber \<Rightarrow> manager \<Rightarrow> bool \<times> manager" where
  "call_subscriber d SourceOnDbStatus m = (True, m\<lparr>mg_to_source := mg_to_source m @ [d]\<rparr>)"
| "call_subscriber d (WaitReadySub w instName dbName) m =
     (if rw_done (mg_waiters m w) then (False, m)
      else if ds_IsReady d dbName instName
      then (False, m\<lparr>mg_waiters := (mg_waiters m)(w := \<lparr>rw_done = True, rw_ready = True\<rparr>)\<rparr>)
      else (True, m))"
| "call_subscriber d (MigrateOutSub name oldInst target vo) m =
     (if ds_IsMigrateOutReady d name oldInst
      then (False, m\<lparr>mg_spawned := mg_spawned m @ [GoCreateDb target vo]\<rparr>)
      else (True, m))"

definition notifyStatusChanged :: "DbStatusResponse \<Rightarrow> manager \<Rightarrow> manager" where
  "notifyStatusChanged d m =
     (case scan_del (call_subscriber d) 0 (mg_subs m) m of (subs, m1) \<Rightarrow> m1\<lparr>mg_subs := subs\<rparr>)"

definition OnStatusChanged :: "db_instance \<Rightarrow> server_db \<Rightarrow> manager \<Rightarrow> manager" where
  "OnStatusChanged a db m =
     (if \<not> proto_IsFailed (Some db) \<and> \<not> IsSynced (Some db) then m
      else if length (mg_subs m) = 0 then m
      else notifyStatusChanged
             ((Database_StatusResponse db)\<lparr>ds_InstanceName := in_Name a, ds_Version := in_PgVersion a\<rparr>) m)"

fun call_inst_subscriber :: "InstanceStatusResponse \<Rightarrow> inst_subscriber \<Rightarrow> manager \<Rightarrow> bool \<times> manager" where
  "call_inst_subscriber d SourceOnInstanceStatus m = (True, m\<lparr>mg_inst_to_source := mg_inst_to_source m @ [d]\<rparr>)"

definition inst_notifyStatusChanged :: "InstanceStatusResponse \<Rightarrow> manager \<Rightarrow> manager" where
  "inst_notifyStatusChanged d m =
     (case scan_del (call_inst_subscriber d) 0 (mg_inst_subs m) m of (subs, m1) \<Rightarrow> m1\<lparr>mg_inst_subs := subs\<rparr>)"

definition inst_OnStatusChanged :: "string list \<Rightarrow> db_instance \<Rightarrow> manager \<Rightarrow> manager" where
  "inst_OnStatusChanged order a m =
     (if length (mg_inst_subs m) = 0 then m
      else inst_notifyStatusChanged (inst_StatusResponse order a) m)"

text \<open>The source handler stays subscribed, and is called once for each of its subscriptions.\<close>

lemma inst_OnStatusChanged_eq:
  "inst_OnStatusChanged order a m =
     m\<lparr>mg_inst_to_source := mg_inst_to_source m @ replicate (length (mg_inst_subs m)) (inst_StatusResponse order a)\<rparr>"
proof -
  have "scan_keep (call_inst_subscriber d) subs m =
      (subs, m\<lparr>mg_inst_to_source := mg_inst_to_source m @ replicate (length subs) d\<rparr>)" for d subs m
  proof (induction subs arbitrary: m)
    case (Cons x subs)
    then show ?case by (cases x) simp
  qed simp
  then show ?thesis by (simp add: inst_OnStatusChanged_def inst_notifyStatusChanged_def scan_del_eq)
qed

definition isReady :: "string \<Rightarrow> string \<Rightarrow> manager \<Rightarrow> bool" where
  "isReady instName dbName m =
     (case GetInstance instName m of
        None \<Rightarrow> False
      | Some a \<Rightarrow> (case inst_GetDb dbName a of None \<Rightarrow> False | Some db \<Rightarrow> IsReadyToUse (Some db)))"

text \<open>
  \<open>WaitReady\<close> up to its wait, for the call of number \<open>w\<close>: its result, or \<open>None\<close> when it waits. The
  wait ends when the context is done, by the timeout or by the subscriber.
\<close>

definition WaitReady :: "nat \<Rightarrow> string \<Rightarrow> string \<Rightarrow> manager \<Rightarrow> bool option \<times> manager" where
  "WaitReady w instName dbName m =
     (if isReady instName dbName m then (Some True, m)
      else (None, SubscribeDbStatus (WaitReadySub w instName dbName)
                    (m\<lparr>mg_waiters := (mg_waiters m)(w := \<lparr>rw_done = False, rw_ready = False\<rparr>)\<rparr>)))"

definition wait_timeout :: "nat \<Rightarrow> manager \<Rightarrow> manager" where
  "wait_timeout w m = m\<lparr>mg_waiters := (mg_waiters m)(w := (mg_waiters m w)\<lparr>rw_done := True\<rparr>)\<rparr>"

definition wait_result :: "nat \<Rightarrow> manager \<Rightarrow> bool option" where
  "wait_result w m = (if rw_done (mg_waiters m w) then Some (rw_ready (mg_waiters m w)) else None)"

end
