(* ===== verification/Instance_Manager.thy ===== *)
theory Instance_Manager
  imports Db_Instance Auth
begin

text \<open>
  The gRPC service of the server (\<open>svc_register.go\<close>, \<open>svc_notify_db_status.go\<close>) over the manager of
  the instances, the interleaving of its calls, and what they keep. The manager provides the interface
  the source handler calls.
\<close>

section \<open>The service\<close>

datatype svc_error = SvcUnauthenticated string | SvcPermissionDenied string | SvcInternal string | SvcError go_error

record register_instance =
  ri_Name :: string
  ri_PgVersion :: "32 word"
  ri_Databases :: "server_db list"

text \<open>
  \<open>Register\<close> up to \<open>ServeDbJob\<close>, with the identity found in the context; and what follows when the
  stream has ended. \<open>order\<close> is the order of the databases in the status response.
\<close>

definition Register_begin ::
    "string list \<Rightarrow> auth_info option \<Rightarrow> register_instance \<Rightarrow> manager \<Rightarrow> (svc_error + string) \<times> manager" where
  "Register_begin order ctx_info r m =
     (case LoadAuthInfo ctx_info of
        (Some authInfo, True) \<Rightarrow>
          if \<not> ValidateScope authInfo ''agent'' then (Inl (SvcPermissionDenied ''scope not allowed''), m)
          else if \<not> ValidateResource authInfo (''dbInstance:'' @ ri_Name r)
          then (Inl (SvcPermissionDenied ''resource not allowed''), m)
          else
            (case NewInstance (ri_Name r) (ri_PgVersion r) m of
               (Inl e, m1) \<Rightarrow> (Inl (SvcInternal (error_text e)), m1)
             | (Inr a, m1) \<Rightarrow>
                 (let (names, a1) = UpdateDatabases (ri_Databases r) a;
                      a2 = a1\<lparr>in_Online := True\<rparr>;
                      m2 = (set_instance a2 m1)\<lparr>mg_spawned := mg_spawned m1 @ map (GoDbStatus (in_Name a)) names\<rparr>
                  in (Inr (in_Name a), inst_OnStatusChanged order a2 m2)))
      | _ \<Rightarrow> (Inl (SvcUnauthenticated ''no auth info''), m))"

definition Register_end :: "string list \<Rightarrow> string \<Rightarrow> manager \<Rightarrow> manager" where
  "Register_end order name m =
     (case mg_Instances m name of
        None \<Rightarrow> m
      | Some a \<Rightarrow>
          (let a1 = a\<lparr>in_Online := False\<rparr> in inst_OnStatusChanged order a1 (set_instance a1 m)))"

definition NotifyDbStatus :: "auth_info option \<Rightarrow> server_db \<Rightarrow> manager \<Rightarrow> (svc_error + unit) \<times> manager" where
  "NotifyDbStatus ctx_info db m =
     (case LoadAuthInfo ctx_info of
        (Some authInfo, True) \<Rightarrow>
          if \<not> ValidateScope authInfo ''agent'' then (Inl (SvcPermissionDenied ''no scope permission''), m)
          else if \<not> ValidateResource authInfo (''dbInstance:'' @ pd_InstanceName db)
          then (Inl (SvcPermissionDenied ''no resource permission''), m)
          else
            (case GetInstance (pd_InstanceName db) m of
               None \<Rightarrow> (Inl (SvcError (ErrNew ''db instance not found'')), m)
             | Some a \<Rightarrow>
                 (case UpdateDatabase db a of
                    (changed, a1) \<Rightarrow>
                      (Inr (), (set_instance a1 m)\<lparr>mg_spawned := mg_spawned m @
                         (if changed then [GoDbStatus (in_Name a) (pd_Name db)] else [])\<rparr>)))
      | _ \<Rightarrow> (Inl (SvcUnauthenticated ''no auth info''), m))"

text \<open>A call that was started on its own runs on what the pointers then hold.\<close>

fun run_spawned :: "string \<Rightarrow> mgr_spawned \<Rightarrow> manager \<Rightarrow> manager" where
  "run_spawned jobId (GoDbStatus inst name) m =
     (case mg_Instances m inst of
        None \<Rightarrow> m
      | Some a \<Rightarrow> (case in_Databases a name of None \<Rightarrow> m | Some db \<Rightarrow> OnStatusChanged a db m))"
| "run_spawned jobId (GoCreateDb target vo) m = snd (create_on jobId target vo m)"

section \<open>The interleaving of the calls\<close>

text \<open>The manager with the names of the open streams.\<close>

inductive mgr_step :: "manager \<times> string list \<Rightarrow> manager \<times> string list \<Rightarrow> bool" where
  Register: "Register_begin order info r m = (Inr name, m') \<Longrightarrow> mgr_step (m, ss) (m', name # ss)"
| Refused: "Register_begin order info r m = (Inl e, m') \<Longrightarrow> mgr_step (m, ss) (m', ss)"
| StreamEnd: "mgr_step (m, xs @ name # ys) (Register_end order name m, xs @ ys)"
| Notify: "mgr_step (m, ss) (snd (NotifyDbStatus info db m), ss)"
| Spawned: "mg_spawned m = xs @ g # ys \<Longrightarrow> mgr_step (m, ss) (run_spawned jobId g (m\<lparr>mg_spawned := xs @ ys\<rparr>), ss)"
| Create: "mgr_step (m, ss) (snd (mgr_CreateDb order jobId vo m), ss)"
| Wait: "mgr_step (m, ss) (snd (WaitReady w instName dbName m), ss)"
| Timeout: "mgr_step (m, ss) (wait_timeout w m, ss)"
| Subscribe: "mgr_step (m, ss) (SubscribeInstanceStatus SourceOnInstanceStatus (SubscribeDbStatus SourceOnDbStatus m), ss)"

inductive mgr_reach :: "manager \<times> string list \<Rightarrow> bool" where
  new: "mgr_reach (NewDbInstanceManager, [])"
| step: "mgr_reach s \<Longrightarrow> mgr_step s s' \<Longrightarrow> mgr_reach s'"

text \<open>Every instance and every record is found under its own name; a record without one is new.\<close>

definition inst_wf :: "db_instance \<Rightarrow> bool" where
  "inst_wf a = (\<forall>name db. in_Databases a name = Some db \<longrightarrow> pd_Name db = name \<or> db = NewDatabase)"

definition mgr_wf :: "manager \<Rightarrow> bool" where
  "mgr_wf m = (\<forall>k a. mg_Instances m k = Some a \<longrightarrow> in_Name a = k \<and> inst_wf a)"

lemma mgr_wfD: "mgr_wf m \<Longrightarrow> mg_Instances m k = Some a \<Longrightarrow> in_Name a = k \<and> inst_wf a"
  by (simp add: mgr_wf_def)

lemma mgr_wf_set: "mgr_wf m \<Longrightarrow> inst_wf a \<Longrightarrow> mgr_wf (set_instance a m)"
  by (simp add: mgr_wf_def set_instance_def)

lemma mgr_wf_cong: "mg_Instances m' = mg_Instances m \<Longrightarrow> mgr_wf m \<Longrightarrow> mgr_wf m'"
  by (simp add: mgr_wf_def)

lemma mgr_wf_fields [simp]:
  "mgr_wf (m\<lparr>mg_subs := subs\<rparr>) = mgr_wf m" "mgr_wf (m\<lparr>mg_spawned := sp\<rparr>) = mgr_wf m"
  "mgr_wf (m\<lparr>mg_waiters := ws\<rparr>) = mgr_wf m" "mgr_wf (m\<lparr>mg_inst_subs := isubs\<rparr>) = mgr_wf m"
  "mgr_wf (m\<lparr>mg_to_source := ds\<rparr>) = mgr_wf m" "mgr_wf (m\<lparr>mg_inst_to_source := is\<rparr>) = mgr_wf m"
  by (simp_all add: mgr_wf_def)

lemma inst_wf_fields [simp]:
  "inst_wf (a\<lparr>in_Online := b\<rparr>) = inst_wf a" "inst_wf (inst_Send j a) = inst_wf a"
  by (simp_all add: inst_wf_def inst_Send_def)

lemma inst_wf_upd [intro]:
  "inst_wf a \<Longrightarrow> pd_Name d = n \<or> d = NewDatabase \<Longrightarrow> in_Databases b = (in_Databases a)(n \<mapsto> d) \<Longrightarrow> inst_wf b"
  by (simp add: inst_wf_def)

lemma inst_wf_get: "inst_wf a \<Longrightarrow> in_Databases a n = Some d \<Longrightarrow> pd_Name d = n \<or> d = NewDatabase"
  by (simp add: inst_wf_def)

text \<open>What no operation on the databases of an instance changes.\<close>

definition same_inst :: "db_instance \<Rightarrow> db_instance \<Rightarrow> bool" where
  "same_inst a b = (in_Name b = in_Name a \<and> in_Online b = in_Online a \<and> in_PgVersion b = in_PgVersion a)"

lemma same_inst_refl [simp]: "same_inst a a"
  by (simp add: same_inst_def)

lemma mustGetDb_eq:
  "mustGetDb name a = (d, a1) \<Longrightarrow> same_inst a a1 \<and> in_jobs a1 = in_jobs a \<and> in_Databases a1 = (in_Databases a)(name \<mapsto> d) \<and>
    (in_Databases a name = Some d \<or> in_Databases a name = None \<and> d = NewDatabase)"
  by (auto simp: mustGetDb_def same_inst_def fun_upd_idem split: option.splits)

lemma mustGetDb_wf: "mustGetDb name a = (d, a1) \<Longrightarrow> inst_wf a \<Longrightarrow> inst_wf a1 \<and> (pd_Name d = name \<or> d = NewDatabase)"
  using mustGetDb_eq[of name a d a1] inst_wf_get[of a name d] inst_wf_upd[of a d name a1] by blast

lemma UpdateDatabase_eq:
  assumes "UpdateDatabase db a = (changed, a1)"
  obtains d where "in_Databases a (pd_Name db) = Some d \<or> in_Databases a (pd_Name db) = None \<and> d = NewDatabase"
    and "changed = fst (Database_Update d db)"
    and "in_Databases a1 = (in_Databases a)(pd_Name db \<mapsto> snd (Database_Update d db))"
    and "same_inst a a1" and "in_jobs a1 = in_jobs a"
proof -
  obtain d b where d: "mustGetDb (pd_Name db) a = (d, b)" by fastforce
  then show ?thesis
    using that[of d] assms mustGetDb_eq[OF d] by (auto simp: UpdateDatabase_def same_inst_def split_beta)
qed

lemma Database_Update_cases: "snd (Database_Update d db) = d \<or> snd (Database_Update d db) = db"
  by (simp add: Database_Update_def)

lemma UpdateDatabase_wf:
  assumes "UpdateDatabase db a = (changed, a1)" and "inst_wf a"
  shows "inst_wf a1"
proof -
  obtain d where d: "in_Databases a (pd_Name db) = Some d \<or> in_Databases a (pd_Name db) = None \<and> d = NewDatabase"
    and u: "in_Databases a1 = (in_Databases a)(pd_Name db \<mapsto> snd (Database_Update d db))"
    using assms(1) by (rule UpdateDatabase_eq)
  have "pd_Name d = pd_Name db \<or> d = NewDatabase" using d inst_wf_get[OF assms(2)] by blast
  then have "pd_Name (snd (Database_Update d db)) = pd_Name db \<or> snd (Database_Update d db) = NewDatabase"
    using Database_Update_cases[of d db] by auto
  then show ?thesis using inst_wf_upd[OF assms(2)] u by blast
qed

lemma UpdateDatabases_wf:
  "UpdateDatabases dbs a = (names, a1) \<Longrightarrow> same_inst a a1 \<and> in_jobs a1 = in_jobs a \<and> (inst_wf a \<longrightarrow> inst_wf a1)"
proof (induction dbs arbitrary: a names a1)
  case (Cons db dbs)
  obtain changed b where b: "UpdateDatabase db a = (changed, b)" by fastforce
  obtain ns c where c: "UpdateDatabases dbs b = (ns, c)" by fastforce
  have "same_inst a b \<and> in_jobs b = in_jobs a" using b by (rule UpdateDatabase_eq) simp
  then show ?case using Cons.prems Cons.IH[OF c] UpdateDatabase_wf[OF b] b c by (simp add: same_inst_def)
qed simp

lemma inst_Send_same [simp]: "in_Name (inst_Send j a) = in_Name a" "in_Online (inst_Send j a) = in_Online a"
    "in_PgVersion (inst_Send j a) = in_PgVersion a" "in_Databases (inst_Send j a) = in_Databases a"
    "in_jobs (inst_Send j a) = in_jobs a @ [j]"
  by (simp_all add: inst_Send_def)

lemma inst_CreateDb_wf:
  assumes "inst_CreateDb jobId vo a = (err, a1)"
  shows "same_inst a a1 \<and> (inst_wf a \<longrightarrow> inst_wf a1)"
proof -
  obtain d b where b: "mustGetDb (if_Name (cd_Filter vo)) a = (d, b)" by fastforce
  have "a1 = b \<or> (\<exists>j. a1 = inst_Send j b)"
    using assms b by (auto simp: inst_CreateDb_def Let_def split: if_splits)
  then show ?thesis
    using mustGetDb_eq[OF b] mustGetDb_wf[OF b] by (elim disjE exE) (auto simp: same_inst_def)
qed

lemma inst_CreateDb_err: "fst (inst_CreateDb jobId vo a) \<noteq> Some ErrInstanceOffline"
  by (auto simp: inst_CreateDb_def split: prod.splits)

lemma create_on_wf:
  assumes "mgr_wf m" shows "mgr_wf (snd (create_on jobId target vo m))"
proof (cases "mg_Instances m target")
  case (Some a)
  obtain err a1 where "inst_CreateDb jobId vo a = (err, a1)" by fastforce
  then show ?thesis using Some mgr_wf_set[OF assms, of a1] mgr_wfD[OF assms Some] inst_CreateDb_wf
    by (fastforce simp: create_on_def)
qed (simp add: create_on_def assms)

lemma inst_MigrateOut_wf:
  assumes "mgr_wf m" and "inst_wf a"
  shows "mgr_wf (snd (inst_MigrateOut jobId target vo a m))"
  using create_on_wf[OF assms(1)] assms by (simp add: inst_MigrateOut_def Let_def mgr_wf_set)

lemma filter_loop_subset: "set (snd (filter_loop flt xs mt res)) \<subseteq> set xs \<union> set res"
proof (induction xs arbitrary: mt res)
  case (Cons a xs)
  show ?case using Cons.IH[of mt res] Cons.IH[of "mt \<or> if_InstanceName flt \<noteq> []" res] Cons.IH[of False "res @ [a]"]
    by (auto simp: Let_def)
qed simp

lemma FirstMatched_mem:
  assumes "FirstMatchedInstance order flt m = Some a"
  shows "a \<in> set (instances_in order m)"
proof -
  have "a \<in> set (filterInstances order flt m)" using assms by (auto simp: FirstMatchedInstance_def split: list.splits)
  then show ?thesis
    using filter_loop_subset[of flt "instances_in order m" False "[]"]
    by (auto simp: filterInstances_def split_beta split: if_splits)
qed

lemma instances_in_mem: "a \<in> set (instances_in order m) \<Longrightarrow> \<exists>k \<in> set order. mg_Instances m k = Some a"
  by (force simp: instances_in_def map_filter_def)

lemma mgr_CreateDb_wf: "mgr_wf m \<Longrightarrow> mgr_wf (snd (mgr_CreateDb order jobId vo m))"
  using create_on_wf inst_MigrateOut_wf mgr_wfD
  by (simp add: mgr_CreateDb_def GetInstance_def split: option.split)

lemma call_subscriber_instances: "mg_Instances (snd (call_subscriber d sub m)) = mg_Instances m"
  by (cases sub) auto

lemma scan_keep_frame:
  assumes "\<And>x s. g (snd (f x s)) = g s"
  shows "g (snd (scan_keep f xs s)) = g s"
  by (induction xs arbitrary: s) (auto simp: assms Let_def split_beta)

lemma notifyStatusChanged_instances: "mg_Instances (notifyStatusChanged d m) = mg_Instances m"
  using scan_keep_frame[of mg_Instances "call_subscriber d", OF call_subscriber_instances]
  by (simp add: notifyStatusChanged_def scan_del_eq split_beta)

lemma OnStatusChanged_instances [simp]: "mg_Instances (OnStatusChanged a db m) = mg_Instances m"
  by (simp add: OnStatusChanged_def notifyStatusChanged_instances)

lemma inst_OnStatusChanged_instances [simp]: "mg_Instances (inst_OnStatusChanged order a m) = mg_Instances m"
  by (simp add: inst_OnStatusChanged_eq)

lemma run_spawned_wf: "mgr_wf m \<Longrightarrow> mgr_wf (run_spawned jobId g m)"
  by (cases g) (auto simp: create_on_wf intro: mgr_wf_cong[OF OnStatusChanged_instances] split: option.splits)

lemma NewInstance_wf:
  assumes "mgr_wf m" and "NewInstance name v m = (res, m1)"
  shows "mgr_wf m1 \<and> (\<forall>a. res = Inr a \<longrightarrow> in_Name a = name \<and> inst_wf a \<and> mg_Instances m1 name = Some a)"
proof (cases "mg_Instances m name")
  case (Some a)
  then show ?thesis using assms mgr_wfD[OF assms(1) Some] by (auto simp: NewInstance_def GetInstance_def split: if_splits)
next
  case None
  have "inst_wf (NewDbInstance name v)" by (simp add: inst_wf_def NewDbInstance_def)
  then show ?thesis using None assms(2) mgr_wf_set[OF assms(1)]
    by (auto simp: NewInstance_def GetInstance_def Let_def) (simp_all add: set_instance_def NewDbInstance_def)
qed

lemma set_online_wf:
  assumes "mgr_wf m" and "inst_wf a"
  shows "mgr_wf ((set_instance (a\<lparr>in_Online := b\<rparr>) m)\<lparr>mg_spawned := sp\<rparr>)"
  using mgr_wf_set[OF assms(1), of "a\<lparr>in_Online := b\<rparr>"] assms(2) by simp

text \<open>An accepted registration, and one that is not, by what \<open>NewInstance\<close> returned.\<close>

lemma Register_begin_ok:
  assumes "Register_begin order info r m = (Inr name, m')"
  obtains i a m1 names a1 where "info = Some i" "ValidateScope i ''agent''" "ValidateResource i (''dbInstance:'' @ ri_Name r)"
    "NewInstance (ri_Name r) (ri_PgVersion r) m = (Inr a, m1)" "UpdateDatabases (ri_Databases r) a = (names, a1)"
    "name = in_Name a"
    "m' = inst_OnStatusChanged order (a1\<lparr>in_Online := True\<rparr>)
      ((set_instance (a1\<lparr>in_Online := True\<rparr>) m1)\<lparr>mg_spawned := mg_spawned m1 @ map (GoDbStatus (in_Name a)) names\<rparr>)"
  using assms
  by (auto simp: Register_begin_def LoadAuthInfo_def Let_def split: prod.splits option.splits if_splits sum.splits)

lemma Register_begin_refused:
  assumes "Register_begin order info r m = (Inl e, m')"
  shows "m' = m"
  using assms
  by (auto simp: Register_begin_def LoadAuthInfo_def NewInstance_def Let_def split: prod.splits option.splits if_splits sum.splits)

lemma Register_begin_wf:
  assumes "mgr_wf m" and "Register_begin order info r m = (Inr name, m')"
  shows "mgr_wf m'"
proof -
  from assms(2) obtain a m1 names a1 where n: "NewInstance (ri_Name r) (ri_PgVersion r) m = (Inr a, m1)"
    and u: "UpdateDatabases (ri_Databases r) a = (names, a1)"
    and m': "m' = inst_OnStatusChanged order (a1\<lparr>in_Online := True\<rparr>)
      ((set_instance (a1\<lparr>in_Online := True\<rparr>) m1)\<lparr>mg_spawned := mg_spawned m1 @ map (GoDbStatus (in_Name a)) names\<rparr>)"
    by (rule Register_begin_ok)
  show ?thesis unfolding m'
    by (rule mgr_wf_cong[OF inst_OnStatusChanged_instances], rule set_online_wf)
      (use NewInstance_wf[OF assms(1) n] UpdateDatabases_wf[OF u] in auto)
qed

lemma Register_end_wf:
  assumes "mgr_wf m" shows "mgr_wf (Register_end order name m)"
proof (cases "mg_Instances m name")
  case (Some a)
  have "mgr_wf (set_instance (a\<lparr>in_Online := False\<rparr>) m)"
    using mgr_wf_set[OF assms, of "a\<lparr>in_Online := False\<rparr>"] mgr_wfD[OF assms Some] by simp
  then show ?thesis using Some mgr_wf_cong[OF inst_OnStatusChanged_instances] by (simp add: Register_end_def Let_def)
qed (simp add: Register_end_def assms)

lemma NotifyDbStatus_wf:
  assumes "mgr_wf m"
  shows "mgr_wf (snd (NotifyDbStatus info db m))"
proof -
  have "mgr_wf ((set_instance a1 m)\<lparr>mg_spawned := sp\<rparr>)"
    if "mg_Instances m k = Some a" "UpdateDatabase db a = (changed, a1)" for k a changed a1 sp
    using mgr_wf_set[OF assms UpdateDatabase_wf[OF that(2)]] mgr_wfD[OF assms that(1)] by simp
  then show ?thesis
    using assms by (simp add: NotifyDbStatus_def LoadAuthInfo_def GetInstance_def split: option.split prod.split)
qed

lemma mgr_step_wf: "mgr_step s s' \<Longrightarrow> mgr_wf (fst s) \<Longrightarrow> mgr_wf (fst s')"
proof (induction rule: mgr_step.induct)
  case (Register order info r m name m' ss)
  then show ?case using Register_begin_wf by simp
next
  case (Refused order info r m e m' ss)
  then show ?case by (auto dest: Register_begin_refused)
next
  case (Spawned m xs g ys ss jobId)
  then show ?case using run_spawned_wf[of "m\<lparr>mg_spawned := xs @ ys\<rparr>"] by simp
qed (auto simp: Register_end_wf NotifyDbStatus_wf mgr_CreateDb_wf WaitReady_def SubscribeDbStatus_def
    SubscribeInstanceStatus_def wait_timeout_def)

lemma mgr_reach_wf: "mgr_reach s \<Longrightarrow> mgr_wf (fst s)"
  by (induction rule: mgr_reach.induct) (simp add: mgr_wf_def NewDbInstanceManager_def, rule mgr_step_wf)

end
