(* ===== verification/Manager_Properties.thy ===== *)
theory Manager_Properties
  imports Instance_Manager
begin

text \<open>
  What the manager of the instances promises its callers: which instance a request finds, what an
  agent may change, what a creation answers and sends, who is told of a status, and how migrations
  wait for the old instance. The samples at the end of each part are reachable states.
\<close>

section \<open>Names\<close>


section \<open>Which instance a filter finds\<close>

lemma filter_loop_named:
  assumes "if_InstanceName flt \<noteq> []" and "if_Version flt = 0" and "\<not> if_MustExist flt"
  shows "filter_loop flt xs False res =
    (case find (\<lambda>a. in_Name a = if_InstanceName flt) xs of None \<Rightarrow> (False, res) | Some a \<Rightarrow> (True, a # res))"
  using assms by (induction xs arbitrary: res) (auto simp: Let_def)

text \<open>The record by which an instance holds a database: it is neither idle nor missing.\<close>

definition holds_db :: "string \<Rightarrow> db_instance \<Rightarrow> bool" where
  "holds_db name a = (inst_GetDb name a \<noteq> None \<and> \<not> IsAlreadyIdle (inst_GetDb name a) \<and> \<not> IsNotExist (inst_GetDb name a))"

lemma filter_loop_unnamed:
  assumes "if_InstanceName flt = []" and "if_Version flt = 0" and "\<not> if_MustExist flt" and "if_Name flt \<noteq> []"
  shows "filter_loop flt xs False res =
    (case find (holds_db (if_Name flt)) xs of
       None \<Rightarrow> (False, res @ xs)
     | Some a \<Rightarrow> (True, a # res @ takeWhile (\<lambda>b. \<not> holds_db (if_Name flt) b) xs))"
  using assms
proof (induction xs arbitrary: res)
  case (Cons b xs)
  then show ?case by (auto simp: Let_def holds_db_def split: option.split)
qed simp

lemma find_in_instances:
  assumes "mgr_wf m" and "name \<in> set order"
  shows "find (\<lambda>a. in_Name a = name) (instances_in order m) = mg_Instances m name"
  using assms(2)
proof (induction order)
  case (Cons k order)
  have other: "find (\<lambda>a. in_Name a = name) (instances_in order m) = None" if "mg_Instances m name = None"
    using that mgr_wfD[OF assms(1)] instances_in_mem[of _ order m] by (fastforce simp: find_None_iff)
  show ?case
    using Cons mgr_wfD[OF assms(1)] other
    by (cases "mg_Instances m k"; cases "name = k") (auto simp: instances_in_def map_filter_simps)
qed simp

lemma FirstMatched_named:
  assumes "mgr_wf m" and "set order = dom (mg_Instances m)"
    and "if_InstanceName flt \<noteq> []" and "if_Version flt = 0" and "\<not> if_MustExist flt"
  shows "FirstMatchedInstance order flt m = mg_Instances m (if_InstanceName flt)"
proof (cases "if_InstanceName flt \<in> set order")
  case True
  then show ?thesis using find_in_instances[OF assms(1) True] filter_loop_named[OF assms(3-5), of "instances_in order m" "[]"]
    by (auto simp: FirstMatchedInstance_def filterInstances_def split: option.splits)
next
  case False
  then have "mg_Instances m (if_InstanceName flt) = None" using assms(2) by auto
  moreover from this have "find (\<lambda>a. in_Name a = if_InstanceName flt) (instances_in order m) = None"
    using mgr_wfD[OF assms(1)] instances_in_mem[of _ order m] by (fastforce simp: find_None_iff)
  ultimately show ?thesis using filter_loop_named[OF assms(3-5), of "instances_in order m" "[]"]
    by (simp add: FirstMatchedInstance_def filterInstances_def)
qed

lemma sorted_first_max:
  assumes "sort_key (\<lambda>a. - sint (in_PgVersion a)) xs = a # rest"
  shows "a \<in> set xs \<and> (\<forall>b \<in> set xs. sint (in_PgVersion b) \<le> sint (in_PgVersion a))"
proof -
  have s: "set (a # rest) = set xs" using assms set_sort[of "\<lambda>a. - sint (in_PgVersion a)" xs] by simp
  have "sorted (map (\<lambda>a. - sint (in_PgVersion a)) (a # rest))" using assms sorted_sort_key by metis
  then show ?thesis using s by auto
qed

lemma FirstMatched_unnamed:
  assumes "FirstMatchedInstance order flt m = Some a"
    and "if_InstanceName flt = []" and "if_Version flt = 0" and "\<not> if_MustExist flt" and "if_Name flt \<noteq> []"
  shows "a \<in> set (instances_in order m)"
    and "\<exists>b \<in> set (instances_in order m). holds_db (if_Name flt) b \<Longrightarrow> holds_db (if_Name flt) a"
    and "\<forall>b \<in> set (instances_in order m). \<not> holds_db (if_Name flt) b \<Longrightarrow>
      \<forall>b \<in> set (instances_in order m). sint (in_PgVersion b) \<le> sint (in_PgVersion a)"
proof -
  note loop = filter_loop_unnamed[OF assms(2-5), of "instances_in order m" "[]"]
  show "a \<in> set (instances_in order m)" by (rule FirstMatched_mem[OF assms(1)])
  show "holds_db (if_Name flt) a" if ex: "\<exists>b \<in> set (instances_in order m). holds_db (if_Name flt) b"
  proof -
    obtain c where c: "find (holds_db (if_Name flt)) (instances_in order m) = Some c"
      using ex by (cases "find (holds_db (if_Name flt)) (instances_in order m)") (auto simp: find_None_iff)
    then have "a = c" using assms(1) loop by (simp add: FirstMatchedInstance_def filterInstances_def)
    then show ?thesis using c by (auto simp: find_Some_iff)
  qed
  show "\<forall>b \<in> set (instances_in order m). sint (in_PgVersion b) \<le> sint (in_PgVersion a)"
    if "\<forall>b \<in> set (instances_in order m). \<not> holds_db (if_Name flt) b"
  proof -
    have "find (holds_db (if_Name flt)) (instances_in order m) = None" using that by (auto simp: find_None_iff)
    then show ?thesis
      using assms(1,3) loop sorted_first_max[of "instances_in order m"]
      by (auto simp: FirstMatchedInstance_def filterInstances_def split: list.splits)
  qed
qed

lemma filterInstances_unnamed:
  assumes "if_InstanceName flt = []" and "if_Version flt = 0" and "\<not> if_MustExist flt" and "if_Name flt \<noteq> []"
  shows "filterInstances order flt m = (case find (holds_db (if_Name flt)) (instances_in order m) of
      None \<Rightarrow> sort_key (\<lambda>a. - sint (in_PgVersion a)) (instances_in order m)
    | Some a \<Rightarrow> a # takeWhile (\<lambda>b. \<not> holds_db (if_Name flt) b) (instances_in order m))"
  unfolding filterInstances_def filter_loop_unnamed[OF assms] using assms(2) by (simp split: option.split)

lemma FirstMatched_none:
  assumes "if_InstanceName flt = []" and "if_Version flt = 0" and "\<not> if_MustExist flt" and "if_Name flt \<noteq> []"
  shows "FirstMatchedInstance order flt m = None \<longleftrightarrow> instances_in order m = []"
proof -
  have first: "FirstMatchedInstance order flt m = None \<longleftrightarrow> filterInstances order flt m = []"
    by (simp add: FirstMatchedInstance_def split: list.split)
  have "sort_key (\<lambda>a. - sint (in_PgVersion a)) xs = [] \<longleftrightarrow> xs = []" for xs :: "db_instance list"
    by (metis length_0_conv length_sort)
  moreover have "instances_in order m \<noteq> []" if "find (holds_db (if_Name flt)) (instances_in order m) = Some c" for c
    using that by auto
  ultimately show ?thesis unfolding first filterInstances_unnamed[OF assms] by (simp split: option.split)
qed

lemma set_instances_in:
  assumes "set order = dom (mg_Instances m)"
  shows "a \<in> set (instances_in order m) \<longleftrightarrow> (\<exists>k. mg_Instances m k = Some a)"
  using assms by (force simp: instances_in_def map_filter_def)


text \<open>Two instances, one of which holds the database.\<close>

definition agent_info :: "string \<Rightarrow> auth_info" where
  "agent_info name = \<lparr>ai_Subject = ''agent'', ai_Audiences = [], ai_ScopeEnabled = True, ai_Scopes = [''agent''],
     ai_ResourceEnabled = True, ai_Resources = [''dbInstance:'' @ name], ai_Uuid = []\<rparr>"

definition reported_db :: "string \<Rightarrow> string \<Rightarrow> DbStage \<Rightarrow> DbStatus \<Rightarrow> nat \<Rightarrow> server_db" where
  "reported_db inst name stage status p = zero_proto\<lparr>pd_Name := name, pd_Stage := stage, pd_Status := status,
     pd_UpdatedAt := Some (p, 5), pd_InstanceName := inst\<rparr>"

definition sample_registration :: "string \<Rightarrow> 32 word \<Rightarrow> server_db list \<Rightarrow> manager \<Rightarrow> (svc_error + string) \<times> manager" where
  "sample_registration name v dbs m = Register_begin [''app''] (Some (agent_info name))
     \<lparr>ri_Name = name, ri_PgVersion = v, ri_Databases = dbs\<rparr> m"

definition sample_manager :: manager where
  "sample_manager = snd (sample_registration ''pg-16'' 16 []
     (snd (sample_registration ''pg-15'' 15 [reported_db ''pg-15'' ''app'' DbStage_ReadyToUse DbStatus_Done 1]
        (SubscribeInstanceStatus SourceOnInstanceStatus (SubscribeDbStatus SourceOnDbStatus NewDbInstanceManager)))))"

lemmas sample_manager_defs = sample_registration_def agent_info_def reported_db_def Register_begin_def
  LoadAuthInfo_def ValidateScope_def ValidateResource_def category_def splitn_on.simps NewInstance_def GetInstance_def
  NewDbInstance_def set_instance_def UpdateDatabase_def mustGetDb_def Database_Update_def NewDatabase_def zero_proto_def
  inst_OnStatusChanged_eq SubscribeInstanceStatus_def SubscribeDbStatus_def NewDbInstanceManager_def Let_def

lemma ValidateScope_agent [simp]: "ValidateScope (agent_info name) ''agent''"
  by (simp add: ValidateScope_def agent_info_def)

lemma ValidateResource_agent: "ValidateResource (agent_info name) (''dbInstance:'' @ name)"
  by (simp add: ValidateResource_def agent_info_def)

lemmas ValidateResource_agent_simp [simp] = ValidateResource_agent[simplified]

lemma sample_registration_ok:
  assumes "mg_Instances m name = None"
  shows "fst (sample_registration name v dbs m) = Inr name"
  using assms by (simp add: sample_registration_def Register_begin_def LoadAuthInfo_def NewInstance_def GetInstance_def
      NewDbInstance_def Let_def split: prod.split)

lemma sample_registration_instances:
  assumes "mg_Instances m name = None"
  shows "mg_Instances (snd (sample_registration name v dbs m)) = (mg_Instances m)
    (name \<mapsto> (snd (UpdateDatabases dbs (NewDbInstance name v)))\<lparr>in_Online := True\<rparr>)"
proof -
  obtain names a1 where u: "UpdateDatabases dbs (NewDbInstance name v) = (names, a1)" by fastforce
  have "in_Name a1 = name" using UpdateDatabases_wf[OF u] by (simp add: same_inst_def NewDbInstance_def)
  moreover have "in_Name (NewDbInstance name v) = name" by (simp add: NewDbInstance_def)
  ultimately show ?thesis
    using assms u by (simp add: sample_registration_def Register_begin_def LoadAuthInfo_def NewInstance_def GetInstance_def
      Let_def set_instance_def)
qed

lemma mgr_step_sample:
  assumes "mgr_reach (m, ss)" and "mg_Instances m name = None"
  shows "mgr_reach (snd (sample_registration name v dbs m), name # ss)"
  by (rule mgr_reach.step[OF assms(1) mgr_step.Register])
    (use sample_registration_ok[OF assms(2), of v dbs] in \<open>auto simp: sample_registration_def prod_eq_iff\<close>)

lemma sample_manager_reach: "mgr_reach (sample_manager, [''pg-16'', ''pg-15''])"
proof -
  let ?m0 = "SubscribeInstanceStatus SourceOnInstanceStatus (SubscribeDbStatus SourceOnDbStatus NewDbInstanceManager)"
  have n0: "mg_Instances ?m0 name = None" for name
    by (simp add: SubscribeInstanceStatus_def SubscribeDbStatus_def NewDbInstanceManager_def)
  have r0: "mgr_reach (?m0, [])" by (rule mgr_reach.step[OF mgr_reach.new mgr_step.Subscribe])
  let ?db = "reported_db ''pg-15'' ''app'' DbStage_ReadyToUse DbStatus_Done 1"
  have "mg_Instances (snd (sample_registration ''pg-15'' 15 [?db] ?m0)) ''pg-16'' = None"
    using sample_registration_instances[OF n0, of "''pg-15''" 15 "[?db]"] n0 by simp
  from mgr_step_sample[OF mgr_step_sample[OF r0 n0] this] show ?thesis by (simp add: sample_manager_def)
qed

lemma sample_manager_instances:
  "mg_Instances sample_manager = [''pg-15'' \<mapsto> \<lparr>in_Name = ''pg-15'', in_PgVersion = 15, in_Online = True,
      in_Databases = [''app'' \<mapsto> reported_db ''pg-15'' ''app'' DbStage_ReadyToUse DbStatus_Done 1], in_jobs = []\<rparr>,
    ''pg-16'' \<mapsto> \<lparr>in_Name = ''pg-16'', in_PgVersion = 16, in_Online = True, in_Databases = Map.empty, in_jobs = []\<rparr>]"
proof -
  let ?m0 = "SubscribeInstanceStatus SourceOnInstanceStatus (SubscribeDbStatus SourceOnDbStatus NewDbInstanceManager)"
  have n0: "mg_Instances ?m0 = Map.empty"
    by (simp add: SubscribeInstanceStatus_def SubscribeDbStatus_def NewDbInstanceManager_def)
  let ?db = "reported_db ''pg-15'' ''app'' DbStage_ReadyToUse DbStatus_Done 1"
  have i1: "mg_Instances (snd (sample_registration ''pg-15'' 15 [?db] ?m0)) =
      [''pg-15'' \<mapsto> (snd (UpdateDatabases [?db] (NewDbInstance ''pg-15'' 15)))\<lparr>in_Online := True\<rparr>]"
    using sample_registration_instances[of ?m0 "''pg-15''" 15 "[?db]"] n0 by simp
  then have "mg_Instances sample_manager =
      [''pg-15'' \<mapsto> (snd (UpdateDatabases [?db] (NewDbInstance ''pg-15'' 15)))\<lparr>in_Online := True\<rparr>,
       ''pg-16'' \<mapsto> (snd (UpdateDatabases [] (NewDbInstance ''pg-16'' 16)))\<lparr>in_Online := True\<rparr>]"
    using sample_registration_instances[of "snd (sample_registration ''pg-15'' 15 [?db] ?m0)" "''pg-16''" 16 "[]"]
    by (simp add: sample_manager_def)
  then show ?thesis
    by (simp add: UpdateDatabase_def mustGetDb_def Database_Update_def NewDbInstance_def NewDatabase_def
        reported_db_def zero_proto_def Let_def)
qed




section \<open>What an agent may change\<close>

text \<open>
  C18. Only an identity with the scope \<open>agent\<close> and the resource of the instance reaches it: a
  registration or a status report that is refused changes nothing, and one that is accepted carried
  such an identity and changed no other instance.
\<close>

theorem agents_change_only_their_instance:
  assumes "mgr_reach (m, ss)"
  shows "(Register_begin order info r m = (Inl e, m') \<longrightarrow> m' = m) \<and>
    (Register_begin order info r m = (Inr name, m') \<longrightarrow>
       name = ri_Name r \<and> (\<exists>i. info = Some i \<and> ValidateScope i ''agent'' \<and> ValidateResource i (''dbInstance:'' @ name)) \<and>
       (\<exists>a. mg_Instances m' = (mg_Instances m)(name \<mapsto> a) \<and> in_Online a \<and> in_PgVersion a = ri_PgVersion r)) \<and>
    (NotifyDbStatus info db m = (Inl e, m') \<longrightarrow> m' = m) \<and>
    (NotifyDbStatus info db m = (Inr (), m') \<longrightarrow>
       (\<exists>i. info = Some i \<and> ValidateScope i ''agent'' \<and> ValidateResource i (''dbInstance:'' @ pd_InstanceName db)) \<and>
       (\<exists>a. mg_Instances m' = (mg_Instances m)(pd_InstanceName db \<mapsto> a)))"
proof (intro conjI impI)
  have wf: "mgr_wf m" using mgr_reach_wf[OF assms] by simp
  show "m' = m" if "Register_begin order info r m = (Inl e, m')" by (rule Register_begin_refused[OF that])
  show "m' = m" if "NotifyDbStatus info db m = (Inl e, m')"
    using that by (auto simp: NotifyDbStatus_def LoadAuthInfo_def split: option.splits if_splits prod.splits)
  show "\<exists>i. info = Some i \<and> ValidateScope i ''agent'' \<and> ValidateResource i (''dbInstance:'' @ pd_InstanceName db)"
    if "NotifyDbStatus info db m = (Inr (), m')"
    using that by (auto simp: NotifyDbStatus_def LoadAuthInfo_def split: option.splits if_splits)
  show "\<exists>a. mg_Instances m' = (mg_Instances m)(pd_InstanceName db \<mapsto> a)" if "NotifyDbStatus info db m = (Inr (), m')"
  proof -
    from that obtain a changed a1 where a: "mg_Instances m (pd_InstanceName db) = Some a" "UpdateDatabase db a = (changed, a1)"
      and m': "mg_Instances m' = (mg_Instances m)(in_Name a1 \<mapsto> a1)"
      by (auto simp: NotifyDbStatus_def LoadAuthInfo_def GetInstance_def set_instance_def split: option.splits if_splits prod.splits)
    have "in_Name a1 = pd_InstanceName db"
      using a(2) mgr_wfD[OF wf a(1)] by (elim UpdateDatabase_eq) (simp add: same_inst_def)
    then show ?thesis using m' by auto
  qed
  assume reg: "Register_begin order info r m = (Inr name, m')"
  from reg obtain i a m1 names a1 where i: "info = Some i" "ValidateScope i ''agent''" "ValidateResource i (''dbInstance:'' @ ri_Name r)"
    and n: "NewInstance (ri_Name r) (ri_PgVersion r) m = (Inr a, m1)" and u: "UpdateDatabases (ri_Databases r) a = (names, a1)"
    and nm: "name = in_Name a"
    and m': "m' = inst_OnStatusChanged order (a1\<lparr>in_Online := True\<rparr>)
      ((set_instance (a1\<lparr>in_Online := True\<rparr>) m1)\<lparr>mg_spawned := mg_spawned m1 @ map (GoDbStatus (in_Name a)) names\<rparr>)"
    by (rule Register_begin_ok)
  have a: "in_Name a = ri_Name r" using NewInstance_wf[OF wf n] by simp
  then show "name = ri_Name r" using nm by simp
  show "\<exists>i. info = Some i \<and> ValidateScope i ''agent'' \<and> ValidateResource i (''dbInstance:'' @ name)"
    using i a nm by simp
  have v: "in_PgVersion a = ri_PgVersion r" and i1: "mg_Instances m1 = mg_Instances m \<or> mg_Instances m1 = (mg_Instances m)(ri_Name r \<mapsto> a)"
    using n by (auto simp: NewInstance_def GetInstance_def NewDbInstance_def set_instance_def Let_def split: option.splits if_splits)
  have s: "same_inst a a1" using UpdateDatabases_wf[OF u] by simp
  have "mg_Instances m' = (mg_Instances m)(name \<mapsto> a1\<lparr>in_Online := True\<rparr>)"
    using i1 s a nm unfolding m' by (auto simp: set_instance_def same_inst_def)
  then show "\<exists>a. mg_Instances m' = (mg_Instances m)(name \<mapsto> a) \<and> in_Online a \<and> in_PgVersion a = ri_PgVersion r"
    using s v by (intro exI[of _ "a1\<lparr>in_Online := True\<rparr>"]) (simp add: same_inst_def)
qed

theorem agents_change_only_their_instance_witness:
  "NotifyDbStatus None (reported_db ''pg-16'' ''app'' DbStage_ReadyToUse DbStatus_Done 2) sample_manager
     = (Inl (SvcUnauthenticated ''no auth info''), sample_manager)"
proof -
  obtain m' where m': "NotifyDbStatus None (reported_db ''pg-16'' ''app'' DbStage_ReadyToUse DbStatus_Done 2) sample_manager
      = (Inl (SvcUnauthenticated ''no auth info''), m')"
    by (simp add: NotifyDbStatus_def LoadAuthInfo_def)
  then show ?thesis using agents_change_only_their_instance[OF sample_manager_reach,
        of _ None _ "SvcUnauthenticated ''no auth info''" m' _ "reported_db ''pg-16'' ''app'' DbStage_ReadyToUse DbStatus_Done 2"]
    by blast
qed

section \<open>Creating a database through the manager\<close>

text \<open>The record an instance has of a database, a new one if it has none.\<close>

definition known_db :: "db_instance \<Rightarrow> string \<Rightarrow> server_db" where
  "known_db a name = (case in_Databases a name of None \<Rightarrow> NewDatabase | Some d \<Rightarrow> d)"

definition create_job :: "string \<Rightarrow> CreateDbRequest \<Rightarrow> db_job" where
  "create_job jobId vo = \<lparr>dj_JobId = jobId, dj_Job = DbJob_CreateDatabase
     \<lparr>cj_Name = if_Name (cd_Filter vo), cj_Reason = cd_Reason vo, cj_Owner = cd_Owner vo,
      cj_Password = cd_Password vo, cj_MigrateFrom = cd_MigrateFrom vo, cj_BackupPath = cd_BackupPath vo\<rparr>\<rparr>"

text \<open>
  What a creation answers, and the jobs of the instance before and after, by the record of the
  database: while it is dropped or migrated out it is refused, an unknown or failed one gives a job,
  any other success without a job.
\<close>

definition create_outcome :: "server_db \<Rightarrow> db_job \<Rightarrow> go_error option \<Rightarrow> db_job list \<Rightarrow> db_job list \<Rightarrow> bool" where
  "create_outcome d job err jobs jobs' =
     (case pd_Stage d of
        DbStage_DropDatabase \<Rightarrow> err = Some (ErrNew ''database is dropping'') \<and> jobs' = jobs
      | DbStage_Idle \<Rightarrow> err = Some (ErrNew ''database is migrating out'') \<and> jobs' = jobs
      | DbStage_None \<Rightarrow> err = None \<and> jobs' = jobs @ [job]
      | _ \<Rightarrow> err = None \<and> jobs' = jobs @ (if pd_Status d = DbStatus_Failed then [job] else []))"

lemma inst_CreateDb_spec:
  assumes "inst_CreateDb jobId vo a = (err, a1)"
  shows "in_Databases a1 = (in_Databases a)(if_Name (cd_Filter vo) \<mapsto> known_db a (if_Name (cd_Filter vo))) \<and>
    same_inst a a1 \<and>
    create_outcome (known_db a (if_Name (cd_Filter vo))) (create_job jobId vo) err (in_jobs a) (in_jobs a1)"
proof -
  obtain d b where b: "mustGetDb (if_Name (cd_Filter vo)) a = (d, b)" by fastforce
  then have "d = known_db a (if_Name (cd_Filter vo))" "in_jobs b = in_jobs a" "same_inst a b"
      "in_Databases b = (in_Databases a)(if_Name (cd_Filter vo) \<mapsto> d)"
    using mustGetDb_eq[OF b] by (auto simp: known_db_def)
  then show ?thesis
    using assms b
    by (auto simp: inst_CreateDb_def same_inst_def create_job_def proto_IsFailed_def create_outcome_def split: DbStage.splits if_splits)
qed

text \<open>
  A request to create a database on a named instance, without migration, whatever the order of the
  instances: it is refused as offline exactly when the instance is unknown or offline; otherwise a
  database that is being dropped or migrated out is refused, an unknown or failed one gives one job
  with the contents of the request, and any other gives success without a job. What is recorded of
  other databases and instances does not change.
\<close>

theorem create_request_outcome:
  assumes "mgr_reach (m, ss)" and "set order = dom (mg_Instances m)"
    and "if_InstanceName (cd_Filter vo) = inst" and "inst \<noteq> []" and "if_Version (cd_Filter vo) = 0" and "\<not> if_MustExist (cd_Filter vo)"
    and "cd_MigrateFrom vo = []" and "mgr_CreateDb order jobId vo m = (err, m')"
  shows "case mg_Instances m inst of
      None \<Rightarrow> err = Some ErrInstanceOffline \<and> m' = m
    | Some a \<Rightarrow>
        if \<not> in_Online a then err = Some ErrInstanceOffline \<and> m' = m
        else (\<exists>a1. m' = m\<lparr>mg_Instances := (mg_Instances m)(inst \<mapsto> a1)\<rparr> \<and> same_inst a a1 \<and>
          (\<forall>name d. in_Databases a name = Some d \<longrightarrow> in_Databases a1 name = Some d) \<and>
          create_outcome (known_db a (if_Name (cd_Filter vo))) (create_job jobId vo) err (in_jobs a) (in_jobs a1))"
proof -
  have wf: "mgr_wf m" using mgr_reach_wf[OF assms(1)] by simp
  have first: "FirstMatchedInstance order (cd_Filter vo) m = mg_Instances m inst"
    using FirstMatched_named[OF wf assms(2)] assms(3-6) by blast
  show ?thesis
  proof (cases "mg_Instances m inst")
    case None
    then show ?thesis using assms(8) first by (simp add: mgr_CreateDb_def)
  next
    case (Some a)
    note nm = mgr_wfD[OF wf Some]
    show ?thesis
    proof (cases "in_Online a")
      case False
      then show ?thesis using assms(8) first Some by (simp add: mgr_CreateDb_def)
    next
      case True
      obtain e a1 where c: "inst_CreateDb jobId vo a = (e, a1)" by fastforce
      have "err = e" "m' = set_instance a1 m"
        using assms(7,8) first Some True nm c by (simp_all add: mgr_CreateDb_def create_on_def)
      moreover have "in_Name a1 = inst" using inst_CreateDb_spec[OF c] nm by (simp add: same_inst_def)
      moreover have "\<forall>name d. in_Databases a name = Some d \<longrightarrow> in_Databases a1 name = Some d"
        using inst_CreateDb_spec[OF c] by (auto simp: known_db_def)
      ultimately have "m' = m\<lparr>mg_Instances := (mg_Instances m)(inst \<mapsto> a1)\<rparr>" "err = e"
        "\<forall>name d. in_Databases a name = Some d \<longrightarrow> in_Databases a1 name = Some d" by (simp_all add: set_instance_def)
      then show ?thesis using inst_CreateDb_spec[OF c]
        by (simp only: Some True option.case not_True_eq_False if_False) (intro exI[of _ a1], simp)
    qed
  qed
qed

definition sample_db_request :: CreateDbRequest where
  "sample_db_request = \<lparr>cd_Filter = \<lparr>if_InstanceName = ''pg-16'', if_Version = 0, if_Name = ''new'', if_MustExist = False\<rparr>,
     cd_Owner = ''new'', cd_Password = ''secret12'', cd_Reason = [], cd_MigrateFrom = [], cd_BackupPath = []\<rparr>"

theorem create_request_outcome_witness:
  "\<exists>m'. mgr_CreateDb [''pg-15'', ''pg-16''] ''j1'' sample_db_request sample_manager = (None, m') \<and>
     map_option in_jobs (mg_Instances m' ''pg-16'') = Some [create_job ''j1'' sample_db_request]"
proof -
  obtain err m' where c: "mgr_CreateDb [''pg-15'', ''pg-16''] ''j1'' sample_db_request sample_manager = (err, m')" by fastforce
  have d: "set [''pg-15'', ''pg-16''] = dom (mg_Instances sample_manager)" by (auto simp: sample_manager_instances)
  have "if_InstanceName (cd_Filter sample_db_request) = ''pg-16''" "''pg-16'' \<noteq> []" "if_Version (cd_Filter sample_db_request) = 0"
    "\<not> if_MustExist (cd_Filter sample_db_request)" "cd_MigrateFrom sample_db_request = []"
    by (simp_all add: sample_db_request_def)
  from create_request_outcome[OF sample_manager_reach d this c] c show ?thesis
    by (auto simp: sample_manager_instances known_db_def NewDatabase_def zero_proto_def sample_db_request_def create_outcome_def)
qed


section \<open>Telling the subscribers\<close>

fun sub_waiter :: "db_subscriber \<Rightarrow> nat option" where
  "sub_waiter (WaitReadySub w instName dbName) = Some w"
| "sub_waiter _ = None"

text \<open>Which subscriber goes on after a status, given the waiting calls.\<close>

fun sub_keeps :: "DbStatusResponse \<Rightarrow> (nat \<Rightarrow> ready_waiter) \<Rightarrow> db_subscriber \<Rightarrow> bool" where
  "sub_keeps d ws SourceOnDbStatus = True"
| "sub_keeps d ws (WaitReadySub w instName dbName) = (\<not> rw_done (ws w) \<and> \<not> ds_IsReady d dbName instName)"
| "sub_keeps d ws (MigrateOutSub name oldInst target vo) = (\<not> ds_IsMigrateOutReady d name oldInst)"

text \<open>The creations a status starts, in the order of the subscribers.\<close>

fun sub_creates :: "DbStatusResponse \<Rightarrow> db_subscriber \<Rightarrow> mgr_spawned list" where
  "sub_creates d (MigrateOutSub name oldInst target vo) =
     (if ds_IsMigrateOutReady d name oldInst then [GoCreateDb target vo] else [])"
| "sub_creates d _ = []"

definition notify_waiters :: "DbStatusResponse \<Rightarrow> db_subscriber list \<Rightarrow> (nat \<Rightarrow> ready_waiter) \<Rightarrow> nat \<Rightarrow> ready_waiter" where
  "notify_waiters d subs ws w =
     (if \<not> rw_done (ws w) \<and> (\<exists>sub \<in> set subs. sub_waiter sub = Some w \<and> \<not> sub_keeps d ws sub)
      then \<lparr>rw_done = True, rw_ready = True\<rparr> else ws w)"

lemma sub_keeps_cong: "(\<And>w. sub_waiter sub = Some w \<Longrightarrow> ws w = ws' w) \<Longrightarrow> sub_keeps d ws sub = sub_keeps d ws' sub"
  by (cases sub) auto

lemma in_map_filter: "y \<in> set (List.map_filter f xs) \<longleftrightarrow> (\<exists>x \<in> set xs. f x = Some y)"
  by (force simp: map_filter_def)

lemma scan_keep_notify:
  assumes "distinct (List.map_filter sub_waiter subs)"
  shows "scan_keep (call_subscriber d) subs m =
    (filter (sub_keeps d (mg_waiters m)) subs,
     m\<lparr>mg_waiters := notify_waiters d subs (mg_waiters m),
       mg_spawned := mg_spawned m @ concat (map (sub_creates d) subs),
       mg_to_source := mg_to_source m @ replicate (count_list subs SourceOnDbStatus) d\<rparr>)"
  using assms
proof (induction subs arbitrary: m)
  case Nil
  have "notify_waiters d [] (mg_waiters m) = mg_waiters m" by (rule ext) (simp add: notify_waiters_def)
  then show ?case by simp
next
  case (Cons sub subs)
  obtain k m1 where c: "call_subscriber d sub m = (k, m1)" by fastforce
  have k: "k = sub_keeps d (mg_waiters m) sub" using c by (cases sub) (auto split: if_splits)
  have d: "distinct (List.map_filter sub_waiter subs)"
    using Cons.prems by (auto simp: map_filter_simps split: option.splits)
  have ws: "mg_waiters m1 = notify_waiters d [sub] (mg_waiters m)"
    using c by (cases sub) (auto simp: notify_waiters_def fun_eq_iff split: if_splits)
  have other: "mg_waiters m1 w = mg_waiters m w" if "sub_waiter sub \<noteq> Some w" for w
    using that by (simp add: ws notify_waiters_def)
  have fresh: "sub_waiter s \<noteq> sub_waiter sub" if "s \<in> set subs" "sub_waiter s = Some w" for s w
    using Cons.prems that by (auto simp: map_filter_simps in_map_filter split: option.splits)
  have keep: "sub_keeps d (mg_waiters m1) s = sub_keeps d (mg_waiters m) s" if "s \<in> set subs" for s
    by (rule sub_keeps_cong) (metis fresh other that)
  have "notify_waiters d subs (mg_waiters m1) w = notify_waiters d (sub # subs) (mg_waiters m) w" for w
  proof (cases "sub_waiter sub = Some w")
    case True
    then have "\<not> (\<exists>s \<in> set subs. sub_waiter s = Some w)" using fresh by metis
    then show ?thesis by (auto simp: notify_waiters_def ws)
  next
    case False
    then show ?thesis using keep other[OF False] by (auto simp: notify_waiters_def)
  qed
  then have nw: "notify_waiters d subs (mg_waiters m1) = notify_waiters d (sub # subs) (mg_waiters m)" by (rule ext)
  have fl: "filter (sub_keeps d (mg_waiters m1)) subs = filter (sub_keeps d (mg_waiters m)) subs"
    using keep by (auto intro: filter_cong)
  have rest: "mg_spawned m1 = mg_spawned m @ sub_creates d sub"
    "mg_to_source m1 = mg_to_source m @ replicate (if sub = SourceOnDbStatus then 1 else 0) d"
    "m1\<lparr>mg_waiters := x, mg_spawned := y, mg_to_source := z\<rparr> = m\<lparr>mg_waiters := x, mg_spawned := y, mg_to_source := z\<rparr>" for x y z
    using c by (cases sub; auto split: if_splits)+
  show ?case using c k nw fl rest Cons.IH[OF d, of m1] by simp
qed

text \<open>
  Telling the subscribers of a status, with the deletion during the loop, is the obvious
  specification: the source handler is called once for each of its subscriptions, a waiting call of
  \<open>WaitReady\<close> for that database and instance returns true and leaves, one that has timed out leaves, a
  migration whose old database is idle starts its creation once and leaves, and every other
  subscriber stays, in order.
\<close>

theorem notify_meets_spec:
  assumes "distinct (List.map_filter sub_waiter (mg_subs m))"
  shows "notifyStatusChanged d m =
    m\<lparr>mg_subs := filter (sub_keeps d (mg_waiters m)) (mg_subs m),
      mg_waiters := notify_waiters d (mg_subs m) (mg_waiters m),
      mg_spawned := mg_spawned m @ concat (map (sub_creates d) (mg_subs m)),
      mg_to_source := mg_to_source m @ replicate (count_list (mg_subs m) SourceOnDbStatus) d\<rparr>"
  using scan_keep_notify[OF assms, of d m] by (simp add: notifyStatusChanged_def scan_del_eq)

theorem notify_meets_spec_witness:
  "mg_to_source (notifyStatusChanged (Database_StatusResponse NewDatabase)
     (NewDbInstanceManager\<lparr>mg_subs := [WaitReadySub 1 ''pg-16'' ''app'', SourceOnDbStatus, WaitReadySub 2 ''pg-16'' ''app'']\<rparr>))
   = [Database_StatusResponse NewDatabase]"
  using notify_meets_spec[of "NewDbInstanceManager\<lparr>mg_subs := [WaitReadySub 1 ''pg-16'' ''app'', SourceOnDbStatus, WaitReadySub 2 ''pg-16'' ''app'']\<rparr>"
      "Database_StatusResponse NewDatabase"]
  by (simp add: map_filter_simps NewDbInstanceManager_def)


section \<open>Migrations and streams\<close>




end
