(* ===== verification/Source_Manager.thy ===== *)
theory Source_Manager
  imports Source_Safety Manager_Properties
begin

text \<open>
  The source handler over the manager of the instances. What the handler needs of a database manager
  (\<open>internal/interface/grpcServerApi/db_manager.go\<close>) is a locale; the lemmas about the handler that rest
  on it are proved there, and the manager is shown to be one.
\<close>

section \<open>The interface\<close>

text \<open>A request that names its instance, as the handler makes them.\<close>

definition names_instance :: "InstanceFilter \<Rightarrow> bool" where
  "names_instance f = (if_InstanceName f \<noteq> [] \<and> if_Version f = 0 \<and> \<not> if_MustExist f)"

text \<open>
  The laws: the status of a named instance is that instance's; a creation is refused as offline
  exactly when the instance or the one to migrate from is not online, and it neither breaks the
  manager nor changes a status that was known.
\<close>

locale db_manager =
  fixes get :: "InstanceFilter \<Rightarrow> 'm \<Rightarrow> go_error + DbStatusResponse"
    and create :: "CreateDbRequest \<Rightarrow> 'm \<Rightarrow> go_error option \<times> 'm"
    and ok :: "'m \<Rightarrow> bool"
    and online :: "string \<Rightarrow> 'm \<Rightarrow> bool"
  assumes get_own: "ok m \<Longrightarrow> names_instance f \<Longrightarrow> get f m = Inr d \<Longrightarrow> ds_InstanceName d = if_InstanceName f"
    and create_ok: "ok m \<Longrightarrow> create q m = (e, m') \<Longrightarrow> ok m'"
    and create_offline: "ok m \<Longrightarrow> names_instance (cd_Filter q) \<Longrightarrow> create q m = (e, m') \<Longrightarrow>
      e = Some ErrInstanceOffline \<longleftrightarrow>
        \<not> online (if_InstanceName (cd_Filter q)) m \<or> cd_MigrateFrom q \<noteq> [] \<and> \<not> online (cd_MigrateFrom q) m"
    and create_keeps: "ok m \<Longrightarrow> names_instance f \<Longrightarrow> get f m = Inr d \<Longrightarrow> create q m = (e, m') \<Longrightarrow> get f m' = Inr d"

definition source_filter :: "DatabaseSource \<Rightarrow> InstanceFilter" where
  "source_filter x = \<lparr>if_InstanceName = so_InstanceName x, if_Version = 0, if_Name = so_Name x, if_MustExist = False\<rparr>"

lemma names_source_filter: "so_InstanceName x \<noteq> [] \<Longrightarrow> names_instance (source_filter x)"
  by (simp add: names_instance_def source_filter_def)

lemma create_request_fields [simp]:
  "cd_Filter (create_request_of x password) = source_filter x"
  "cd_MigrateFrom (create_request_of x password) = rq_MigrateFrom (so_Request x)"
  "if_InstanceName (source_filter x) = so_InstanceName x" "if_Name (source_filter x) = so_Name x"
  by (simp_all add: create_request_of_def source_filter_def)

lemma create_request_of_cong: "so_Request x = so_Request y \<Longrightarrow> so_Type x = so_Type y \<Longrightarrow> create_request_of x p = create_request_of y p"
  by (simp add: create_request_of_def)

text \<open>The source after the start of \<open>Handle\<close>, and the state it is in.\<close>

abbreviation started :: "'m source_env \<Rightarrow> nat \<Rightarrow> 'm source_state \<Rightarrow> DatabaseSource" where
  "started E r s \<equiv> (sh_heap s r)\<lparr>so_LastScheduledAt := se_now E (sh_ticks s)\<rparr>"

lemma Handle_unfold:
  "SourceHandler_Handle E r s =
     (case se_GetDbStatus E (source_filter (sh_heap s r)) (sh_manager s) of
        Inl e \<Rightarrow> requestCreate E r (put_source r ((started E r s)\<lparr>so_State := SourceStateProcessing\<rparr>) (s\<lparr>sh_ticks := Suc (sh_ticks s)\<rparr>))
      | Inr d \<Rightarrow>
          (let s1 = updateDbStatus E r d (put_source r (started E r s) (s\<lparr>sh_ticks := Suc (sh_ticks s)\<rparr>))
           in if Synced (sh_heap s1 r) then (None, s1)
              else requestCreate E r (put_source r ((sh_heap s1 r)\<lparr>so_State := SourceStateProcessing\<rparr>) s1)))"
  by (simp add: SourceHandler_Handle_def syncDatabaseSource_def read_clock_def put_source_def source_filter_def Let_def
      split: sum.split)

context db_manager
begin

text \<open>A source whose instance reports the expected stage is synced, without a creation.\<close>

lemma handle_synced:
  assumes "se_GetDbStatus E = get" and "ok (sh_manager s)" and "so_InstanceName (sh_heap s r) \<noteq> []"
    and "get (source_filter (sh_heap s r)) (sh_manager s) = Inr d"
    and "ds_Stage d = source_state_string (so_ExpectState (sh_heap s r))" and "expects (sh_heap s r)"
  shows "\<exists>s'. SourceHandler_Handle E r s = (None, s') \<and> so_State (sh_heap s' r) = so_ExpectState (sh_heap s r) \<and>
    sh_manager s' = sh_manager s \<and> sh_Databases s' = sh_Databases s"
proof -
  have own: "ds_InstanceName d = so_InstanceName (sh_heap s r)"
    using get_own[OF assms(2) names_source_filter[OF assms(3)] assms(4)] by simp
  have stage: "ds_Stage d \<noteq> ''DropDatabase''" using assms(5,6) by auto
  have nf: "so_ExpectState (sh_heap s r) \<noteq> SourceStateFailed" "so_ExpectState (sh_heap s r) \<noteq> SourceStateDropped"
    using assms(6) by auto
  let ?s0 = "put_source r (started E r s) (s\<lparr>sh_ticks := Suc (sh_ticks s)\<rparr>)"
  have run: "SourceHandler_Handle E r s = (let s1 = updateDbStatus E r d ?s0
           in if Synced (sh_heap s1 r) then (None, s1)
              else requestCreate E r (put_source r ((sh_heap s1 r)\<lparr>so_State := SourceStateProcessing\<rparr>) s1))"
    using assms(1,4) by (simp add: Handle_unfold)
  show ?thesis
  proof (cases "so_State (sh_heap s r) = so_ExpectState (sh_heap s r)")
    case True
    have failed: "so_State (sh_heap s r) \<noteq> SourceStateProcessing" using True assms(6) by auto
    then have "UpdateState d (started E r s) = (False, started E r s)"
      using own stage True by (simp add: UpdateState_def)
    then have "updateDbStatus E r d ?s0 = ?s0" by (simp add: updateDbStatus_def put_source_def)
    then show ?thesis using True by (simp add: run Synced_def) (simp add: put_source_def)
  next
    case False
    have "UpdateState d (started E r s) = (True, ResetRetryDelay ((started E r s)
        \<lparr>so_State := so_ExpectState (sh_heap s r), so_UpdatedAt := ds_UpdatedAt d\<rparr>))"
      using own stage False assms(5) by (simp add: UpdateState_def)
    then have "updateDbStatus E r d ?s0 = put_source r (ResetRetryDelay ((started E r s)
        \<lparr>so_State := so_ExpectState (sh_heap s r), so_UpdatedAt := ds_UpdatedAt d\<rparr>)) ?s0"
      using nf by (simp add: updateDbStatus_def Let_def ResetRetryDelay_def)
    then show ?thesis by (simp add: run Synced_def ResetRetryDelay_def) (simp add: put_source_def)
  qed
qed

lemma requestCreate_pends:
  assumes "se_CreateDb E = create" and "ok (sh_manager s)" and "so_InstanceName (sh_heap s r) \<noteq> []"
    and "so_ExpectState (sh_heap s r) = SourceStateReady" and "so_State (sh_heap s r) = SourceStateProcessing"
    and "PasswordContent (se_read_trimmed E) (so_Request (sh_heap s r)) = Inr password"
  shows "so_State (sh_heap (snd (requestCreate E r s)) r) = SourceStatePending \<longleftrightarrow>
    \<not> online (so_InstanceName (sh_heap s r)) (sh_manager s) \<or>
    rq_MigrateFrom (so_Request (sh_heap s r)) \<noteq> [] \<and> \<not> online (rq_MigrateFrom (so_Request (sh_heap s r))) (sh_manager s)"
proof -
  obtain e m' where c: "create (create_request_of (sh_heap s r) password) (sh_manager s) = (e, m')" by fastforce
  note off = create_offline[OF assms(2) _ c, simplified, OF names_source_filter[OF assms(3)]]
  show ?thesis
  proof (cases e)
    case None
    then show ?thesis using off assms c by (simp add: requestCreate_def Let_def)
  next
    case (Some err)
    then show ?thesis using off assms c
      by (cases "err = ErrInstanceOffline") (simp_all add: requestCreate_def read_clock_def Let_def)
  qed
qed

lemma handle_ok:
  assumes "se_CreateDb E = create" and "ok (sh_manager s)"
  shows "ok (sh_manager (snd (requestCreate E r s)))"
proof -
  have retry: "sh_manager (retryNextTime E r t) = sh_manager t" for t
    by (simp add: retryNextTime_def read_clock_def put_source_def NextRetryDelay_def Let_def)
  show ?thesis using assms create_ok
    by (auto simp: requestCreate_def read_clock_def Let_def retry put_source_def split: sum.split prod.split option.split)
qed

text \<open>An unknown database: the source waits for the instance exactly when it cannot be reached.\<close>

lemma handle_pends_iff_offline:
  assumes "se_GetDbStatus E = get" and "se_CreateDb E = create" and "ok (sh_manager s)"
    and "so_InstanceName (sh_heap s r) \<noteq> []" and "get (source_filter (sh_heap s r)) (sh_manager s) = Inl e0"
    and "so_ExpectState (sh_heap s r) = SourceStateReady"
    and "PasswordContent (se_read_trimmed E) (so_Request (sh_heap s r)) = Inr password"
  shows "so_State (sh_heap (snd (SourceHandler_Handle E r s)) r) = SourceStatePending \<longleftrightarrow>
    \<not> online (so_InstanceName (sh_heap s r)) (sh_manager s) \<or>
    rq_MigrateFrom (so_Request (sh_heap s r)) \<noteq> [] \<and> \<not> online (rq_MigrateFrom (so_Request (sh_heap s r))) (sh_manager s)"
  using requestCreate_pends[OF assms(2), of "put_source r ((started E r s)\<lparr>so_State := SourceStateProcessing\<rparr>) (s\<lparr>sh_ticks := Suc (sh_ticks s)\<rparr>)" r password]
    assms by (simp add: Handle_unfold) (simp add: put_source_def)

end


section \<open>The manager provides it\<close>

text \<open>
  The manager with what its calls also depend on: the order in which Go visits the instances, and the
  fresh uuids of the jobs.
\<close>

record manager_view =
  mv_manager :: manager
  mv_order :: "string list"
  mv_uuid :: "nat \<Rightarrow> string"
  mv_next :: nat

definition view_GetDbStatus :: "InstanceFilter \<Rightarrow> manager_view \<Rightarrow> go_error + DbStatusResponse" where
  "view_GetDbStatus f v = GetDbStatus (mv_order v) f (mv_manager v)"

definition view_CreateDb :: "CreateDbRequest \<Rightarrow> manager_view \<Rightarrow> go_error option \<times> manager_view" where
  "view_CreateDb q v =
     (case mgr_CreateDb (mv_order v) (mv_uuid v (mv_next v)) q (mv_manager v) of
        (e, m) \<Rightarrow> (e, v\<lparr>mv_manager := m, mv_next := Suc (mv_next v)\<rparr>))"

definition view_ok :: "manager_view \<Rightarrow> bool" where
  "view_ok v = (mgr_wf (mv_manager v) \<and> set (mv_order v) = dom (mg_Instances (mv_manager v)))"

definition view_online :: "string \<Rightarrow> manager_view \<Rightarrow> bool" where
  "view_online name v = (case mg_Instances (mv_manager v) name of None \<Rightarrow> False | Some a \<Rightarrow> in_Online a)"

lemma view_first:
  "view_ok v \<Longrightarrow> names_instance f \<Longrightarrow> FirstMatchedInstance (mv_order v) f (mv_manager v) = mg_Instances (mv_manager v) (if_InstanceName f)"
  by (simp add: view_ok_def names_instance_def FirstMatched_named)

lemma view_name: "view_ok v \<Longrightarrow> mg_Instances (mv_manager v) k = Some a \<Longrightarrow> in_Name a = k"
  using mgr_wfD by (auto simp: view_ok_def)

text \<open>A creation on an instance keeps the instances and what they know.\<close>

definition grows :: "manager \<Rightarrow> manager \<Rightarrow> bool" where
  "grows m m' = (\<forall>k. case mg_Instances m k of None \<Rightarrow> mg_Instances m' k = None
     | Some a \<Rightarrow> (\<exists>b. mg_Instances m' k = Some b \<and> same_inst a b \<and>
          (\<forall>name d. in_Databases a name = Some d \<longrightarrow> in_Databases b name = Some d)))"

lemma grows_refl [simp]: "grows m m"
  by (auto simp: grows_def split: option.split)

lemma growsD:
  assumes "grows m m'" and "mg_Instances m k = Some a"
  obtains b where "mg_Instances m' k = Some b" and "same_inst a b"
    and "\<And>name d. in_Databases a name = Some d \<Longrightarrow> in_Databases b name = Some d"
proof -
  have "\<exists>b. mg_Instances m' k = Some b \<and> same_inst a b \<and>
      (\<forall>name d. in_Databases a name = Some d \<longrightarrow> in_Databases b name = Some d)"
    using assms(1)[unfolded grows_def, THEN spec, of k] assms(2) by simp
  then show ?thesis using that by blast
qed

lemma grows_set:
  assumes "mg_Instances m (in_Name a) = Some a" and "same_inst a b"
    and "\<forall>name d. in_Databases a name = Some d \<longrightarrow> in_Databases b name = Some d"
  shows "grows m (set_instance b m)" and "grows m (set_instance b (m\<lparr>mg_subs := subs\<rparr>))"
  using assms by (auto simp: grows_def set_instance_def same_inst_def split: option.split)

lemma grows_dom: "grows m m' \<Longrightarrow> dom (mg_Instances m') = dom (mg_Instances m)"
  by (auto simp: grows_def domIff split: option.splits) (metis option.exhaust option.distinct(1))+

lemma create_on_grows:
  assumes "mgr_wf m"
  shows "grows m (snd (create_on jobId target q m))"
proof (cases "mg_Instances m target")
  case (Some a)
  obtain e b where c: "inst_CreateDb jobId q a = (e, b)" by fastforce
  have n: "in_Name a = target" using mgr_wfD[OF assms Some] by simp
  have "\<forall>name d. in_Databases a name = Some d \<longrightarrow> in_Databases b name = Some d"
    using inst_CreateDb_spec[OF c] by (auto simp: known_db_def)
  then have "grows m (set_instance b m)" by (intro grows_set) (use Some n inst_CreateDb_spec[OF c] in auto)
  then show ?thesis using Some c by (simp add: create_on_def)
qed (simp add: create_on_def)

lemma MigrateOut_grows:
  assumes "mgr_wf m" and "mg_Instances m (in_Name a) = Some a"
  shows "grows m (snd (inst_MigrateOut jobId target q a m))"
proof -
  have "same_inst a (inst_Send j a)" for j by (simp add: same_inst_def)
  then show ?thesis using create_on_grows[OF assms(1)] grows_set(2)[OF assms(2)]
    by (simp add: inst_MigrateOut_def Let_def)
qed

lemma mgr_CreateDb_grows:
  assumes "mgr_wf m" shows "grows m (snd (mgr_CreateDb order jobId q m))"
proof -
  have "mg_Instances m (in_Name a) = Some a" if "mg_Instances m k = Some a" for k a
    using mgr_wfD[OF assms that] that by simp
  then show ?thesis
    using create_on_grows[OF assms] MigrateOut_grows[OF assms]
    by (simp add: mgr_CreateDb_def GetInstance_def split: option.split)
qed

lemma create_on_err: "fst (create_on jobId target q m) \<noteq> Some ErrInstanceOffline"
  using inst_CreateDb_err by (simp add: create_on_def split: option.split prod.split) (metis fst_conv)

lemma MigrateOut_err: "fst (inst_MigrateOut jobId target q a m) \<noteq> Some ErrInstanceOffline"
  using create_on_err by (simp add: inst_MigrateOut_def Let_def)

lemma mgr_CreateDb_offline:
  "fst (mgr_CreateDb order jobId q m) = Some ErrInstanceOffline \<longleftrightarrow>
    (case FirstMatchedInstance order (cd_Filter q) m of
       None \<Rightarrow> True
     | Some a \<Rightarrow> \<not> in_Online a \<or> cd_MigrateFrom q \<noteq> [] \<and>
         (case mg_Instances m (cd_MigrateFrom q) of None \<Rightarrow> True | Some old \<Rightarrow> \<not> in_Online old))"
  using create_on_err MigrateOut_err by (simp add: mgr_CreateDb_def GetInstance_def split: option.split)

lemma view_CreateDb_eq:
  assumes "view_CreateDb q v = (e, v')"
  shows "mv_order v' = mv_order v" and "mgr_CreateDb (mv_order v) (mv_uuid v (mv_next v)) q (mv_manager v) = (e, mv_manager v')"
  using assms by (auto simp: view_CreateDb_def split: prod.splits)

interpretation instances: db_manager view_GetDbStatus view_CreateDb view_ok view_online
proof
  fix v v' q f d e
  assume ok: "view_ok v"
  have wf: "mgr_wf (mv_manager v)" using ok by (simp add: view_ok_def)
  show "ds_InstanceName d = if_InstanceName f" if "names_instance f" "view_GetDbStatus f v = Inr d"
    using that view_name[OF ok] view_first[OF ok that(1)] by (auto simp: view_GetDbStatus_def GetDbStatus_def split: option.splits)
  assume c: "view_CreateDb q v = (e, v')"
  note eq = view_CreateDb_eq[OF c]
  have gr: "grows (mv_manager v) (mv_manager v')" using mgr_CreateDb_grows[OF wf] eq(2) by (metis snd_conv)
  have wf': "mgr_wf (mv_manager v')" using mgr_CreateDb_wf[OF wf] eq(2) by (metis snd_conv)
  show ok': "view_ok v'" using ok wf' grows_dom[OF gr] eq(1) by (simp add: view_ok_def)
  show "e = Some ErrInstanceOffline \<longleftrightarrow> \<not> view_online (if_InstanceName (cd_Filter q)) v \<or>
      cd_MigrateFrom q \<noteq> [] \<and> \<not> view_online (cd_MigrateFrom q) v" if n: "names_instance (cd_Filter q)"
    using mgr_CreateDb_offline[of "mv_order v" "mv_uuid v (mv_next v)" q "mv_manager v"] view_first[OF ok n]
    by (simp add: eq(2) view_online_def split: option.splits)
  show "view_GetDbStatus f v' = Inr d" if n: "names_instance f" and g: "view_GetDbStatus f v = Inr d"
  proof -
    from g view_first[OF ok n] obtain a db where a: "mg_Instances (mv_manager v) (if_InstanceName f) = Some a"
      and db: "in_Databases a (if_Name f) = Some db"
      and d: "d = (Database_StatusResponse db)\<lparr>ds_InstanceName := in_Name a, ds_Version := in_PgVersion a\<rparr>"
      by (auto simp: view_GetDbStatus_def GetDbStatus_def inst_GetDb_def split: option.splits)
    obtain b where "mg_Instances (mv_manager v') (if_InstanceName f) = Some b" "same_inst a b"
        "in_Databases b (if_Name f) = Some db"
      using growsD[OF gr a] db by metis
    then show ?thesis using view_first[OF ok' n] d
      by (simp add: view_GetDbStatus_def GetDbStatus_def inst_GetDb_def same_inst_def)
  qed
qed

end
