(* ===== verification/End_To_End.thy ===== *)
theory End_To_End
  imports Source_Manager Job_Run
begin

text \<open>
  Properties of the source handler, the manager and the agent together: the way of a declared source
  to a job of its instance and, at the agent, to a database that is ready; and the way of the agent's
  report back to the source.
\<close>

section \<open>Sources and instances\<close>


text \<open>
  A source whose instance reports the stage it expects becomes synced without a creation: the
  manager is not called to create, whatever status accompanies the stage.
\<close>

theorem reported_source_is_synced:
  assumes "se_GetDbStatus E = view_GetDbStatus" and "view_ok (sh_manager s)" and "so_InstanceName (sh_heap s r) \<noteq> []"
    and "view_GetDbStatus (source_filter (sh_heap s r)) (sh_manager s) = Inr d"
    and "ds_Stage d = source_state_string (so_ExpectState (sh_heap s r))" and "expects (sh_heap s r)"
  shows "\<exists>s'. SourceHandler_Handle E r s = (None, s') \<and> so_State (sh_heap s' r) = so_ExpectState (sh_heap s r) \<and>
    sh_manager s' = sh_manager s \<and> sh_Databases s' = sh_Databases s"
  using assms by (rule instances.handle_synced)

definition sample_view :: manager_view where
  "sample_view = \<lparr>mv_manager = sample_manager, mv_order = [''pg-15'', ''pg-16''], mv_uuid = (\<lambda>_. ''j1''), mv_next = 0\<rparr>"

lemma sample_view_ok: "view_ok sample_view"
  using mgr_reach_wf[OF sample_manager_reach] by (auto simp: view_ok_def sample_view_def sample_manager_instances)

definition manager_env :: "manager_view source_env" where
  "manager_env = \<lparr>se_now = int, se_read_trimmed = \<lambda>_. Inr [], se_GetDbStatus = view_GetDbStatus,
     se_CreateDb = view_CreateDb, se_validate = \<lambda>_. None, se_DeleyDelete = 100\<rparr>"

definition source_on :: "string \<Rightarrow> manager_view source_state" where
  "source_on inst = NewSourceHandler (\<lambda>_. sample_source\<lparr>so_ExpectState := SourceStateReady,
     so_Request := sample_request\<lparr>rq_InstanceName := inst\<rparr>\<rparr>) sample_view"

lemma source_on_fields [simp]:
  "sh_manager (source_on inst) = sample_view" "so_InstanceName (sh_heap (source_on inst) r) = inst"
  "so_ExpectState (sh_heap (source_on inst) r) = SourceStateReady" "so_Name (sh_heap (source_on inst) r) = ''app''"
  "rq_MigrateFrom (so_Request (sh_heap (source_on inst) r)) = []" "rq_Password (so_Request (sh_heap (source_on inst) r)) = ''secret12''"
  by (simp_all add: source_on_def NewSourceHandler_def sample_source_def sample_request_def)

lemma sample_view_status:
  "view_GetDbStatus \<lparr>if_InstanceName = inst, if_Version = 0, if_Name = ''app'', if_MustExist = False\<rparr> sample_view =
     (if inst = [] then view_GetDbStatus \<lparr>if_InstanceName = inst, if_Version = 0, if_Name = ''app'', if_MustExist = False\<rparr> sample_view
      else case mg_Instances sample_manager inst of
        None \<Rightarrow> Inl (ErrNew ''instance not found'')
      | Some a \<Rightarrow> (case in_Databases a ''app'' of
            None \<Rightarrow> Inl (ErrNew ''database not found'')
          | Some db \<Rightarrow> Inr ((Database_StatusResponse db)\<lparr>ds_InstanceName := in_Name a, ds_Version := in_PgVersion a\<rparr>)))"
  using view_first[OF sample_view_ok, of "\<lparr>if_InstanceName = inst, if_Version = 0, if_Name = ''app'', if_MustExist = False\<rparr>"]
  by (simp add: names_instance_def view_GetDbStatus_def GetDbStatus_def inst_GetDb_def sample_view_def split: option.split)


theorem reported_source_is_synced_witness:
  "\<exists>s'. SourceHandler_Handle manager_env 0 (source_on ''pg-15'') = (None, s') \<and> so_State (sh_heap s' 0) = SourceStateReady"
proof -
  obtain d where d: "view_GetDbStatus (source_filter (sh_heap (source_on ''pg-15'') 0)) (sh_manager (source_on ''pg-15'')) = Inr d"
    "ds_Stage d = ''ReadyToUse''"
    using sample_view_status[of "''pg-15''"]
    by (simp add: source_filter_def sample_manager_instances Database_StatusResponse_def reported_db_def)
  show ?thesis using reported_source_is_synced[of manager_env, OF _ _ _ d(1)] d(2)
    by (auto simp: manager_env_def sample_view_ok)
qed

section \<open>From a declared source to a ready database\<close>

lemma view_create_sent:
  assumes "view_ok v" and "names_instance (cd_Filter q)" and "cd_MigrateFrom q = []"
    and "mg_Instances (mv_manager v) (if_InstanceName (cd_Filter q)) = Some a" and "in_Online a"
    and "in_Databases a (if_Name (cd_Filter q)) = None"
  obtains b where "view_CreateDb q v = (None, v\<lparr>mv_manager := set_instance b (mv_manager v), mv_next := Suc (mv_next v)\<rparr>)"
    and "same_inst a b" and "in_Databases b = (in_Databases a)(if_Name (cd_Filter q) \<mapsto> NewDatabase)"
    and "in_jobs b = in_jobs a @ [create_job (mv_uuid v (mv_next v)) q]"
proof -
  have first: "FirstMatchedInstance (mv_order v) (cd_Filter q) (mv_manager v) = Some a"
    using view_first[OF assms(1,2)] assms(4) by simp
  obtain e b where c: "inst_CreateDb (mv_uuid v (mv_next v)) q a = (e, b)" by fastforce
  have "known_db a (if_Name (cd_Filter q)) = NewDatabase" using assms(6) by (simp add: known_db_def)
  then have out: "e = None" "in_jobs b = in_jobs a @ [create_job (mv_uuid v (mv_next v)) q]" "same_inst a b"
      "in_Databases b = (in_Databases a)(if_Name (cd_Filter q) \<mapsto> NewDatabase)"
    using inst_CreateDb_spec[OF c] by (simp_all add: create_outcome_def NewDatabase_def zero_proto_def)
  have "in_Name a = if_InstanceName (cd_Filter q)" using view_name[OF assms(1,4)] .
  then have "view_CreateDb q v = (None, v\<lparr>mv_manager := set_instance b (mv_manager v), mv_next := Suc (mv_next v)\<rparr>)"
    using first assms(3-5) c out by (simp add: view_CreateDb_def mgr_CreateDb_def create_on_def)
  with out show ?thesis using that by blast
qed

lemma requestCreate_sent:
  assumes "so_ExpectState (sh_heap s r) \<noteq> SourceStateIdle"
    and "PasswordContent (se_read_trimmed E) (so_Request (sh_heap s r)) = Inr password"
    and "se_CreateDb E (create_request_of (sh_heap s r) password) (sh_manager s) = (None, m)"
  shows "requestCreate E r s = (None, s\<lparr>sh_manager := m\<rparr>)"
  using assms by (simp add: requestCreate_def Let_def)

text \<open>The job a source without migration asks for.\<close>

definition source_job :: "DatabaseSource \<Rightarrow> string \<Rightarrow> create_database_job" where
  "source_job x password = \<lparr>cj_Name = so_Name x,
     cj_Reason = ''Create database '' @ so_Name x @ '' from source '' @ source_type_string (so_Type x),
     cj_Owner = rq_Owner (so_Request x), cj_Password = password, cj_MigrateFrom = [],
     cj_BackupPath = rq_BackupPath (so_Request x)\<rparr>"

text \<open>
  The server's half: the source is left processing, and the manager differs in the instance only, which
  has one more job and a new record.
\<close>

lemma declared_source_handled:
  assumes "se_GetDbStatus E = view_GetDbStatus" and "se_CreateDb E = view_CreateDb" and "view_ok (sh_manager s)"
    and "x = sh_heap s r" and "so_InstanceName x = inst" and "inst \<noteq> []" and "so_ExpectState x = SourceStateReady"
    and "rq_MigrateFrom (so_Request x) = []"
    and "PasswordContent (se_read_trimmed E) (so_Request x) = Inr password"
    and "mg_Instances (mv_manager (sh_manager s)) inst = Some a" and "in_Online a" and "in_Databases a (so_Name x) = None"
  obtains s' b job where "SourceHandler_Handle E r s = (None, s')"
    and "so_State (sh_heap s' r) = SourceStateProcessing" and "so_Request (sh_heap s' r) = so_Request x"
    and "so_ExpectState (sh_heap s' r) = SourceStateReady" and "sh_Databases s' = sh_Databases s"
    and "mv_manager (sh_manager s') = set_instance b (mv_manager (sh_manager s))" and "same_inst a b"
    and "in_Databases b = (in_Databases a)(so_Name x \<mapsto> NewDatabase)" and "in_jobs b = in_jobs a @ [job]"
    and "dj_Job job = DbJob_CreateDatabase (source_job x password)"
proof -
  define q where "q = create_request_of x password"
  have names: "names_instance (cd_Filter q)" "if_InstanceName (cd_Filter q) = inst" "if_Name (cd_Filter q) = so_Name x"
    "cd_MigrateFrom q = []"
    using assms(5,6,8) by (simp_all add: q_def names_instance_def source_filter_def)
  define y where "y = (started E r s)\<lparr>so_State := SourceStateProcessing\<rparr>"
  define s1 where "s1 = put_source r y (s\<lparr>sh_ticks := Suc (sh_ticks s)\<rparr>)"
  have s1: "sh_heap s1 r = y" "sh_manager s1 = sh_manager s" "so_Request y = so_Request x" "so_ExpectState y = so_ExpectState x"
    "create_request_of y password = q" "sh_Databases s1 = sh_Databases s"
    using assms(4) by (simp_all add: s1_def put_source_def y_def q_def create_request_of_def)
  have "view_GetDbStatus (source_filter x) (sh_manager s) = Inl (ErrNew ''database not found'')"
    using view_first[OF assms(3), of "source_filter x"] names_source_filter[of x] assms(5,6,10,12)
    by (simp add: view_GetDbStatus_def GetDbStatus_def inst_GetDb_def)
  then have handle: "SourceHandler_Handle E r s = requestCreate E r s1"
    using assms(1,4) by (simp add: Handle_unfold s1_def y_def)
  obtain b where sent: "view_CreateDb q (sh_manager s) = (None, (sh_manager s)\<lparr>mv_manager := set_instance b (mv_manager (sh_manager s)),
        mv_next := Suc (mv_next (sh_manager s))\<rparr>)" "same_inst a b" "in_Databases b = (in_Databases a)(so_Name x \<mapsto> NewDatabase)"
      "in_jobs b = in_jobs a @ [create_job (mv_uuid (sh_manager s) (mv_next (sh_manager s))) q]"
    using view_create_sent[OF assms(3) names(1,4), of a] names assms(10-12) by auto
  have "requestCreate E r s1 = (None, s1\<lparr>sh_manager := (sh_manager s)\<lparr>mv_manager := set_instance b (mv_manager (sh_manager s)),
        mv_next := Suc (mv_next (sh_manager s))\<rparr>\<rparr>)"
    using requestCreate_sent[of s1 r E password] sent(1) s1 assms(2,7,9) by simp
  moreover have "dj_Job (create_job (mv_uuid (sh_manager s) (mv_next (sh_manager s))) q) = DbJob_CreateDatabase (source_job x password)"
    using assms(8) by (simp add: create_job_def q_def create_request_of_def source_job_def)
  ultimately show ?thesis using that[OF _ _ _ _ _ _ sent(2-4)] handle s1 assms(7) by (simp add: y_def)
qed

text \<open>The agent's half.\<close>

lemma source_job_reaches_ready:
  assumes "healthy A" and "cfg_tmpl (env_cfg A) \<noteq> None" and "fresh_uuids A w 10" and "wf_world w"
    and "\<not> IsReservedName (env_cfg A) (so_Name x)" and "sel_by db_Name (so_Name x) (w_dbs w) = None"
    and "dj_Job job = DbJob_CreateDatabase (source_job x password)"
  shows "\<exists>n i rows w1 st. GrpcAgentHandler_handle uuid_parse A job w = (Ok (Some (n, i, rows)), w1) \<and>
      st = drive (length rows) A (start_job A (n, i, rows) w1) \<and> js_jobs st = Map.empty \<and> js_ready st = [] \<and>
      stage_of (js_world st) (w_next_id w) = Some (DbStage_ReadyToUse, DbStatus_Done)"
proof -
  have handled: "GrpcAgentHandler_handle uuid_parse A job w = create_Process A (NewCreateDatabaseRequest uuid_parse (dj_JobId job)
      (source_job x password)) w"
    using assms(7) by (simp add: GrpcAgentHandler_handle_def)
  show ?thesis
    unfolding handled using create_job_reaches_ready[OF assms(1-4), of "NewCreateDatabaseRequest uuid_parse (dj_JobId job) (source_job x password)"] assms(5,6)
    by (simp add: NewCreateDatabaseRequest_def source_job_def) blast
qed

text \<open>
  From a declared source to a ready database: when a source that expects to be ready, without a
  migration, is handled while its instance is online and knows nothing of the database, the call
  succeeds, leaves the source processing, and hands the instance one more job with the contents of the
  source; and when an agent whose environment answers, and which has no such database, handles that
  job, the job runs to its end, is dropped, and the database is ready to use.
\<close>

theorem declared_source_becomes_ready_database:
  assumes "se_GetDbStatus E = view_GetDbStatus" and "se_CreateDb E = view_CreateDb" and "view_ok (sh_manager s)"
    and "x = sh_heap s r" and "so_InstanceName x = inst" and "inst \<noteq> []" and "so_ExpectState x = SourceStateReady"
    and "rq_MigrateFrom (so_Request x) = []"
    and "PasswordContent (se_read_trimmed E) (so_Request x) = Inr password"
    and "mg_Instances (mv_manager (sh_manager s)) inst = Some a" and "in_Online a" and "in_Databases a (so_Name x) = None"
    and "healthy A" and "cfg_tmpl (env_cfg A) \<noteq> None" and "fresh_uuids A w 10" and "wf_world w"
    and "\<not> IsReservedName (env_cfg A) (so_Name x)" and "sel_by db_Name (so_Name x) (w_dbs w) = None"
  shows "\<exists>s' b job. SourceHandler_Handle E r s = (None, s') \<and> so_State (sh_heap s' r) = SourceStateProcessing \<and>
    mg_Instances (mv_manager (sh_manager s')) inst = Some b \<and> in_jobs b = in_jobs a @ [job] \<and>
    dj_Job job = DbJob_CreateDatabase (source_job x password) \<and>
    (\<exists>n i rows w1 st. GrpcAgentHandler_handle uuid_parse A job w = (Ok (Some (n, i, rows)), w1) \<and>
      st = drive (length rows) A (start_job A (n, i, rows) w1) \<and> js_jobs st = Map.empty \<and> js_ready st = [] \<and>
      stage_of (js_world st) (w_next_id w) = Some (DbStage_ReadyToUse, DbStatus_Done))"
proof -
  obtain s' b job where h: "SourceHandler_Handle E r s = (None, s')" "so_State (sh_heap s' r) = SourceStateProcessing"
      "mv_manager (sh_manager s') = set_instance b (mv_manager (sh_manager s))" "same_inst a b" "in_jobs b = in_jobs a @ [job]"
      "dj_Job job = DbJob_CreateDatabase (source_job x password)"
    by (rule declared_source_handled[OF assms(1-12)])
  have "mg_Instances (mv_manager (sh_manager s')) inst = Some b"
    using h(3,4) view_name[OF assms(3,10)] by (simp add: set_instance_def same_inst_def)
  then show ?thesis using h source_job_reaches_ready[OF assms(13-18) h(6), of uuid_parse] by blast
qed

theorem declared_source_becomes_ready_database_witness:
  "\<exists>s' job n i rows w1 st. SourceHandler_Handle manager_env 0 (source_on ''pg-16'') = (None, s') \<and>
     GrpcAgentHandler_handle (\<lambda>_. None) sample_env job empty_world = (Ok (Some (n, i, rows)), w1) \<and>
     st = drive (length rows) sample_env (start_job sample_env (n, i, rows) w1) \<and>
     stage_of (js_world st) 1 = Some (DbStage_ReadyToUse, DbStatus_Done)"
proof -
  let ?x = "sh_heap (source_on ''pg-16'') 0"
  obtain a where a: "mg_Instances (mv_manager (sh_manager (source_on ''pg-16''))) ''pg-16'' = Some a" "in_Online a"
      "in_Databases a (so_Name ?x) = None"
    by (simp add: sample_view_def sample_manager_instances)
  have e: "se_GetDbStatus manager_env = view_GetDbStatus" "se_CreateDb manager_env = view_CreateDb"
    by (simp_all add: manager_env_def)
  have p: "PasswordContent (se_read_trimmed manager_env) (so_Request ?x) = Inr ''secret12''" by (simp add: PasswordContent_def)
  have n: "\<not> IsReservedName (env_cfg sample_env) (so_Name ?x)" by (simp add: IsReservedName_def sample_cfg_def)
  have m: "view_ok (sh_manager (source_on ''pg-16''))" by (simp add: sample_view_ok)
  have i: "so_InstanceName ?x = ''pg-16''" "''pg-16'' \<noteq> []" "so_ExpectState ?x = SourceStateReady"
    "rq_MigrateFrom (so_Request ?x) = []" by simp_all
  have w: "healthy sample_env" "cfg_tmpl (env_cfg sample_env) \<noteq> None" "fresh_uuids sample_env empty_world 10"
    "wf_world empty_world" "sel_by db_Name (so_Name ?x) (w_dbs empty_world) = None"
    by (simp_all add: sample_fresh)
  from declared_source_becomes_ready_database[OF e m refl i p a w(1-4) n w(5), of "\<lambda>_. None"] show ?thesis
    by (elim exE conjE) (simp, blast)
qed

section \<open>From the agent's report to the source\<close>

lemma run_status_call:
  assumes "mg_Instances m inst = Some a" and "in_Databases a name = Some db" and "IsSynced (Some db)"
    and "distinct (List.map_filter sub_waiter (mg_subs m))" and "count_list (mg_subs m) SourceOnDbStatus = 1"
  shows "mg_to_source (run_spawned jobId (GoDbStatus inst name) m) = mg_to_source m @
    [(Database_StatusResponse db)\<lparr>ds_InstanceName := in_Name a, ds_Version := in_PgVersion a\<rparr>]"
proof -
  have "mg_subs m \<noteq> []" using assms(5) by auto
  then have "run_spawned jobId (GoDbStatus inst name) m = notifyStatusChanged
      ((Database_StatusResponse db)\<lparr>ds_InstanceName := in_Name a, ds_Version := in_PgVersion a\<rparr>) m"
    using assms(1-3) by (simp add: OnStatusChanged_def)
  then show ?thesis using scan_keep_notify[OF assms(4)] assms(5) by (simp add: notifyStatusChanged_def scan_del_eq)
qed

text \<open>
  From the agent's report to the source: when an agent reports a database of its instance as ready
  and done, and the record the server has is from another message and shows another stage or status,
  the report is accepted, the source handler is called with it, and the registered source of that
  instance that expects to be ready becomes ready with its retries reset.
\<close>

theorem agent_report_reaches_source:
  assumes "mgr_reach (m, ss)" and "info = Some i" and "ValidateScope i ''agent''" and "ValidateResource i (''dbInstance:'' @ pd_InstanceName db)"
    and "mg_Instances m (pd_InstanceName db) = Some a"
    and "pd_Stage db = DbStage_ReadyToUse" and "pd_Status db = DbStatus_Done"
    and "ptr_of (pd_UpdatedAt db) \<noteq> ptr_of (pd_UpdatedAt (known_db a (pd_Name db)))"
    and "(pd_Stage (known_db a (pd_Name db)), pd_Status (known_db a (pd_Name db))) \<noteq> (DbStage_ReadyToUse, DbStatus_Done)"
    and "distinct (List.map_filter sub_waiter (mg_subs m))" and "count_list (mg_subs m) SourceOnDbStatus = 1"
    and "sh_Databases s (pd_Name db) = Some r" and "so_InstanceName (sh_heap s r) = pd_InstanceName db"
    and "so_ExpectState (sh_heap s r) = SourceStateReady" and "so_State (sh_heap s r) \<noteq> SourceStateReady"
  shows "\<exists>m' d. NotifyDbStatus info db m = (Inr (), m') \<and>
    mg_spawned m' = mg_spawned m @ [GoDbStatus (pd_InstanceName db) (pd_Name db)] \<and>
    mg_to_source (run_spawned jobId (GoDbStatus (pd_InstanceName db) (pd_Name db)) m') = mg_to_source m @ [d] \<and>
    (let x = sh_heap (snd (OnDbStatusChanged E d s)) r
     in so_State x = SourceStateReady \<and> so_RetryTimes x = 0 \<and> so_RetryDelay x = 0 \<and> so_UpdatedAt x = AsTime (pd_UpdatedAt db))"
proof -
  have nm: "in_Name a = pd_InstanceName db" using mgr_wfD[of m] mgr_reach_wf[OF assms(1)] assms(5) by simp
  obtain changed a1 where u: "UpdateDatabase db a = (changed, a1)" by fastforce
  obtain d0 where d0: "in_Databases a (pd_Name db) = Some d0 \<or> in_Databases a (pd_Name db) = None \<and> d0 = NewDatabase"
    and ch: "changed = fst (Database_Update d0 db)"
    and dbs: "in_Databases a1 = (in_Databases a)(pd_Name db \<mapsto> snd (Database_Update d0 db))" and same: "same_inst a a1"
    using u by (rule UpdateDatabase_eq)
  have known: "d0 = known_db a (pd_Name db)" using d0 by (auto simp: known_db_def)
  have up: "Database_Update d0 db = (True, db)"
    using assms(6-9) by (auto simp: Database_Update_def known)
  define m' where "m' = (set_instance a1 m)\<lparr>mg_spawned := mg_spawned m @ [GoDbStatus (pd_InstanceName db) (pd_Name db)]\<rparr>"
  have notified: "NotifyDbStatus info db m = (Inr (), m')"
    using assms(2-5) u ch up nm by (simp add: NotifyDbStatus_def LoadAuthInfo_def GetInstance_def m'_def)
  define d where "d = (Database_StatusResponse db)\<lparr>ds_InstanceName := in_Name a1, ds_Version := in_PgVersion a1\<rparr>"
  have i': "mg_Instances m' (pd_InstanceName db) = Some a1"
    using same nm by (simp add: m'_def set_instance_def same_inst_def)
  have "mg_to_source (run_spawned jobId (GoDbStatus (pd_InstanceName db) (pd_Name db)) m') = mg_to_source m' @ [d]"
    unfolding d_def
    by (rule run_status_call[OF i']) (use assms(6,7,10,11) up dbs in \<open>simp_all add: m'_def set_instance_def IsSynced_def\<close>)
  moreover have "mg_to_source m' = mg_to_source m" by (simp add: m'_def set_instance_def)
  moreover have fields: "ds_InstanceName d = pd_InstanceName db" "ds_Stage d = ''ReadyToUse''" "ds_Name d = pd_Name db"
    "ds_UpdatedAt d = AsTime (pd_UpdatedAt db)"
    using assms(6) same nm by (simp_all add: d_def Database_StatusResponse_def same_inst_def)
  then have "UpdateState d (sh_heap s r) = (True, ResetRetryDelay ((sh_heap s r)
      \<lparr>so_State := SourceStateReady, so_UpdatedAt := AsTime (pd_UpdatedAt db)\<rparr>))"
    using assms(13-15) by (simp add: UpdateState_def)
  then have "sh_heap (snd (OnDbStatusChanged E d s)) r = ResetRetryDelay ((sh_heap s r)
      \<lparr>so_State := SourceStateReady, so_UpdatedAt := AsTime (pd_UpdatedAt db)\<rparr>)"
    using assms(12) fields by (simp add: OnDbStatusChanged_def updateDbStatus_def Let_def ResetRetryDelay_def put_source_def)
  ultimately show ?thesis using notified
    by (intro exI[of _ m'] exI[of _ d]) (simp add: ResetRetryDelay_def, simp add: m'_def)
qed

lemma Register_begin_subs:
  assumes "Register_begin order info r m = (res, m')"
  shows "mg_subs m' = mg_subs m"
proof (cases res)
  case (Inl e)
  then show ?thesis using Register_begin_refused assms by blast
next
  case (Inr name)
  with assms obtain a m1 names a1 where n: "NewInstance (ri_Name r) (ri_PgVersion r) m = (Inr a, m1)"
    and m': "m' = inst_OnStatusChanged order (a1\<lparr>in_Online := True\<rparr>)
      ((set_instance (a1\<lparr>in_Online := True\<rparr>) m1)\<lparr>mg_spawned := mg_spawned m1 @ map (GoDbStatus (in_Name a)) names\<rparr>)"
    by (auto elim: Register_begin_ok)
  have "mg_subs m1 = mg_subs m"
    using n by (auto simp: NewInstance_def set_instance_def Let_def split: option.splits if_splits)
  then show ?thesis by (simp add: m' inst_OnStatusChanged_eq set_instance_def)
qed

lemma sample_registration_subs: "mg_subs (snd (sample_registration name v dbs m)) = mg_subs m"
  unfolding sample_registration_def using Register_begin_subs by (metis prod.collapse)

lemma sample_manager_subs: "mg_subs sample_manager = [SourceOnDbStatus]"
  by (simp add: sample_manager_def sample_registration_subs SubscribeInstanceStatus_def SubscribeDbStatus_def
      NewDbInstanceManager_def)

theorem agent_report_reaches_source_witness:
  "\<exists>m'. NotifyDbStatus (Some (agent_info ''pg-16'')) (reported_db ''pg-16'' ''app'' DbStage_ReadyToUse DbStatus_Done 7) sample_manager
     = (Inr (), m') \<and> mg_spawned m' = mg_spawned sample_manager @ [GoDbStatus ''pg-16'' ''app'']"
proof -
  let ?db = "reported_db ''pg-16'' ''app'' DbStage_ReadyToUse DbStatus_Done 7"
  let ?src = "(source_on ''pg-16'')\<lparr>sh_Databases := [''app'' \<mapsto> 0]\<rparr>"
  have f: "pd_InstanceName ?db = ''pg-16''" "pd_Name ?db = ''app''" "pd_Stage ?db = DbStage_ReadyToUse" "pd_Status ?db = DbStatus_Done"
    "pd_UpdatedAt ?db = Some (7, 5)" by (simp_all add: reported_db_def)
  obtain a where a: "mg_Instances sample_manager (pd_InstanceName ?db) = Some a" "in_Databases a (pd_Name ?db) = None"
    by (simp add: f sample_manager_instances)
  have k: "known_db a (pd_Name ?db) = NewDatabase" using a by (simp add: known_db_def)
  have p: "ptr_of (pd_UpdatedAt ?db) \<noteq> ptr_of (pd_UpdatedAt (known_db a (pd_Name ?db)))"
    unfolding k by (simp add: f NewDatabase_def zero_proto_def)
  have o: "(pd_Stage (known_db a (pd_Name ?db)), pd_Status (known_db a (pd_Name ?db))) \<noteq> (DbStage_ReadyToUse, DbStatus_Done)"
    unfolding k by (simp add: NewDatabase_def zero_proto_def)
  have sub: "distinct (List.map_filter sub_waiter (mg_subs sample_manager))" "count_list (mg_subs sample_manager) SourceOnDbStatus = 1"
    by (simp_all add: sample_manager_subs map_filter_simps)
  have i: "ValidateScope (agent_info ''pg-16'') ''agent''"
    "ValidateResource (agent_info ''pg-16'') (''dbInstance:'' @ pd_InstanceName ?db)" by (simp_all add: f)
  have s: "sh_Databases ?src (pd_Name ?db) = Some 0" "so_InstanceName (sh_heap ?src 0) = pd_InstanceName ?db"
    "so_ExpectState (sh_heap ?src 0) = SourceStateReady" "so_State (sh_heap ?src 0) \<noteq> SourceStateReady"
    by (simp_all add: f source_on_def NewSourceHandler_def sample_source_def sample_request_def)
  from agent_report_reaches_source[OF sample_manager_reach refl i a(1) f(3,4) p o sub s, of undefined manager_env] show ?thesis
    unfolding f(1,2) by blast
qed

end
