(* ===== verification/File_Sources.thy ===== *)
theory File_Sources
  imports Source_Safety
begin

text \<open>
  Files as sources over time (\<open>internal/source/file_handler.go\<close>): which sources the handler has after it
  loaded the files it is configured with, and what becomes of a source whose file is renamed inside,
  or removed and written again.
\<close>

section \<open>Loading\<close>

text \<open>The sources the handler knows were allocated before.\<close>

definition refs_old :: "'m file_source \<Rightarrow> bool" where
  "refs_old f \<longleftrightarrow> (\<forall>n r. sh_Databases (fh_handler f) n = Some r \<longrightarrow> r < fh_next f)"

text \<open>A source of the name of the request with its configuration is registered.\<close>

definition declares :: "'m file_source \<Rightarrow> DatabaseRequest \<Rightarrow> bool" where
  "declares f q \<longleftrightarrow> (case sh_Databases (fh_handler f) (rq_Name q) of
     None \<Rightarrow> False | Some r \<Rightarrow> \<not> IsConfigChanged (so_Request (sh_heap (fh_handler f) r)) q)"

lemma IsConfigChanged_same: "\<not> IsConfigChanged q q"
  by (simp add: IsConfigChanged_def)

lemma load_file_declares:
  assumes "loadDatabaseSourceFromFile E F path f = (None, g)" and "has_suffix path ''.yaml''" and "refs_old f"
  obtains q where "LoadYaml F path = Inr q" and "declares g q" and "refs_old g"
    and "fh_sourceMap g = (fh_sourceMap f)(path \<mapsto> rq_Name q)"
    and "\<And>q'. rq_Name q' \<noteq> rq_Name q \<Longrightarrow> declares f q' \<Longrightarrow> declares g q'"
proof -
  obtain q where q: "LoadYaml F path = Inr q"
    using assms(1,2) by (auto simp: loadDatabaseSourceFromFile_def split: sum.splits)
  let ?r = "fh_next f" and ?h = "put_source (fh_next f) (new_file_source q) (fh_handler f)"
  obtain h where h: "AddDatabaseSource E ?r ?h = (None, h)"
    and g: "g = f\<lparr>fh_sourceMap := (fh_sourceMap f)(path \<mapsto> rq_Name q), fh_next := Suc ?r, fh_handler := h\<rparr>"
    using assms(1,2) q by (auto simp: loadDatabaseSourceFromFile_def Let_def split: prod.splits)
  have heap: "so_Request (sh_heap h x) = so_Request (sh_heap ?h x)" for x
    using h by (auto simp: AddDatabaseSource_def Let_def put_source_def spawn_def split: option.splits if_splits)
  have dbs: "sh_Databases h = (sh_Databases (fh_handler f))(rq_Name q \<mapsto> ?r) \<or> sh_Databases h = sh_Databases (fh_handler f) \<and> declares f q"
    using h assms(3) by (auto simp: AddDatabaseSource_def Let_def put_source_def spawn_def declares_def refs_old_def new_file_source_def
        split: option.splits if_splits)
  have old: "so_Request (sh_heap h x) = so_Request (sh_heap (fh_handler f) x)" if "sh_Databases (fh_handler f) n = Some x" for n x
    using that assms(3) heap[of x] by (auto simp: refs_old_def put_source_def)
  have "declares g q"
    using dbs heap[of ?r] old by (auto simp: declares_def g put_source_def new_file_source_def IsConfigChanged_same split: option.splits)
  moreover have "refs_old g" using dbs assms(3) by (auto simp: refs_old_def g less_SucI split: if_splits)
  moreover have "declares g q'" if "rq_Name q' \<noteq> rq_Name q" "declares f q'" for q'
    using that dbs old by (auto simp: declares_def g split: option.splits)
  ultimately show ?thesis using that[OF q] g by simp
qed

text \<open>The database a file names, or why it can not be read.\<close>

definition file_database :: "file_system \<Rightarrow> string \<Rightarrow> go_error + string" where
  "file_database F path = map_sum (\<lambda>e. e) rq_Name (LoadYaml F path)"

lemma PostInit_declares:
  assumes "FileSource_PostInit E F True paths f = (None, g)" and "list_all (\<lambda>p. has_suffix p ''.yaml'' \<and> fs_stat F p = Inr False) paths"
    and "refs_old f" and "distinct (map (file_database F) paths)"
  shows "list_all (\<lambda>p. \<exists>q. LoadYaml F p = Inr q \<and> declares g q \<and> fh_sourceMap g p = Some (rq_Name q)) paths \<and>
    {q. declares f q \<and> Inr (rq_Name q) \<notin> file_database F ` set paths} \<subseteq> {q. declares g q} \<and>
    (\<forall>p. p \<notin> set paths \<longrightarrow> fh_sourceMap g p = fh_sourceMap f p)"
  using assms
proof (induction paths arbitrary: f)
  case (Cons path paths)
  obtain f1 where f1: "loadDatabaseSourceFromFile E F path f = (None, f1)" and rest: "FileSource_PostInit E F True paths f1 = (None, g)"
    using Cons.prems(1,2) by (auto simp: loadDatabaseSources_def split: prod.splits option.splits)
  from load_file_declares[OF f1 _ Cons.prems(3)] Cons.prems(2) obtain q where q: "LoadYaml F path = Inr q" "declares f1 q" "refs_old f1"
    "fh_sourceMap f1 = (fh_sourceMap f)(path \<mapsto> rq_Name q)"
    "\<And>q'. rq_Name q' \<noteq> rq_Name q \<Longrightarrow> declares f q' \<Longrightarrow> declares f1 q'" by auto
  have db: "file_database F path = Inr (rq_Name q)" by (simp add: file_database_def q(1))
  then have new: "Inr (rq_Name q) \<notin> file_database F ` set paths" "path \<notin> set paths"
    using Cons.prems(4) imageI[of path "set paths" "file_database F"] by auto
  note ih = Cons.IH[OF rest _ q(3)]
  then have "list_all (\<lambda>p. \<exists>q. LoadYaml F p = Inr q \<and> declares g q \<and> fh_sourceMap g p = Some (rq_Name q)) paths"
    and kept: "{q. declares f1 q \<and> Inr (rq_Name q) \<notin> file_database F ` set paths} \<subseteq> {q. declares g q}"
    and map: "\<forall>p. p \<notin> set paths \<longrightarrow> fh_sourceMap g p = fh_sourceMap f1 p"
    using Cons.prems(2,4) by simp_all
  moreover have "declares g q" using kept q(2) new(1) by blast
  moreover have "fh_sourceMap g path = Some (rq_Name q)" using map new(2) by (simp add: q(4))
  moreover have "{q. declares f q \<and> Inr (rq_Name q) \<notin> file_database F ` set (path # paths)} \<subseteq> {q. declares g q}"
    using kept q(5) by (auto simp: db)
  ultimately show ?case by (simp add: q(1,4))
qed simp

text \<open>
  After the start every configured file has its source: when \<open>PostInit\<close> loads the files without an
  error and they name different databases, each file was decoded, the path is known with the name of
  its database, and a source of that name is registered with the file's configuration. Sources of other
  names that were registered before stay.
\<close>

theorem started_files_are_declared:
  assumes "FileSource_PostInit E F True paths f = (None, g)" and "refs_old f"
    and "list_all (\<lambda>p. has_suffix p ''.yaml'' \<and> fs_stat F p = Inr False) paths" and "distinct (map (file_database F) paths)"
  shows "set paths \<subseteq> {p. \<exists>q. LoadYaml F p = Inr q \<and> declares g q \<and> fh_sourceMap g p = Some (rq_Name q)} \<and>
    {q. declares f q \<and> Inr (rq_Name q) \<notin> file_database F ` set paths} \<subseteq> {q. declares g q}"
  using PostInit_declares[OF assms(1,3,2,4)] by (auto simp: list_all_iff)

definition app_and_web :: file_system where
  "app_and_web = \<lparr>fs_stat = \<lambda>_. Inr False, fs_dir = \<lambda>_. Inr [], fs_ReadFile = Inr,
     fs_Unmarshal = \<lambda>path. Inr (sample_request\<lparr>rq_Name := takeWhile (\<lambda>c. c \<noteq> CHR ''.'') path\<rparr>)\<rparr>"

theorem started_files_are_declared_witness:
  "\<exists>g. fh_sourceMap g ''app.yaml'' = Some ''app'' \<and> fh_sourceMap g ''web.yaml'' = Some ''web'' \<and>
     FileSource_PostInit refusing_env app_and_web True [''app.yaml'', ''web.yaml'']
       (NewFileSourceHandler 0 (NewSourceHandler (\<lambda>_. sample_source) ())) = (None, g)"
proof -
  let ?f = "NewFileSourceHandler 0 (NewSourceHandler (\<lambda>_. sample_source) ())" and ?paths = "[''app.yaml'', ''web.yaml'']"
  have suffix: "has_suffix ''app.yaml'' ''.yaml''" "has_suffix ''web.yaml'' ''.yaml''" by (simp_all add: str_defs)
  have load: "LoadYaml app_and_web ''app.yaml'' = Inr (sample_request\<lparr>rq_Name := ''app''\<rparr>)"
    "LoadYaml app_and_web ''web.yaml'' = Inr (sample_request\<lparr>rq_Name := ''web''\<rparr>)"
    by (simp_all add: LoadYaml_def app_and_web_def)
  have valid: "se_validate refusing_env x = None" for x by (simp add: refusing_env_def)
  have is_file: "fs_stat app_and_web p = Inr False" for p by (simp add: app_and_web_def)
  have "fst (loadDatabaseSourceFromFile refusing_env app_and_web p f) = None" if "p \<in> set ?paths" for p and f :: "unit file_source"
    using that by (auto simp: loadDatabaseSourceFromFile_def suffix load AddDatabaseSource_def valid Let_def split: prod.splits)
  then have "\<exists>f'. loadDatabaseSourceFromFile refusing_env app_and_web p f = (None, f')" if "p \<in> set ?paths" for p and f :: "unit file_source"
    using that by (metis prod.collapse)
  from this[of "''app.yaml''" ?f] obtain f1 where f1: "loadDatabaseSourceFromFile refusing_env app_and_web ''app.yaml'' ?f = (None, f1)" by auto
  from \<open>\<And>p f. p \<in> set ?paths \<Longrightarrow> \<exists>f'. loadDatabaseSourceFromFile refusing_env app_and_web p f = (None, f')\<close>[of "''web.yaml''" f1]
  obtain f2 where "loadDatabaseSourceFromFile refusing_env app_and_web ''web.yaml'' f1 = (None, f2)" by auto
  with f1 have g: "FileSource_PostInit refusing_env app_and_web True ?paths ?f = (None, f2)"
    by (simp add: loadDatabaseSources_def is_file)
  have r: "refs_old ?f" by (simp add: refs_old_def NewFileSourceHandler_def NewSourceHandler_def)
  have l: "list_all (\<lambda>p. has_suffix p ''.yaml'' \<and> fs_stat app_and_web p = Inr False) ?paths" using suffix is_file by simp
  have d: "distinct (map (file_database app_and_web) ?paths)" by (simp add: file_database_def load)
  from started_files_are_declared[OF g r l d] load g show ?thesis by auto
qed

section \<open>A file removed and written again\<close>

text \<open>
  A file that is deleted and written again is still dropped: after the removal of the file of a
  source and its creation with the same instance, migration and backup, the registered source still
  expects to be idle, nothing was queued, and when the timer set by the removal fires the source is
  queued to be made idle.
\<close>

theorem restored_file_is_still_dropped:
  assumes "fh_sourceMap f path = Some name" and "sh_Databases (fh_handler f) name = Some r"
    and "so_Name (sh_heap (fh_handler f) r) = name" and "r \<noteq> fh_next f"
    and "so_ExpectState (sh_heap (fh_handler f) r) \<noteq> SourceStateIdle"
    and "has_suffix path ''.yaml''" and "LoadYaml F path = Inr q" and "rq_Name q = name"
    and "\<not> IsConfigChanged (so_Request (sh_heap (fh_handler f) r)) q"
    and "se_validate E (new_file_source q) = None"
    and "g = FileSource_Handle E F 1 path (FileSource_Handle E F 4 path f)"
  shows "sh_Databases (fh_handler g) name = Some r \<and> fh_sourceMap g path = Some name \<and>
     so_ExpectState (sh_heap (fh_handler g) r) = SourceStateIdle \<and>
     sh_spawned (fh_handler g) = sh_spawned (fh_handler f) \<and>
     (so_NextScheduleAt (sh_heap (fh_handler g) r), CronIdle name) \<in> set (sh_cron (fh_handler g)) \<and>
     cron_fire (CronIdle name) (so_NextScheduleAt (sh_heap (fh_handler g) r)) (fh_handler g)
       = spawn (GoSend r) (fh_handler g)"
  unfolding assms(11)
  using assms(1-10)
  by (simp add: FileSource_Handle_def removeDatabaseSource_def loadDatabaseSourceFromFile_def
      MarkDatabaseSourceIdle_def AddDatabaseSource_def read_clock_def put_source_def idleDatabaseSource_def
      new_file_source_def Let_def)

definition sample_fs :: file_system where
  "sample_fs = \<lparr>fs_stat = \<lambda>_. Inr False, fs_dir = \<lambda>_. Inr [], fs_ReadFile = Inr, fs_Unmarshal = \<lambda>_. Inr sample_request\<rparr>"

definition sample_files :: "unit file_source" where
  "sample_files = \<lparr>fh_sourceMap = [''app.yaml'' \<mapsto> ''app''], fh_next = 1, fh_handler = sample_sources\<rparr>"

theorem restored_file_is_still_dropped_witness:
  "so_ExpectState (sh_heap (fh_handler (FileSource_Handle refusing_env sample_fs 1 ''app.yaml''
     (FileSource_Handle refusing_env sample_fs 4 ''app.yaml'' sample_files))) 0) = SourceStateIdle"
proof -
  have "fh_sourceMap sample_files ''app.yaml'' = Some ''app''" by (simp add: sample_files_def)
  moreover have "sh_Databases (fh_handler sample_files) ''app'' = Some 0" "so_Name (sh_heap (fh_handler sample_files) 0) = ''app''"
    "0 \<noteq> fh_next sample_files" "so_ExpectState (sh_heap (fh_handler sample_files) 0) \<noteq> SourceStateIdle"
    by (simp_all add: sample_files_def sample_source_defs)
  moreover have "has_suffix ''app.yaml'' ''.yaml''" "LoadYaml sample_fs ''app.yaml'' = Inr sample_request"
    "rq_Name sample_request = ''app''" "se_validate refusing_env (new_file_source sample_request) = None"
    "\<not> IsConfigChanged (so_Request (sh_heap (fh_handler sample_files) 0)) sample_request"
    by (simp_all add: str_defs sample_fs_def LoadYaml_def IsConfigChanged_def sample_files_def sample_source_defs)
  ultimately show ?thesis using restored_file_is_still_dropped by blast
qed

section \<open>A file with another name\<close>

text \<open>
  A file that names another database from now on leaves the source of the old name behind: it stays
  registered, as it was, no timer is set, and no path is known for it any more, so that the removal
  of the file does not reach it either.
\<close>

theorem renamed_source_is_left_behind:
  assumes "{p. fh_sourceMap f p = Some old} = {path}" and "sh_Databases (fh_handler f) old = Some r" and "refs_old f"
    and "has_suffix path ''.yaml''" and "LoadYaml F path = Inr q" and "rq_Name q \<noteq> old"
    and "g = FileSource_Handle E F 2 path f"
  shows "sh_Databases (fh_handler g) old = Some r \<and> sh_heap (fh_handler g) r = sh_heap (fh_handler f) r \<and>
    sh_cron (fh_handler g) = sh_cron (fh_handler f) \<and> {p. fh_sourceMap g p = Some old} = {}"
proof -
  let ?h = "put_source (fh_next f) (new_file_source q) (fh_handler f)"
  obtain err h where h: "AddDatabaseSource E (fh_next f) ?h = (err, h)" by fastforce
  have g: "g = f\<lparr>fh_sourceMap := (fh_sourceMap f)(path \<mapsto> rq_Name q), fh_next := Suc (fh_next f), fh_handler := h\<rparr>"
    using h assms(4,5,7) by (simp add: FileSource_Handle_def loadDatabaseSourceFromFile_def Let_def)
  have "r \<noteq> fh_next f" using assms(2,3) by (auto simp: refs_old_def)
  then have "sh_Databases h old = sh_Databases (fh_handler f) old" "sh_cron h = sh_cron (fh_handler f)"
    "sh_heap h r = sh_heap (fh_handler f) r"
    using h assms(6) by (auto simp: AddDatabaseSource_def Let_def put_source_def spawn_def new_file_source_def
        split: option.splits if_splits)
  moreover have "{p. fh_sourceMap g p = Some old} = {}" using assms(1,6) by (auto simp: g split: if_splits)
  ultimately show ?thesis using assms(2) by (simp add: g)
qed

theorem renamed_source_is_left_behind_witness:
  "so_ExpectState (sh_heap (fh_handler (FileSource_Handle refusing_env (sample_fs\<lparr>fs_Unmarshal := \<lambda>_. Inr (sample_request\<lparr>rq_Name := ''web''\<rparr>)\<rparr>)
     2 ''app.yaml'' sample_files)) 0) = SourceStateReady"
proof -
  let ?F = "sample_fs\<lparr>fs_Unmarshal := \<lambda>_. Inr (sample_request\<lparr>rq_Name := ''web''\<rparr>)\<rparr>"
  have "{p. fh_sourceMap sample_files p = Some ''app''} = {''app.yaml''}" "sh_Databases (fh_handler sample_files) ''app'' = Some 0"
    "refs_old sample_files" "has_suffix ''app.yaml'' ''.yaml''" "LoadYaml ?F ''app.yaml'' = Inr (sample_request\<lparr>rq_Name := ''web''\<rparr>)"
    "rq_Name (sample_request\<lparr>rq_Name := ''web''\<rparr>) \<noteq> ''app''"
    by (simp_all add: refs_old_def sample_files_def sample_source_defs LoadYaml_def sample_fs_def str_defs)
  from renamed_source_is_left_behind[OF this refl] show ?thesis by (simp add: sample_files_def sample_source_defs)
qed

end
