(* ===== verification/Reports.thy ===== *)
theory Reports
  imports Job_Run
begin

text \<open>
  What the agent tells the server of its databases. Every update of a record is followed by a report
  to the notifier (\<open>UpdateDbStatus\<close>, \<open>internal/db/db_api.go\<close>), so the last report about a name is the
  record as it is, whatever fails; the one exception is a migration request whose commit fails after it
  has reported. The invariant is an instance of the locale \<open>world_invariant\<close>; it then holds along a
  job, so a database that a job made ready has been reported ready.
\<close>

section \<open>The last reports\<close>

text \<open>The last report about a database name.\<close>

definition last_report :: "time proto_database list \<Rightarrow> string \<Rightarrow> time proto_database option" where
  "last_report ms n = find (\<lambda>p. pd_Name p = n) (rev ms)"

lemma last_report_snoc [simp]: "last_report (ms @ [p]) n = (if pd_Name p = n then Some p else last_report ms n)"
  by (simp add: last_report_def)

text \<open>A record past its creation was last reported as it is.\<close>

definition reported :: "agent_env \<Rightarrow> agent_world \<Rightarrow> bool" where
  "reported E w \<longleftrightarrow> (\<forall>r\<in>set (w_dbs w). db_Stage r = DbStage_None \<or> last_report (w_notified w) (db_Name r) = Some (proto_of E r))"

lemma reported_report:
  assumes "wf_world w" and "reported E w" and "d \<in> set (w_dbs w)"
  shows "reported E (w\<lparr>w_notified := w_notified w @ [proto_of E d]\<rparr>)"
proof -
  have "r = d" if "r \<in> set (w_dbs w)" "db_Name r = db_Name d" for r
    using assms(1,3) that by (auto simp: wf_world_def wf_tables_def distinct_map dest: inj_onD)
  with assms(2) show ?thesis by (auto simp: reported_def)
qed

lemma reported_put_db:
  assumes "wf_world w" and "reported E w" and "known (w_dbs w) d" and "db_current w d"
  shows "reported E (w\<lparr>w_dbs := put_db d now (w_dbs w), w_notified := w_notified w @ [proto_of E (d\<lparr>db_UpdatedAt := now\<rparr>)]\<rparr>)"
proof -
  obtain d0 where d0: "d0 \<in> set (w_dbs w)" "same_db d0 d" using assms(3) by (auto simp: known_def)
  have ids: "r = d0" if "r \<in> set (w_dbs w)" "db_Name r = db_Name d \<or> db_ID r = db_ID d" for r
    using assms(1) d0 that by (auto simp: wf_world_def wf_tables_def distinct_map same_db_def dest: inj_onD)
  have wr: "write_db d now d0 = d\<lparr>db_UpdatedAt := now\<rparr>"
    using d0(2) by (cases d; cases d0) (simp add: write_db_def same_db_def)
  have cur: "db_UpdatedAt d0 = db_UpdatedAt d"
    using assms(4) ids by (auto simp: db_current_def find_None_iff)
  have new: "r = d\<lparr>db_UpdatedAt := now\<rparr> \<or> r \<in> set (w_dbs w) \<and> db_Name r \<noteq> db_Name d" if r: "r \<in> set (put_db d now (w_dbs w))" for r
  proof -
    define P where "P r = (db_ID (r :: db_row) = db_ID d \<and> db_UpdatedAt r = db_UpdatedAt d)" for r
    obtain r0 where r0: "r0 \<in> set (w_dbs w)" "r = (if P r0 then write_db d now r0 else r0)"
      using r by (auto simp: put_db_def upd_where_def P_def)
    have "r0 = d0" if "P r0 \<or> db_Name r0 = db_Name d" using ids[OF r0(1)] that by (auto simp: P_def)
    moreover have "P d0" using cur d0(2) by (simp add: P_def same_db_def)
    ultimately show ?thesis using r0 wr by auto
  qed
  show ?thesis using assms(2) by (auto simp: reported_def dest!: new)
qed

lemma reported_add_db:
  "reported E w \<Longrightarrow> db_Stage d = DbStage_None \<Longrightarrow> reported E (w\<lparr>w_next_id := i, w_dbs := w_dbs w @ [d]\<rparr>)"
  by (simp add: reported_def)

lemma reported_same:
  "reported E w \<Longrightarrow> w_dbs w' = w_dbs w \<Longrightarrow> w_notified w' = w_notified w \<Longrightarrow> reported E w'"
  by (simp add: reported_def)

interpretation reports: request_invariant "\<lambda>w. wf_world w \<and> reported E w" E known for E
proof
  show "wf_world w' \<and> reported E w'" if "same_tables w w'" "wf_world w \<and> reported E w" for w w'
    using that tables.inv_same[of w w'] reported_same[of E w w'] by (simp add: same_tables_def)
  show "wf_world (w\<lparr>w_tasks := put_task t now (w_tasks w)\<rparr>) \<and> reported E (w\<lparr>w_tasks := put_task t now (w_tasks w)\<rparr>)"
    if "wf_world w \<and> reported E w" for w t now
    using that tables.inv_put_task[of w t now] reported_same[of E w "w\<lparr>w_tasks := put_task t now (w_tasks w)\<rparr>"] by simp
  show "wf_world (w\<lparr>w_tasks := w_tasks w @ [r]\<rparr>) \<and> reported E (w\<lparr>w_tasks := w_tasks w @ [r]\<rparr>)"
    if "wf_world w \<and> reported E w" "tk_ID r \<notin> tk_ID ` set (w_tasks w)" "td_Password (tk_Data r) = []" for w r
    using that tables.inv_add_task[of w r] reported_same[of E w "w\<lparr>w_tasks := w_tasks w @ [r]\<rparr>"] by simp
  show "wf_world (w\<lparr>w_next_id := w_next_id w + 1\<rparr>) \<and> reported E (w\<lparr>w_next_id := w_next_id w + 1\<rparr>)"
    if "wf_world w \<and> reported E w" for w
    using that tables.inv_next_id[of w] reported_same[of E w "w\<lparr>w_next_id := w_next_id w + 1\<rparr>"] by simp
qed (auto simp: reported_report reported_put_db reported_add_db tables.inv_add_db tables.inv_report tables.inv_put_db
    known_row known_put_db intro: known_same same_job_db)

section \<open>Requests\<close>

lemma create_process_silent: "w_notified (snd (snd (create_process E r w))) = w_notified w"
  by (rule silent.inv_create_process) simp

lemma reported_create:
  assumes "wf_world w" and "reported E w"
  shows "reported E (snd (api_QueryWithRollback E (create_process E r) w))"
proof -
  define w2 where "w2 = w\<lparr>w_calls := Suc (Suc (w_calls w))\<rparr>"
  obtain c x w3 where f: "create_process E r w2 = (c, x, w3)" by (cases "create_process E r w2")
  have "wf_world w2 \<and> reported E w2" using assms reports.inv_call by (simp add: w2_def)
  then have "reported E w3" "reported E w2" using reports.inv_create_process[of w2 E E r] f by simp_all
  moreover have "w_notified w3 = w_notified w2" using create_process_silent[of E r w2] f by simp
  ultimately show ?thesis using assms(2) f reported_same
    by (auto simp: api_QueryWithRollback_def ext_def w2_def split: option.splits intro: reported_same[of E w])
qed

text \<open>A migration request changes a record only on the path that sends the job.\<close>

lemma migrate_changes:
  assumes "migrate_process E r w = (c, x, w')" and "\<And>y. x \<noteq> Ok (Some y)"
  shows "\<not> c \<and> w_dbs w' = w_dbs w"
proof -
  obtain y w1 where g: "GetDbByName E False (mj_Name (mr_Job r)) w = (y, w1)" by fastforce
  have "w_dbs w1 = w_dbs w" 
    using g by (auto simp: GetDbByName_def q_GetDbByName_def query1_def ext_def one_row_def split: option.splits)
  then show ?thesis using assms g
    by (auto simp: migrate_process_def Let_def NotifyDbStatusChanged_eq split: sum.splits option.splits if_splits prod.splits)
qed

lemma reported_migrate:
  assumes "wf_world w" and "reported E w" and "api_QueryWithRollback E (migrate_process E r) w = (res, w')"
  shows "reported E w' \<or> (\<exists>x. res = Ok (Some x)) \<and> w_dbs w' = w_dbs w"
proof -
  define w2 where "w2 = w\<lparr>w_calls := Suc (Suc (w_calls w))\<rparr>"
  obtain c x w3 where f: "migrate_process E r w2 = (c, x, w3)" by (cases "migrate_process E r w2")
  have "wf_world w2 \<and> reported E w2" using assms reports.inv_call by (simp add: w2_def)
  then have r3: "reported E w3" using reports.inv_migrate_process[of w2 E r] f by simp
  have "reported E (w3\<lparr>w_dbs := w_dbs w2, w_tasks := w_tasks w2\<rparr>)" if "\<And>y. x \<noteq> Ok (Some y)"
    using migrate_changes[OF f that] by (intro reported_same[OF r3]) simp_all
  with r3 show ?thesis using assms(2,3) f
    by (auto simp: api_QueryWithRollback_def ext_def w2_def split: option.splits if_splits intro: reported_same[of E w])
qed

text \<open>
  C10. The server's view of a record: the last report the agent made about a database is its record as
  it stands, and every task action, cancelled task and request keeps this, whatever fails on the way.
  The one exception is a migration request that sent its job while its transaction was rolled back.
\<close>

theorem last_reports_are_records:
  assumes "wf_world w" and "reported E w" and "GrpcAgentHandler_handle up E task w = (res, w')"
  shows "reported E (snd (handle E t w)) \<and> reported E (snd (Cancel E reason dt w)) \<and>
    (reported E w' \<or> (\<exists>j x. dj_Job task = DbJob_MigrateOutDatabase j \<and> res = Ok (Some x) \<and> w_dbs w' = w_dbs w))"
proof -
  have "reported E w' \<or> (\<exists>j x. dj_Job task = DbJob_MigrateOutDatabase j \<and> res = Ok (Some x) \<and> w_dbs w' = w_dbs w)"
    using reported_create[OF assms(1,2)] reported_migrate[OF assms(1,2)] assms(2,3)
    by (auto simp: GrpcAgentHandler_handle_def create_Process_def migrate_Process_def split: db_job_kind.splits option.splits)
      (metis snd_conv)
  then show ?thesis using reports.inv_handle[of w E t] reports.inv_Cancel[of w E reason dt] assms(1,2) by blast
qed

text \<open>The environment fails the commit: the seventh call of the request.\<close>

definition commit_fails_env :: agent_env where
  "commit_fails_env = sample_env\<lparr>env_fault := (\<lambda>n. if n = 6 then Some (ErrExt ''connection lost'') else None)\<rparr>"

definition reported_world :: agent_world where
  "reported_world = ready_world\<lparr>w_notified := [proto_of commit_fails_env (sample_db DbStage_ReadyToUse DbStatus_Done)]\<rparr>"

definition migrate_job :: db_job where
  "migrate_job = \<lparr>dj_JobId = [], dj_Job = DbJob_MigrateOutDatabase (mr_Job sample_migrate)\<rparr>"

lemma reported_world_ok: "wf_world reported_world" "reported commit_fails_env reported_world"
  by (simp_all add: reported_world_def reported_def last_report_def ready_world_def wf_world_def wf_tables_def)

text \<open>Then the record is ready while the last report says that it is idle and processing.\<close>

lemma failed_commit_misreports:
  "let w' = snd (GrpcAgentHandler_handle (\<lambda>_. None) commit_fails_env migrate_job reported_world)
   in map (\<lambda>d. (db_Stage d, db_Status d)) (w_dbs w') = [(DbStage_ReadyToUse, DbStatus_Done)] \<and>
      map_option (\<lambda>p. (pd_Stage p, pd_Status p)) (last_report (w_notified w') ''app'') = Some (DbStage_Idle, DbStatus_Processing)"
  by code_simp

theorem last_reports_are_records_witness:
  "reported commit_fails_env (snd (handle commit_fails_env (sample_action DbActionCreate) reported_world))"
  using last_reports_are_records[OF reported_world_ok surjective_pairing, where up = "\<lambda>_. None" and task = migrate_job and t = "sample_action DbActionCreate"]
  by (rule conjunct1)

text \<open>A database that a job made ready has been reported ready.\<close>

lemma ready_is_reported:
  assumes "wf_world w" and "reported E w" and "stage_of w i = Some (st, x)" and "st \<noteq> DbStage_None"
  shows "\<exists>r. sel_by db_ID i (w_dbs w) = Some r \<and> last_report (w_notified w) (db_Name r) = Some (proto_of E r) \<and>
    pd_Stage (proto_of E r) = st \<and> pd_Status (proto_of E r) = x"
  using assms by (auto simp: stage_of_def reported_def dest: sel_by_mem)

end
