(* ===== verification/Whole_Path.thy ===== *)
theory Whole_Path
  imports End_To_End File_Sources Reports
begin

text \<open>
  The whole way: a file appears, the source handler queues the database it declares, the manager hands
  the instance a job, the agent runs it to the end, and tells the server that the database is ready.
\<close>

section \<open>The file\<close>

lemma new_file_is_queued:
  assumes "has_suffix path ''.yaml''" and "LoadYaml F path = Inr q" and "se_validate E (new_file_source q) = None"
    and "sh_Databases (fh_handler f) (rq_Name q) = None" and "g = FileSource_Handle E F 1 path f" and "r = fh_next f"
  shows "sh_spawned (fh_handler g) = sh_spawned (fh_handler f) @ [GoSend r]"
    and "sh_heap (fh_handler g) r = (new_file_source q)\<lparr>so_ExpectState := SourceStateReady\<rparr>"
    and "sh_manager (fh_handler g) = sh_manager (fh_handler f)"
  using assms by (simp_all add: FileSource_Handle_def loadDatabaseSourceFromFile_def AddDatabaseSource_def put_source_def
      new_file_source_def spawn_def Let_def)

section \<open>The agent's report\<close>

text \<open>A record a job leaves past its creation was last reported as the job left it.\<close>

lemma created_is_reported:
  assumes "healthy E" and "fresh_uuids E w 10" and "wf_world w" and "reported E w"
    and "\<not> IsReservedName (env_cfg E) (cj_Name (cr_Job r))" and "sel_by db_Name (cj_Name (cr_Job r)) (w_dbs w) = None"
    and "create_Process E r w = (Ok (Some sj), w1)" and "st = drive k E (start_job E sj w1)"
    and "stage_of (js_world st) (w_next_id w) = Some (s, x)" and "s \<noteq> DbStage_None"
  shows "\<exists>p. last_report (w_notified (js_world st)) (cj_Name (cr_Job r)) = Some p \<and>
    pd_InstanceName p = cfg_InstanceName (env_cfg E) \<and> pd_Stage p = s \<and> pd_Status p = x"
proof -
  obtain d where d: "wf_world w1" "stored (w_dbs w1) d" "db_ID d = w_next_id w" "db_Name d = cj_Name (cr_Job r)"
    using create_Process_fresh[OF assms(1-3,5,6)] assms(7) by auto
  have "reported E w1"
    using reported_create[OF assms(3,4), of r] assms(5,7) by (simp add: create_Process_def create_validate_def)
  with d(1) have st: "wf_world (js_world st)" "reported E (js_world st)"
    unfolding assms(8) using reports.inv_drive[OF reports.inv_start_job] by blast+
  have "known (w_dbs w1) d" using d(2) by (auto simp: stored_def dest: sel_by_mem intro: known_row)
  then have "known (w_dbs (js_world st)) d" unfolding assms(8) by (intro rows.inv_drive rows.inv_start_job)
  moreover obtain r' where r': "sel_by db_ID (w_next_id w) (w_dbs (js_world st)) = Some r'"
      "last_report (w_notified (js_world st)) (db_Name r') = Some (proto_of E r')" "db_Stage r' = s" "db_Status r' = x"
    using ready_is_reported[OF st assms(9,10)] by auto
  ultimately have "db_Name r' = cj_Name (cr_Job r)"
    using st(1) d(3,4) sel_by_mem[OF r'(1)] sel_by_key[OF r'(1)]
    by (auto simp: known_def wf_world_def wf_tables_def distinct_map same_db_def dest: inj_onD)
  with r' show ?thesis by auto
qed

section \<open>From a file to a ready database\<close>

text \<open>
  From a file to a ready database: when a YAML file appears that declares a database not known yet,
  on an instance that is online and has no such database, without a migration, the source is queued
  once; handling it succeeds, leaves the source processing, and hands the instance one more job with
  the contents of the file; and when an agent whose environment answers, and which has no such
  database, handles that job, the job runs to its end, is dropped, the database is ready to use, and
  the agent's last report about it says so.
\<close>

theorem written_file_becomes_ready_database:
  assumes "se_GetDbStatus E = view_GetDbStatus" and "se_CreateDb E = view_CreateDb" and "view_ok (sh_manager (fh_handler f))"
    and "has_suffix path ''.yaml''" and "LoadYaml F path = Inr q" and "se_validate E (new_file_source q) = None"
    and "sh_Databases (fh_handler f) (rq_Name q) = None"
    and "rq_InstanceName q = inst" and "inst \<noteq> []" and "rq_MigrateFrom q = []"
    and "PasswordContent (se_read_trimmed E) q = Inr password"
    and "mg_Instances (mv_manager (sh_manager (fh_handler f))) inst = Some a" and "in_Online a" and "in_Databases a (rq_Name q) = None"
    and "healthy A" and "cfg_tmpl (env_cfg A) \<noteq> None" and "fresh_uuids A w 10" and "wf_world w" and "reported A w"
    and "\<not> IsReservedName (env_cfg A) (rq_Name q)" and "sel_by db_Name (rq_Name q) (w_dbs w) = None"
    and "g = FileSource_Handle E F 1 path f" and "r = fh_next f"
  shows "sh_spawned (fh_handler g) = sh_spawned (fh_handler f) @ [GoSend r] \<and>
    (\<exists>s' b job. SourceHandler_Handle E r (fh_handler g) = (None, s') \<and> so_State (sh_heap s' r) = SourceStateProcessing \<and>
      mg_Instances (mv_manager (sh_manager s')) inst = Some b \<and> in_jobs b = in_jobs a @ [job] \<and>
      dj_Job job = DbJob_CreateDatabase (source_job (new_file_source q) password) \<and>
      (\<exists>n i rows w1 st p. GrpcAgentHandler_handle uuid_parse A job w = (Ok (Some (n, i, rows)), w1) \<and>
        st = drive (length rows) A (start_job A (n, i, rows) w1) \<and> js_jobs st = Map.empty \<and> js_ready st = [] \<and>
        stage_of (js_world st) (w_next_id w) = Some (DbStage_ReadyToUse, DbStatus_Done) \<and>
        last_report (w_notified (js_world st)) (rq_Name q) = Some p \<and> pd_InstanceName p = cfg_InstanceName (env_cfg A) \<and>
        (pd_Stage p, pd_Status p) = (DbStage_ReadyToUse, DbStatus_Done)))"
proof -
  note new = new_file_is_queued[OF assms(4-7,22,23)]
  let ?x = "sh_heap (fh_handler g) r"
  have x: "so_InstanceName ?x = inst" "so_ExpectState ?x = SourceStateReady" "rq_MigrateFrom (so_Request ?x) = []"
    "so_Request ?x = q" "source_job ?x password = source_job (new_file_source q) password"
    using assms(8,10) by (simp_all add: new(2) new_file_source_def source_job_def)
  have "view_ok (sh_manager (fh_handler g))" "mg_Instances (mv_manager (sh_manager (fh_handler g))) inst = Some a"
    "PasswordContent (se_read_trimmed E) (so_Request ?x) = Inr password" "in_Databases a (so_Name ?x) = None"
    "\<not> IsReservedName (env_cfg A) (so_Name ?x)" "sel_by db_Name (so_Name ?x) (w_dbs w) = None"
    using assms(3,11,12,14,20,21) x(4) by (simp_all add: new(3))
  from declared_source_becomes_ready_database[OF assms(1,2) this(1) refl x(1) assms(9) x(2,3) this(3) this(2) assms(13) this(4)
      assms(15-18) this(5,6), of uuid_parse]
  obtain s' b job n i rows w1 st where
    h: "SourceHandler_Handle E r (fh_handler g) = (None, s')" "so_State (sh_heap s' r) = SourceStateProcessing"
      "mg_Instances (mv_manager (sh_manager s')) inst = Some b" "in_jobs b = in_jobs a @ [job]"
    and j: "dj_Job job = DbJob_CreateDatabase (source_job (new_file_source q) password)"
    and ag: "GrpcAgentHandler_handle uuid_parse A job w = (Ok (Some (n, i, rows)), w1)"
      "st = drive (length rows) A (start_job A (n, i, rows) w1)" "js_jobs st = Map.empty" "js_ready st = []"
      "stage_of (js_world st) (w_next_id w) = Some (DbStage_ReadyToUse, DbStatus_Done)"
    by (auto simp: x(5))
  define c where "c = NewCreateDatabaseRequest uuid_parse (dj_JobId job) (source_job (new_file_source q) password)"
  have c: "create_Process A c w = (Ok (Some (n, i, rows)), w1)" "cj_Name (cr_Job c) = rq_Name q"
    using ag(1) j by (simp_all add: GrpcAgentHandler_handle_def c_def NewCreateDatabaseRequest_def source_job_def new_file_source_def)
  from created_is_reported[of A w c, OF assms(15,17-19) _ _ c(1) ag(2,5)] assms(20,21) c(2)
  obtain p where "last_report (w_notified (js_world st)) (rq_Name q) = Some p" "pd_InstanceName p = cfg_InstanceName (env_cfg A)"
      "pd_Stage p = DbStage_ReadyToUse" "pd_Status p = DbStatus_Done"
    by auto
  then show ?thesis using new(1) h j ag by (intro conjI exI) simp_all
qed

definition app_file :: file_system where
  "app_file = sample_fs\<lparr>fs_Unmarshal := \<lambda>_. Inr (sample_request\<lparr>rq_InstanceName := ''pg-16''\<rparr>)\<rparr>"

definition no_sources :: "manager_view file_source" where
  "no_sources = \<lparr>fh_sourceMap = Map.empty, fh_next = 0, fh_handler = NewSourceHandler (\<lambda>_. sample_source) sample_view\<rparr>"

theorem written_file_becomes_ready_database_witness:
  "\<exists>s' job n i rows w1 p. SourceHandler_Handle manager_env 0 (fh_handler (FileSource_Handle manager_env app_file 1 ''app.yaml'' no_sources))
      = (None, s') \<and>
     GrpcAgentHandler_handle (\<lambda>_. None) sample_env job empty_world = (Ok (Some (n, i, rows)), w1) \<and>
     last_report (w_notified (js_world (drive (length rows) sample_env (start_job sample_env (n, i, rows) w1)))) ''app'' = Some p \<and>
     pd_InstanceName p = ''pg-16'' \<and> (pd_Stage p, pd_Status p) = (DbStage_ReadyToUse, DbStatus_Done)"
proof -
  let ?q = "sample_request\<lparr>rq_InstanceName := ''pg-16''\<rparr>"
  have e: "se_GetDbStatus manager_env = view_GetDbStatus" "se_CreateDb manager_env = view_CreateDb"
    "view_ok (sh_manager (fh_handler no_sources))"
    by (simp_all add: manager_env_def no_sources_def NewSourceHandler_def sample_view_ok)
  have f: "has_suffix ''app.yaml'' ''.yaml''" "LoadYaml app_file ''app.yaml'' = Inr ?q"
    "se_validate manager_env (new_file_source ?q) = None" "sh_Databases (fh_handler no_sources) (rq_Name ?q) = None"
    "rq_InstanceName ?q = ''pg-16''" "''pg-16'' \<noteq> []" "rq_MigrateFrom ?q = []"
    "PasswordContent (se_read_trimmed manager_env) ?q = Inr ''secret12''"
    by (simp_all add: str_defs app_file_def sample_fs_def LoadYaml_def manager_env_def no_sources_def NewSourceHandler_def
        sample_request_def PasswordContent_def)
  obtain a where a: "mg_Instances (mv_manager (sh_manager (fh_handler no_sources))) ''pg-16'' = Some a" "in_Online a"
      "in_Databases a (rq_Name ?q) = None"
    by (simp add: no_sources_def NewSourceHandler_def sample_view_def sample_manager_instances sample_request_def)
  have w: "healthy sample_env" "cfg_tmpl (env_cfg sample_env) \<noteq> None" "fresh_uuids sample_env empty_world 10" "wf_world empty_world"
    "reported sample_env empty_world" "\<not> IsReservedName (env_cfg sample_env) (rq_Name ?q)"
    "sel_by db_Name (rq_Name ?q) (w_dbs empty_world) = None"
    by (simp_all add: sample_fresh reported_def sample_request_def IsReservedName_def sample_cfg_def)
  from written_file_becomes_ready_database[OF e f a w refl refl, of "\<lambda>_. None"]
  show ?thesis by (simp add: no_sources_def sample_request_def sample_cfg_def) blast
qed

end
