(* ===== verification/Delivery.thy ===== *)
theory Delivery
  imports End_To_End Transitions
begin

text \<open>
  The way of the agent's reports to the sources: the agent sends them one after the other
  (\<open>DbStatusSender\<close>, a consumer with one worker), each call of \<open>NotifyDbStatus\<close> stores the record and starts a goroutine, and a
  goroutine tells the source handler what the server knows when it runs, which may be later. In every
  interleaving the source ends as the last report asks.
\<close>

section \<open>Calls and goroutines\<close>

abbreviation server_manager :: "manager_view source_state \<Rightarrow> manager" where
  "server_manager s \<equiv> mv_manager (sh_manager s)"

definition set_manager :: "manager \<Rightarrow> manager_view source_state \<Rightarrow> manager_view source_state" where
  "set_manager m s = s\<lparr>sh_manager := (sh_manager s)\<lparr>mv_manager := m\<rparr>\<rparr>"

text \<open>A goroutine that \<open>NotifyDbStatus\<close> started: it calls the source handler through the subscription.\<close>

definition run_status :: "manager_view source_env \<Rightarrow> mgr_spawned \<Rightarrow> mgr_spawned list \<Rightarrow>
    manager_view source_state \<Rightarrow> manager_view source_state" where
  "run_status E g others s =
     (let m = (server_manager s)\<lparr>mg_spawned := others\<rparr>;
          m' = run_spawned [] g m
      in fold (\<lambda>d s. snd (OnDbStatusChanged E d s)) (drop (length (mg_to_source m)) (mg_to_source m')) (set_manager m' s))"

inductive delivery_step :: "manager_view source_env \<Rightarrow> auth_info option \<Rightarrow>
    server_db list \<times> manager_view source_state \<Rightarrow> server_db list \<times> manager_view source_state \<Rightarrow> bool" for E info where
  report: "delivery_step E info (p # ps, s) (ps, set_manager (snd (NotifyDbStatus info p (server_manager s))) s)"
| status: "mg_spawned (server_manager s) = xs @ GoDbStatus inst name # ys \<Longrightarrow>
    delivery_step E info (ps, s) (ps, run_status E (GoDbStatus inst name) (xs @ ys) s)"

inductive_simps delivery_step_simps: "delivery_step E info (ps, s) t"
inductive_cases delivery_stepE: "delivery_step E info c t"

section \<open>The source handler\<close>

lemma UpdateState_frame:
  "so_Request (snd (UpdateState d x)) = so_Request x" "so_ExpectState (snd (UpdateState d x)) = so_ExpectState x"
  by (simp_all add: UpdateState_def ResetRetryDelay_def)

lemma updateDbStatus_frame:
  "sh_manager (updateDbStatus E r d s) = sh_manager s" "sh_Databases (updateDbStatus E r d s) = sh_Databases s"
  "so_Request (sh_heap (updateDbStatus E r d s) q) = so_Request (sh_heap s q)"
  "so_ExpectState (sh_heap (updateDbStatus E r d s) q) = so_ExpectState (sh_heap s q)"
  "q \<noteq> r \<Longrightarrow> sh_heap (updateDbStatus E r d s) q = sh_heap s q"
  using UpdateState_frame[of d "sh_heap s r"]
  by (auto simp: updateDbStatus_def put_source_def retryNextTime_def read_clock_def spawn_def NextRetryDelay_def Let_def
      split: prod.splits)

lemma OnDbStatusChanged_frame [simp]:
  "sh_manager (snd (OnDbStatusChanged E d s)) = sh_manager s" "sh_Databases (snd (OnDbStatusChanged E d s)) = sh_Databases s"
  "so_Request (sh_heap (snd (OnDbStatusChanged E d s)) q) = so_Request (sh_heap s q)"
  "so_ExpectState (sh_heap (snd (OnDbStatusChanged E d s)) q) = so_ExpectState (sh_heap s q)"
  by (simp_all add: OnDbStatusChanged_def updateDbStatus_frame split: option.split)

text \<open>A ready source stays ready, whatever status arrives.\<close>

lemma ready_source_stays:
  assumes "so_ExpectState (sh_heap s r) = SourceStateReady" and "so_State (sh_heap s r) = SourceStateReady"
  shows "so_State (sh_heap (snd (OnDbStatusChanged E d s)) r) = SourceStateReady"
proof (cases "sh_Databases s (ds_Name d) = Some r")
  case True
  then have "UpdateState d (sh_heap s r) = (False, sh_heap s r)" using assms by (simp add: UpdateState_def)
  then show ?thesis using True assms by (simp add: OnDbStatusChanged_def updateDbStatus_def put_source_def)
next
  case False
  then show ?thesis using assms by (auto simp: OnDbStatusChanged_def updateDbStatus_frame split: option.split)
qed

lemma ready_status_settles:
  assumes "sh_Databases s (ds_Name d) = Some r" and "so_InstanceName (sh_heap s r) = ds_InstanceName d"
    and "so_ExpectState (sh_heap s r) = SourceStateReady" and "ds_Stage d = ''ReadyToUse''"
  shows "so_State (sh_heap (snd (OnDbStatusChanged E d s)) r) = SourceStateReady"
proof (cases "so_State (sh_heap s r) = SourceStateReady")
  case True
  then show ?thesis using ready_source_stays assms(3) by blast
next
  case False
  then have "UpdateState d (sh_heap s r) = (True, ResetRetryDelay ((sh_heap s r)
      \<lparr>so_State := SourceStateReady, so_UpdatedAt := ds_UpdatedAt d\<rparr>))"
    using assms by (simp add: UpdateState_def)
  then show ?thesis using assms(1) by (simp add: OnDbStatusChanged_def updateDbStatus_def put_source_def ResetRetryDelay_def)
qed

section \<open>The subscribers\<close>

text \<open>The source handler is subscribed once; each waiting call has a number of its own.\<close>

definition source_subscribed :: "manager \<Rightarrow> bool" where
  "source_subscribed m \<longleftrightarrow> distinct (List.map_filter sub_waiter (mg_subs m)) \<and> count_list (mg_subs m) SourceOnDbStatus = 1"

lemma distinct_map_filter: "distinct (List.map_filter f xs) \<Longrightarrow> distinct (List.map_filter f (filter P xs))"
proof (induction xs)
  case (Cons x xs)
  then show ?case by (auto simp: map_filter_simps in_map_filter split: option.splits)
qed simp

lemma count_list_filter: "P x \<Longrightarrow> count_list (filter P xs) x = count_list xs x"
  by (induction xs) auto

text \<open>What a goroutine does: it tells the source handler of the record it finds, if this is failed or synced.\<close>

definition status_told :: "string \<Rightarrow> string \<Rightarrow> manager \<Rightarrow> DbStatusResponse list" where
  "status_told i n m = (case Option.bind (mg_Instances m i) (\<lambda>a. in_Databases a n) of
      None \<Rightarrow> []
    | Some db \<Rightarrow> if proto_IsFailed (Some db) \<or> IsSynced (Some db)
        then [(Database_StatusResponse db)\<lparr>ds_InstanceName := in_Name (the (mg_Instances m i)),
          ds_Version := in_PgVersion (the (mg_Instances m i))\<rparr>] else [])"

lemma status_told_spawned [simp]: "status_told i n (m\<lparr>mg_spawned := g\<rparr>) = status_told i n m"
  by (simp add: status_told_def split: option.split)

lemma status_told_short: "status_told i n m = [] \<or> (\<exists>d. status_told i n m = [d])"
  by (simp add: status_told_def split: option.split)

lemma run_status_spawned:
  assumes "source_subscribed m" and "m' = run_spawned j (GoDbStatus i n) m"
  shows "mg_Instances m' = mg_Instances m" and "source_subscribed m'"
    and "\<exists>gs. mg_spawned m' = mg_spawned m @ gs \<and> (\<forall>g\<in>set gs. \<exists>t vo. g = GoCreateDb t vo)"
    and "mg_to_source m' = mg_to_source m @ status_told i n m"
proof -
  have subs: "mg_subs m \<noteq> []" using assms(1) by (auto simp: source_subscribed_def)
  have told: "mg_Instances (notifyStatusChanged d m) = mg_Instances m \<and> source_subscribed (notifyStatusChanged d m) \<and>
      mg_spawned (notifyStatusChanged d m) = mg_spawned m @ concat (map (sub_creates d) (mg_subs m)) \<and>
      mg_to_source (notifyStatusChanged d m) = mg_to_source m @ [d]" for d
    using assms(1) scan_keep_notify[of "mg_subs m" d m]
    by (auto simp: source_subscribed_def notifyStatusChanged_def scan_del_eq distinct_map_filter count_list_filter)
  have creates: "\<forall>g\<in>set (concat (map (sub_creates d) ss)). \<exists>t vo. g = GoCreateDb t vo" for d ss
  proof
    fix g assume "g \<in> set (concat (map (sub_creates d) ss))"
    then obtain x where "g \<in> set (sub_creates d x)" by auto
    then show "\<exists>t vo. g = GoCreateDb t vo" by (cases x) (auto split: if_splits)
  qed
  show "mg_Instances m' = mg_Instances m" "source_subscribed m'"
    using assms(1) told unfolding assms(2) by (auto simp: OnStatusChanged_def split: option.split)
  show "\<exists>gs. mg_spawned m' = mg_spawned m @ gs \<and> (\<forall>g\<in>set gs. \<exists>t vo. g = GoCreateDb t vo)"
    using told creates unfolding assms(2) by (auto simp: OnStatusChanged_def split: option.split)
  show "mg_to_source m' = mg_to_source m @ status_told i n m"
    using told subs unfolding assms(2) by (auto simp: OnStatusChanged_def status_told_def split: option.split)
qed

section \<open>The invariant\<close>

definition granted_agent :: "string \<Rightarrow> auth_info option \<Rightarrow> bool" where
  "granted_agent inst info \<longleftrightarrow>
     (case info of None \<Rightarrow> False | Some i \<Rightarrow> ValidateScope i ''agent'' \<and> ValidateResource i (''dbInstance:'' @ inst))"

text \<open>What the server knows of a database, and the reports about it that are on the way.\<close>

definition server_record :: "string \<Rightarrow> string \<Rightarrow> manager \<Rightarrow> server_db" where
  "server_record inst name m = (case mg_Instances m inst of None \<Rightarrow> NewDatabase | Some a \<Rightarrow> known_db a name)"

definition coming :: "string \<Rightarrow> string \<Rightarrow> server_db list \<times> manager_view source_state \<Rightarrow> server_db list" where
  "coming inst name c = server_record inst name (server_manager (snd c)) # filter (\<lambda>p. pd_Name p = name) (fst c)"

text \<open>Every received message has timestamps of its own, which \<open>Database_Update\<close> compares by address.\<close>

definition settling :: "string \<Rightarrow> string \<Rightarrow> nat \<Rightarrow> auth_info option \<Rightarrow> server_db list \<times> manager_view source_state \<Rightarrow> bool" where
  "settling inst name r info c \<longleftrightarrow> (case c of (ps, s) \<Rightarrow>
     granted_agent inst info \<and> mgr_wf (server_manager s) \<and> inst \<in> dom (mg_Instances (server_manager s)) \<and>
     source_subscribed (server_manager s) \<and>
     (\<forall>n. sh_Databases s n = Some r \<longleftrightarrow> n = name) \<and> so_InstanceName (sh_heap s r) = inst \<and>
     so_ExpectState (sh_heap s r) = SourceStateReady \<and>
     pd_InstanceName ` set ps \<subseteq> {inst} \<and> distinct (map (\<lambda>p. ptr_of (pd_UpdatedAt p)) (coming inst name c)) \<and>
     IsReadyToUse (Some (last (coming inst name c))) \<and>
     (IsReadyToUse (Some (server_record inst name (server_manager s))) \<longrightarrow>
        so_State (sh_heap s r) = SourceStateReady \<or> GoDbStatus inst name \<in> set (mg_spawned (server_manager s))))"

lemma set_manager_fields [simp]:
  "server_manager (set_manager m s) = m" "sh_Databases (set_manager m s) = sh_Databases s" "sh_heap (set_manager m s) = sh_heap s"
  by (simp_all add: set_manager_def)

lemma settling_report:
  assumes "settling inst name r info (p # ps, s)"
  shows "settling inst name r info (ps, set_manager (snd (NotifyDbStatus info p (server_manager s))) s)"
proof -
  let ?m = "server_manager s"
  obtain a where a: "mg_Instances ?m inst = Some a" using assms by (auto simp: settling_def)
  have wf: "mgr_wf ?m" and pi: "pd_InstanceName p = inst" using assms by (auto simp: settling_def)
  have nm: "in_Name a = inst" using mgr_wfD[OF wf a] by simp
  obtain ch a1 where u: "UpdateDatabase p a = (ch, a1)" by fastforce
  obtain d where d: "in_Databases a (pd_Name p) = Some d \<or> in_Databases a (pd_Name p) = None \<and> d = NewDatabase"
    and ch: "ch = fst (Database_Update d p)" and dbs: "in_Databases a1 = (in_Databases a)(pd_Name p \<mapsto> snd (Database_Update d p))"
    and same: "same_inst a a1" using u by (rule UpdateDatabase_eq)
  define m' where "m' = (set_instance a1 ?m)\<lparr>mg_spawned := mg_spawned ?m @ (if ch then [GoDbStatus inst (pd_Name p)] else [])\<rparr>"
  have m': "snd (NotifyDbStatus info p ?m) = m'"
    using assms a u pi nm by (auto simp: settling_def granted_agent_def NotifyDbStatus_def LoadAuthInfo_def GetInstance_def m'_def split: option.splits)
  have wf': "mgr_wf m'" using NotifyDbStatus_wf[OF wf, of info p] by (simp add: m')
  have i': "mg_Instances m' = (mg_Instances ?m)(inst \<mapsto> a1)" using same nm by (simp add: m'_def set_instance_def same_inst_def)
  have k: "known_db a (pd_Name p) = d" using d by (auto simp: known_db_def)
  have sub: "source_subscribed m'" using assms by (simp add: settling_def m'_def set_instance_def source_subscribed_def)
  show ?thesis
  proof (cases "pd_Name p = name")
    case False
    then have "server_record inst name m' = server_record inst name ?m" using a i' dbs by (simp add: server_record_def known_db_def)
    then show ?thesis using assms False wf' i' sub by (auto simp: settling_def coming_def m' m'_def)
  next
    case True
    have old: "server_record inst name ?m = d" using a k True by (simp add: server_record_def)
    then have ptr: "ptr_of (pd_UpdatedAt p) \<noteq> ptr_of (pd_UpdatedAt d)" using assms True by (auto simp: settling_def coming_def)
    then have up: "Database_Update d p = (pd_Stage d \<noteq> pd_Stage p \<or> pd_Status d \<noteq> pd_Status p, p)" by (auto simp: Database_Update_def)
    then have new: "server_record inst name m' = p" using i' dbs True by (simp add: server_record_def known_db_def)
    have "ch \<or> IsReadyToUse (Some d) = IsReadyToUse (Some p)" using ch up by (auto simp: IsReadyToUse_def)
    then show ?thesis using assms True wf' i' sub new old by (auto simp: settling_def coming_def m' m'_def split: if_splits)
  qed
qed

lemma run_status_eq:
  assumes "source_subscribed (server_manager s)"
  obtains m' where "run_status E (GoDbStatus i n) others s =
      fold (\<lambda>d s. snd (OnDbStatusChanged E d s)) (status_told i n (server_manager s)) (set_manager m' s)"
    and "mg_Instances m' = mg_Instances (server_manager s)" and "source_subscribed m'"
    and "\<exists>gs. mg_spawned m' = others @ gs \<and> (\<forall>g\<in>set gs. \<exists>t vo. g = GoCreateDb t vo)"
proof -
  let ?m = "(server_manager s)\<lparr>mg_spawned := others\<rparr>"
  have "source_subscribed ?m" using assms by (simp add: source_subscribed_def)
  note r = run_status_spawned[OF this refl, of "[]" i n]
  show ?thesis by (rule that[of "run_spawned [] (GoDbStatus i n) ?m"])
      (use r in \<open>simp_all add: run_status_def Let_def del: run_spawned.simps\<close>)
qed

lemma settling_status:
  assumes inv: "settling inst name r info (ps, s)" and sp: "mg_spawned (server_manager s) = xs @ GoDbStatus i n # ys"
  shows "settling inst name r info (ps, run_status E (GoDbStatus i n) (xs @ ys) s)"
proof -
  let ?m = "server_manager s"
  have sub: "source_subscribed ?m" and wf: "mgr_wf ?m" using inv by (simp_all add: settling_def)
  obtain m' where eq: "run_status E (GoDbStatus i n) (xs @ ys) s =
      fold (\<lambda>d s. snd (OnDbStatusChanged E d s)) (status_told i n ?m) (set_manager m' s)"
    and m': "mg_Instances m' = mg_Instances ?m" "source_subscribed m'"
      "\<exists>gs. mg_spawned m' = (xs @ ys) @ gs \<and> (\<forall>g\<in>set gs. \<exists>t vo. g = GoCreateDb t vo)"
    by (rule run_status_eq[OF sub, of E i n "xs @ ys"])
  define s' where "s' = run_status E (GoDbStatus i n) (xs @ ys) s"
  have frame: "server_manager s' = m'" "sh_Databases s' = sh_Databases s" "so_Request (sh_heap s' r) = so_Request (sh_heap s r)"
    "so_ExpectState (sh_heap s' r) = so_ExpectState (sh_heap s r)"
    using status_told_short[of i n ?m] by (auto simp: s'_def eq)
  have stays: "so_State (sh_heap s' r) = SourceStateReady" if "so_State (sh_heap s r) = SourceStateReady"
    using that inv status_told_short[of i n ?m] by (auto simp: s'_def eq settling_def ready_source_stays)
  have rec: "server_record inst name m' = server_record inst name ?m" by (simp add: server_record_def m')
  have settles: "so_State (sh_heap s' r) = SourceStateReady"
    if "IsReadyToUse (Some (server_record inst name ?m))" and "(i, n) = (inst, name)"
  proof -
    obtain a where a: "mg_Instances ?m inst = Some a" using inv by (auto simp: settling_def)
    have nm: "in_Name a = inst" "inst_wf a" using mgr_wfD[OF wf a] by simp_all
    have "known_db a name \<noteq> NewDatabase" using that(1) a by (auto simp: server_record_def IsReadyToUse_def NewDatabase_def zero_proto_def)
    then have db: "in_Databases a name = Some (known_db a name)" "pd_Name (known_db a name) = name"
      using inst_wf_get[OF nm(2), of name] by (auto simp: known_db_def split: option.splits)
    define d where "d = (Database_StatusResponse (known_db a name))\<lparr>ds_InstanceName := inst, ds_Version := in_PgVersion a\<rparr>"
    have st: "pd_Stage (known_db a name) = DbStage_ReadyToUse" "pd_Status (known_db a name) = DbStatus_Done"
      using that(1) a by (simp_all add: server_record_def IsReadyToUse_def)
    have "status_told i n ?m = [d]" using that(2) a db st nm by (simp add: status_told_def d_def IsSynced_def)
    moreover have "ds_Name d = name" "ds_InstanceName d = inst" "ds_Stage d = ''ReadyToUse''"
      using db st by (simp_all add: d_def Database_StatusResponse_def)
    ultimately show ?thesis using inv by (simp add: s'_def eq settling_def ready_status_settles)
  qed
  have "so_State (sh_heap s' r) = SourceStateReady \<or> GoDbStatus inst name \<in> set (mg_spawned m')"
    if "IsReadyToUse (Some (server_record inst name ?m))"
    using that settles stays inv sp m'(3) by (auto simp: settling_def)
  then have "settling inst name r info (ps, s')"
    using inv frame m' rec mgr_wf_cong[OF m'(1) wf] by (auto simp: settling_def coming_def)
  then show ?thesis by (simp add: s'_def)
qed

section \<open>Every interleaving ends with the source settled\<close>

definition statuses_left :: "manager \<Rightarrow> nat" where
  "statuses_left m = length (filter (\<lambda>g. case g of GoDbStatus _ _ \<Rightarrow> True | _ \<Rightarrow> False) (mg_spawned m))"

definition delivery_cost :: "server_db list \<times> manager_view source_state \<Rightarrow> nat" where
  "delivery_cost c = 2 * length (fst c) + statuses_left (server_manager (snd c))"

lemma statuses_left_simps [simp]:
  "statuses_left (m\<lparr>mg_spawned := gs @ [GoDbStatus i n]\<rparr>) = Suc (statuses_left (m\<lparr>mg_spawned := gs\<rparr>))"
  "statuses_left (m\<lparr>mg_spawned := gs @ [GoCreateDb t vo]\<rparr>) = statuses_left (m\<lparr>mg_spawned := gs\<rparr>)"
  "statuses_left (m\<lparr>mg_spawned := mg_spawned m\<rparr>) = statuses_left m"
  by (simp_all add: statuses_left_def)

lemma statuses_left_cong: "mg_spawned m' = mg_spawned m \<Longrightarrow> statuses_left m' = statuses_left m"
  by (simp add: statuses_left_def)

lemma call_subscriber_left: "statuses_left (snd (call_subscriber d sub m)) = statuses_left m"
  by (cases sub) (auto simp: statuses_left_def)

lemma run_spawned_left: "statuses_left (run_spawned j (GoDbStatus i n) m) = statuses_left m"
proof -
  have "statuses_left (notifyStatusChanged d m) = statuses_left m" for d
    using scan_keep_frame[of statuses_left "call_subscriber d", OF call_subscriber_left]
    by (simp add: notifyStatusChanged_def scan_del_eq split_beta statuses_left_cong[of "x\<lparr>mg_subs := y\<rparr>" x for x y])
  then show ?thesis by (simp add: OnStatusChanged_def split: option.split)
qed

lemma run_status_left: "statuses_left (server_manager (run_status E (GoDbStatus i n) others s)) =
    statuses_left ((server_manager s)\<lparr>mg_spawned := others\<rparr>)"
proof -
  have "sh_manager (fold (\<lambda>d s. snd (OnDbStatusChanged E d s)) ds t) = sh_manager t" for ds t
    by (induction ds arbitrary: t) simp_all
  then show ?thesis by (simp add: run_status_def Let_def run_spawned_left del: run_spawned.simps)
qed

lemma NotifyDbStatus_left: "statuses_left (snd (NotifyDbStatus info p m)) \<le> Suc (statuses_left m)"
  by (auto simp: NotifyDbStatus_def statuses_left_def set_instance_def split: option.splits prod.splits bool.splits)

lemma delivery_lowers: "delivery_step E info c t \<Longrightarrow> delivery_cost t < delivery_cost c"
proof (erule delivery_stepE)
  fix p ps s assume "c = (p # ps, s)" "t = (ps, set_manager (snd (NotifyDbStatus info p (server_manager s))) s)"
  then show ?thesis using NotifyDbStatus_left[of info p "server_manager s"] by (simp add: delivery_cost_def)
next
  fix s xs i n ys ps
  assume "c = (ps, s)" "t = (ps, run_status E (GoDbStatus i n) (xs @ ys) s)" "mg_spawned (server_manager s) = xs @ GoDbStatus i n # ys"
  then show ?thesis by (simp add: delivery_cost_def run_status_left) (simp add: statuses_left_def)
qed

definition settled :: "nat \<Rightarrow> server_db list \<times> manager_view source_state \<Rightarrow> bool" where
  "settled r c \<longleftrightarrow> fst c = [] \<and> so_State (sh_heap (snd c) r) = SourceStateReady"

lemma delivery_progress:
  assumes "settling inst name r info c" and "{t. delivery_step E info c t} = {}"
  shows "settled r c"
proof -
  obtain ps s where c: "c = (ps, s)" by fastforce
  have none: "\<not> delivery_step E info (ps, s) t" for t using assms(2) c by blast
  then have ps: "ps = []" by (cases ps) (auto intro: delivery_step.report)
  have "GoDbStatus inst name \<notin> set (mg_spawned (server_manager s))"
    using none delivery_step.status by (metis split_list)
  then show ?thesis using assms(1) by (simp add: c ps settled_def settling_def coming_def)
qed

interpretation delivery: finishing "delivery_step E info" "settling inst name r info" delivery_cost "settled r" for E info inst name r
proof
  show "settling inst name r info t" if "delivery_step E info c t" "settling inst name r info c" for c t
    using that(1) by (rule delivery_stepE) (use that(2) settling_report settling_status in blast)+
qed (use delivery_lowers delivery_progress in blast)+

text \<open>
  C8. Reports settle the source: when the reports of an agent about its databases are on the way, the
  last one about the database of a source that expects to be ready says that it is ready and done, and
  the server knows something else or has a call to the source handler pending, then every
  interleaving of the calls of the agent and of the goroutines they start is finite, and when nothing
  is left to do the source is ready.
\<close>

theorem reports_settle_source:
  assumes "settling inst name r info c"
  shows "\<not> (delivery_step E info ^^ Suc (delivery_cost c)) c t' \<and>
    {t. (delivery_step E info)\<^sup>*\<^sup>* c t \<and> {u. delivery_step E info t u} = {}} \<subseteq> {t. settled r t}"
proof (intro conjI subsetI CollectI)
  show "\<not> (delivery_step E info ^^ Suc (delivery_cost c)) c t'" by (auto dest!: delivery.run_length simp del: relpowp.simps)
  fix t assume "t \<in> {t. (delivery_step E info)\<^sup>*\<^sup>* c t \<and> {u. delivery_step E info t u} = {}}"
  then show "settled r t" using delivery.stuck_final[OF assms] by blast
qed

definition app_on_pg16 :: "manager_view source_state" where
  "app_on_pg16 = (source_on ''pg-16'')\<lparr>sh_Databases := [''app'' \<mapsto> 0]\<rparr>"

theorem reports_settle_source_witness:
  "\<exists>t. (delivery_step manager_env (Some (agent_info ''pg-16'')))\<^sup>*\<^sup>*
      ([reported_db ''pg-16'' ''app'' DbStage_ReadyToUse DbStatus_Done 7], app_on_pg16) t \<and> settled 0 t"
proof -
  let ?db = "reported_db ''pg-16'' ''app'' DbStage_ReadyToUse DbStatus_Done 7" and ?info = "Some (agent_info ''pg-16'')"
  have m: "server_manager app_on_pg16 = sample_manager"
    by (simp add: app_on_pg16_def source_on_def NewSourceHandler_def sample_view_def)
  have r: "server_record ''pg-16'' ''app'' sample_manager = NewDatabase"
    by (simp add: server_record_def sample_manager_instances known_db_def)
  have "source_subscribed sample_manager" by (simp add: source_subscribed_def sample_manager_subs map_filter_simps)
  then have "settling ''pg-16'' ''app'' 0 ?info ([?db], app_on_pg16)"
    using mgr_reach_wf[OF sample_manager_reach]
    by (simp add: settling_def coming_def m r granted_agent_def ValidateResource_agent sample_manager_instances)
      (simp add: app_on_pg16_def source_on_def NewSourceHandler_def sample_source_def sample_request_def reported_db_def
        NewDatabase_def zero_proto_def IsReadyToUse_def)
  from reports_settle_source[OF this] show ?thesis using delivery.run_ends[of manager_env ?info] by blast
qed
end
