(* ===== verification/Agent_Server.thy ===== *)
theory Agent_Server
  imports Agent_Requests Instance_Manager Config
begin

text \<open>
  The gRPC session of the agent (\<open>internal/handler/grpc_agent\<close>): the client and its token
  (\<open>agent_server.go\<close>, \<open>auth_token.go\<close>), the registration with its retries, the loop that receives jobs
  and registers again when the stream breaks, and the sender of status reports
  (\<open>db_status_sender.go\<close>). The lemmas show that the session ends once the agent is told to quit, how
  long it waits between two attempts, and that an agent with a token of \<open>genjwt\<close> gets in.
\<close>

section \<open>The client\<close>

record auth_token =
  tk_token :: string
  tk_secure :: bool

definition NewAuthToken :: "string \<Rightarrow> bool \<Rightarrow> auth_token" where
  "NewAuthToken token secure = \<lparr>tk_token = token, tk_secure = secure\<rparr>"

definition GetRequestMetadata :: "auth_token \<Rightarrow> string \<rightharpoonup> string" where
  "GetRequestMetadata a = [''authorization'' \<mapsto> ''Bearer '' @ tk_token a]"

definition RequireTransportSecurity :: "auth_token \<Rightarrow> bool" where
  "RequireTransportSecurity a = tk_secure a"

text \<open>The options the client is dialled with; dialling itself is gRPC's.\<close>

record ('cert, 'pool) dial_options =
  do_Transport :: "('cert, 'pool) transport"
  do_Authority :: "string option"
  do_PerRPC :: "auth_token option"
  do_KeepaliveTime :: time
  do_KeepaliveTimeout :: time
  do_PermitWithoutStream :: bool

definition initGrpcClient ::
    "('cert, 'pool) tls_lib \<Rightarrow> (string \<Rightarrow> ('cert, 'pool) dial_options \<Rightarrow> go_error + 'client) \<Rightarrow> grpc_client_config
      \<Rightarrow> go_error + 'client" where
  "initGrpcClient L dial g =
     (case agent_Credentials L (gc_Tls g) of
        Inl e \<Rightarrow> Inl e
      | Inr creds \<Rightarrow>
          (let o1 = \<lparr>do_Transport = creds, do_Authority = (if gc_ServerName g \<noteq> [] then Some (gc_ServerName g) else None),
                     do_PerRPC = None, do_KeepaliveTime = 15 * second, do_KeepaliveTimeout = 5 * second,
                     do_PermitWithoutStream = False\<rparr>
           in case AuthToken (tl_read_file L) g of
                Inr authToken \<Rightarrow>
                  dial (gc_Url g) (o1\<lparr>do_PerRPC := Some (NewAuthToken authToken (at_Enabled (gc_Tls g)))\<rparr>)
              | Inl e \<Rightarrow>
                  if \<not> at_MTLSEnabled (gc_Tls g) then Inl (ErrNew ''auth method is not provided'')
                  else dial (gc_Url g) o1))"

text \<open>The agent never pings more often than the server allows, and not without a stream.\<close>

lemma keepalive_allowed:
  assumes "initGrpcClient L dial g = Inr client" and "NewGrpcServer L' tls = Inr srv"
  shows "\<exists>options. dial (gc_Url g) options = Inr client \<and> gs_MinTime srv \<le> do_KeepaliveTime options \<and>
    do_PermitWithoutStream options = gs_PermitWithoutStream srv"
  using assms by (auto simp: initGrpcClient_def NewGrpcServer_def Let_def split: sum.splits if_splits)

section \<open>The session\<close>

record agent_registration =
  ag_Name :: string
  ag_PgVersion :: "32 word"
  ag_Databases :: "time proto_database option list"

definition loadRegisterAgent :: "agent_env \<Rightarrow> agent_world \<Rightarrow> (go_error + agent_registration) \<times> agent_world" where
  "loadRegisterAgent E w =
     (case ListDbs E True w of
        (Inl e, w1) \<Rightarrow> (Inl e, w1)
      | (Inr dbs, w1) \<Rightarrow>
          (Inr \<lparr>ag_Name = cfg_InstanceName (env_cfg E), ag_PgVersion = cfg_CurrentVersion (env_cfg E),
                ag_Databases = ToProtoDatabases E dbs\<rparr>, w1))"

text \<open>
  What a receive returns: a job, or an error with its gRPC code, \<open>None\<close> for an error that is no gRPC
  status, such as the end of the stream.
\<close>

datatype grpc_code = Canceled | UnauthenticatedCode | OtherCode

datatype recv_result = RecvTask db_job | RecvErr "grpc_code option"

text \<open>
  The environment answers the questions of the session in order: whether the quit context is done, the
  result of a registration or a receive, a random number. The session counts its questions, and
  records its waits, its registrations, and the jobs it started to handle.
\<close>

record session_env =
  sv_quit :: "nat \<Rightarrow> bool"
  sv_register :: "nat \<Rightarrow> go_error option"
  sv_recv :: "nat \<Rightarrow> recv_result"
  sv_rand :: "nat \<Rightarrow> nat"

record session =
  ss_clock :: nat
  ss_world :: agent_world
  ss_waits :: "int list"
  ss_registrations :: "agent_registration list"
  ss_handled :: "db_job list"

definition ask :: "(nat \<Rightarrow> 'a) \<Rightarrow> session \<Rightarrow> 'a \<times> session" where
  "ask f s = (f (ss_clock s), s\<lparr>ss_clock := Suc (ss_clock s)\<rparr>)"

definition wait_for :: "int \<Rightarrow> session \<Rightarrow> session" where
  "wait_for seconds s = s\<lparr>ss_waits := ss_waits s @ [seconds]\<rparr>"

text \<open>The two runners: what they store, or \<open>None\<close> when they failed.\<close>

definition registerAgentLoader_Run :: "agent_env \<Rightarrow> session \<Rightarrow> agent_registration option \<times> session" where
  "registerAgentLoader_Run E s =
     (case loadRegisterAgent E (ss_world s) of
        (Inl e, w) \<Rightarrow> (None, s\<lparr>ss_world := w\<rparr>)
      | (Inr r, w) \<Rightarrow> (Some r, s\<lparr>ss_world := w\<rparr>))"

definition grpcServiceLoader_Run :: "session_env \<Rightarrow> agent_registration \<Rightarrow> session \<Rightarrow> unit option \<times> session" where
  "grpcServiceLoader_Run V r s =
     (case ask (sv_register V) (s\<lparr>ss_registrations := ss_registrations s @ [r]\<rparr>) of
        (Some e, s1) \<Rightarrow> (None, s1)
      | (None, s1) \<Rightarrow> (Some (), s1))"

text \<open>The loop need not return: \<open>None\<close>. It returns what the runner stored, or \<open>None\<close> when told to quit.\<close>

partial_function (option) runUntilSuccess ::
    "session_env \<Rightarrow> (session \<Rightarrow> 'r option \<times> session) \<Rightarrow> int \<Rightarrow> session \<Rightarrow> ('r option \<times> session) option" where
  "runUntilSuccess V run continueWait s =
     (case ask (sv_quit V) s of (quit, s1) \<Rightarrow>
        if quit then Some (None, s1)
        else
          (case run s1 of
             (Some r, s2) \<Rightarrow> Some (Some r, s2)
           | (None, s2) \<Rightarrow>
               (case ask (sv_quit V) (wait_for continueWait s2) of (quit, s3) \<Rightarrow>
                  if quit then Some (None, s3)
                  else runUntilSuccess V run (if continueWait < 60 then continueWait + 1 else continueWait) s3)))"

definition registerService :: "session_env \<Rightarrow> agent_env \<Rightarrow> session \<Rightarrow> (bool \<times> session) option" where
  "registerService V E s =
     (case runUntilSuccess V (registerAgentLoader_Run E) 2 s of
        None \<Rightarrow> None
      | Some (None, s1) \<Rightarrow> Some (False, s1)
      | Some (Some r, s1) \<Rightarrow>
          (case runUntilSuccess V (grpcServiceLoader_Run V r) 2 s1 of
             None \<Rightarrow> None
           | Some (None, s2) \<Rightarrow> Some (False, s2)
           | Some (Some u, s2) \<Rightarrow> Some (True, s2)))"

text \<open>The loop of \<open>Run\<close>, once there is a stream.\<close>

partial_function (option) recv_loop :: "session_env \<Rightarrow> agent_env \<Rightarrow> session \<Rightarrow> session option" where
  "recv_loop V E s =
     (case ask (sv_quit V) s of (quit, s1) \<Rightarrow>
        if quit then Some s1
        else
          (case ask (sv_recv V) s1 of
             (RecvTask task, s2) \<Rightarrow> recv_loop V E (s2\<lparr>ss_handled := ss_handled s2 @ [task]\<rparr>)
           | (RecvErr code, s2) \<Rightarrow>
               if code = Some Canceled \<or> code = Some UnauthenticatedCode then Some s2
               else
                 (case ask (sv_rand V) s2 of
                    (n, s3) \<Rightarrow>
                      (case registerService V E (wait_for (int (n mod 3) + 1) s3) of
                         None \<Rightarrow> None
                       | Some (ok, s4) \<Rightarrow> if \<not> ok then Some s4 else recv_loop V E s4))))"

definition agent_server_Run :: "session_env \<Rightarrow> agent_env \<Rightarrow> session \<Rightarrow> session option" where
  "agent_server_Run V E s =
     (case registerService V E s of
        None \<Rightarrow> None
      | Some (ok, s1) \<Rightarrow> if \<not> ok then Some s1 else recv_loop V E s1)"

text \<open>The sender of status reports calls the service, on the connection's context.\<close>

definition DbStatusSender_Handle :: "('d \<Rightarrow> 'w \<Rightarrow> (go_error option \<times> 'w)) \<Rightarrow> 'd \<Rightarrow> 'w \<Rightarrow> go_error option \<times> 'w" where
  "DbStatusSender_Handle notify_db_status msg w = notify_db_status msg w"

section \<open>The session ends\<close>

lemma wait_for_fields [simp]:
  "ss_clock (wait_for n s) = ss_clock s" "ss_waits (wait_for n s) = ss_waits s @ [n]"
  by (simp_all add: wait_for_def)

text \<open>The quit context is done from the question \<open>N\<close> on.\<close>

definition quits_from :: "nat \<Rightarrow> session_env \<Rightarrow> bool" where
  "quits_from N V \<longleftrightarrow> (\<forall>n \<ge> N. sv_quit V n)"

lemma quits_fromD: "quits_from N V \<Longrightarrow> N \<le> n \<Longrightarrow> sv_quit V n"
  by (simp add: quits_from_def)

text \<open>One round of the loop.\<close>

lemma runUntilSuccess_quit:
  "sv_quit V (ss_clock s) \<Longrightarrow> runUntilSuccess V run k s = Some (None, s\<lparr>ss_clock := Suc (ss_clock s)\<rparr>)"
  by (subst runUntilSuccess.simps) (simp add: ask_def)

lemma runUntilSuccess_round:
  assumes "\<not> sv_quit V (ss_clock s)" and "run (s\<lparr>ss_clock := Suc (ss_clock s)\<rparr>) = (r, s2)"
  shows "runUntilSuccess V run k s =
    (case r of
       Some x \<Rightarrow> Some (Some x, s2)
     | None \<Rightarrow>
         if sv_quit V (ss_clock s2) then Some (None, (wait_for k s2)\<lparr>ss_clock := Suc (ss_clock s2)\<rparr>)
         else runUntilSuccess V run (if k < 60 then k + 1 else k) ((wait_for k s2)\<lparr>ss_clock := Suc (ss_clock s2)\<rparr>))"
  using assms by (subst runUntilSuccess.simps) (simp add: ask_def split: option.split)

text \<open>
  The interface \<open>Runner\<close> of \<open>internal/utils/runner.go\<close>, as the loop relies on it: a run asks at most one
  question and leaves the record of the waits alone.
\<close>

locale runner =
  fixes run :: "session \<Rightarrow> 'r option \<times> session"
  assumes run_clock: "run s = (r, s1) \<Longrightarrow> ss_clock s \<le> ss_clock s1 \<and> ss_clock s1 \<le> Suc (ss_clock s)"
    and run_waits: "run s = (r, s1) \<Longrightarrow> ss_waits s1 = ss_waits s"
begin

lemma runUntilSuccess_returns:
  assumes quits: "quits_from N V"
  shows "\<exists>r s'. runUntilSuccess V run k s = Some (r, s') \<and> ss_clock s < ss_clock s' \<and> ss_clock s' \<le> max N (ss_clock s) + 2"
proof (induction "N - ss_clock s" arbitrary: s k rule: less_induct)
  case less
  show ?case
  proof (cases "sv_quit V (ss_clock s)")
    case True
    then show ?thesis by (simp add: runUntilSuccess_quit)
  next
    case False
    then have c: "ss_clock s < N" using quits_fromD[OF quits] not_le by blast
    obtain r s2 where r: "run (s\<lparr>ss_clock := Suc (ss_clock s)\<rparr>) = (r, s2)" by fastforce
    have s2: "Suc (ss_clock s) \<le> ss_clock s2" "ss_clock s2 \<le> Suc (Suc (ss_clock s))" using run_clock[OF r] by simp_all
    show ?thesis
    proof (cases "r = None \<and> \<not> sv_quit V (ss_clock s2)")
      case True
      let ?s3 = "(wait_for k s2)\<lparr>ss_clock := Suc (ss_clock s2)\<rparr>"
      have c2: "ss_clock s2 < N" using True quits_fromD[OF quits] not_le by blast
      have lt: "N - ss_clock ?s3 < N - ss_clock s" using c2 s2 by simp
      have e: "runUntilSuccess V run k s = runUntilSuccess V run (if k < 60 then k + 1 else k) ?s3"
        using True by (simp add: runUntilSuccess_round[where run = run, OF False r])
      show ?thesis using less.hyps[OF lt, of "if k < 60 then k + 1 else k"] c2 s2 unfolding e by fastforce
    next
      case False
      then show ?thesis using c s2 by (auto simp: runUntilSuccess_round[where run = run, OF \<open>\<not> sv_quit V (ss_clock s)\<close> r] split: option.split)
    qed
  qed
qed

text \<open>The waits of one loop grow by a second each, up to a minute.\<close>

lemma runUntilSuccess_waits_raw:
  "runUntilSuccess V f k s = Some y \<Longrightarrow> f = run \<longrightarrow> k \<le> 60 \<longrightarrow>
     (\<exists>n. ss_waits (snd y) = ss_waits s @ map (\<lambda>i. min 60 (k + int i)) [0..<n])"
proof (induction rule: runUntilSuccess.raw_induct[rotated, consumes 1, case_names 1])
  case (1 rec V f k s y)
  show ?case
  proof (intro impI)
    assume f: "f = run" and k: "k \<le> 60"
    obtain quit s1 where a: "ask (sv_quit V) s = (quit, s1)" by fastforce
    obtain r s2 where r: "run s1 = (r, s2)" by fastforce
    have w: "ss_waits s1 = ss_waits s" "ss_waits s2 = ss_waits s"
      using a run_waits[OF r] by (auto simp: ask_def)
    obtain quit2 s3 where a2: "ask (sv_quit V) (wait_for k s2) = (quit2, s3)" by fastforce
    have w3: "ss_waits s3 = ss_waits s @ [k]" using a2 w by (auto simp: ask_def)
    consider "quit" | "\<not> quit" "r \<noteq> None" | "\<not> quit" "r = None" "quit2" | "\<not> quit" "r = None" "\<not> quit2" by blast
    then show "\<exists>n. ss_waits (snd y) = ss_waits s @ map (\<lambda>i. min 60 (k + int i)) [0..<n]"
    proof cases
      case 1
      then show ?thesis using "1.hyps" f a w by (auto intro: exI[of _ 0])
    next
      case 2
      then show ?thesis using "1.hyps" f a r w by (auto intro: exI[of _ 0])
    next
      case 3
      then show ?thesis using "1.hyps" f a r a2 w3 k by (auto intro!: exI[of _ 1])
    next
      case 4
      let ?k = "if k < 60 then k + 1 else k"
      have "rec V f ?k s3 = Some y" using 4 "1.hyps" f a r a2 by simp
      moreover have "?k \<le> 60" using k by simp
      ultimately obtain n where n: "ss_waits (snd y) = ss_waits s3 @ map (\<lambda>i. min 60 (?k + int i)) [0..<n]"
        using "1.IH" f by blast
      have "map (\<lambda>i. min 60 (k + int i)) [0..<Suc n] = k # map (\<lambda>i. min 60 (?k + int i)) [0..<n]"
        using k by (simp add: upt_conv_Cons map_Suc_upt[symmetric] comp_def algebra_simps del: upt_Suc)
      then show ?thesis using n w3 by (intro exI[of _ "Suc n"]) simp
    qed
  qed
qed

lemma runUntilSuccess_waits:
  assumes "runUntilSuccess V run 2 s = Some (r, s')"
  obtains n where "ss_waits s' = ss_waits s @ map (\<lambda>i. min 60 (2 + int i)) [0..<n]"
  using runUntilSuccess_waits_raw[OF assms] by auto

end

interpretation register_loader: runner "registerAgentLoader_Run E" for E
  by unfold_locales (auto simp: registerAgentLoader_Run_def split: prod.splits sum.splits)

interpretation service_loader: runner "grpcServiceLoader_Run V r" for V r
  by unfold_locales (auto simp: grpcServiceLoader_Run_def ask_def split: option.splits)

lemma registerService_returns:
  assumes quits: "quits_from N V"
  shows "\<exists>ok s'. registerService V E s = Some (ok, s') \<and> ss_clock s < ss_clock s' \<and> ss_clock s' \<le> max N (ss_clock s) + 3 \<and>
     (N \<le> ss_clock s \<longrightarrow> \<not> ok \<and> ss_clock s' = Suc (ss_clock s))"
proof -
  obtain r s1 where r: "runUntilSuccess V (registerAgentLoader_Run E) 2 s = Some (r, s1)"
    "ss_clock s < ss_clock s1" "ss_clock s1 \<le> max N (ss_clock s) + 2"
    using register_loader.runUntilSuccess_returns[OF quits] by blast
  have q: "N \<le> ss_clock s \<Longrightarrow> r = None \<and> ss_clock s1 = Suc (ss_clock s)"
    using r(1) quits_fromD[OF quits] by (auto simp: runUntilSuccess_quit)
  show ?thesis
  proof (cases r)
    case None
    then show ?thesis using r q by (force simp: registerService_def)
  next
    case (Some x)
    obtain u s2 where u: "runUntilSuccess V (grpcServiceLoader_Run V x) 2 s1 = Some (u, s2)"
      "ss_clock s1 < ss_clock s2" "ss_clock s2 \<le> max N (ss_clock s1) + 2"
      using service_loader.runUntilSuccess_returns[OF quits] by blast
    have "N \<le> ss_clock s1 \<Longrightarrow> ss_clock s2 = Suc (ss_clock s1)" 
      using u(1) quits_fromD[OF quits] by (auto simp: runUntilSuccess_quit)
    moreover have "\<not> N \<le> ss_clock s" using q Some by auto
    ultimately show ?thesis using r u by (cases "N \<le> ss_clock s1") (auto simp: registerService_def Some split: option.split)
  qed
qed

lemma recv_loop_quit: "sv_quit V (ss_clock s) \<Longrightarrow> recv_loop V E s = Some (s\<lparr>ss_clock := Suc (ss_clock s)\<rparr>)"
  by (subst recv_loop.simps) (simp add: ask_def)

lemma recv_loop_returns:
  assumes quits: "quits_from N V"
  shows "\<exists>s'. recv_loop V E s = Some s' \<and> ss_clock s' \<le> max (N + 3) (ss_clock s) + 1"
proof (induction "N - ss_clock s" arbitrary: s rule: less_induct)
  case less
  show ?case
  proof (cases "sv_quit V (ss_clock s)")
    case True
    then show ?thesis by (simp add: recv_loop_quit)
  next
    case False
    then have c: "ss_clock s < N" using quits_fromD[OF quits] not_le by blast
    let ?s2 = "s\<lparr>ss_clock := Suc (Suc (ss_clock s))\<rparr>"
    show ?thesis
    proof (cases "sv_recv V (Suc (ss_clock s))")
      case (RecvTask task)
      have e: "recv_loop V E s = recv_loop V E (?s2\<lparr>ss_handled := ss_handled s @ [task]\<rparr>)"
        by (subst recv_loop.simps) (simp add: ask_def False RecvTask)
      have "N - ss_clock (?s2\<lparr>ss_handled := ss_handled s @ [task]\<rparr>) < N - ss_clock s" using c by simp
      from less.hyps[OF this] show ?thesis using c unfolding e by fastforce
    next
      case (RecvErr code)
      define s3 where "s3 = wait_for (int (sv_rand V (Suc (Suc (ss_clock s))) mod 3) + 1)
        (s\<lparr>ss_clock := Suc (Suc (Suc (ss_clock s)))\<rparr>)"
      obtain ok s4 where r: "registerService V E s3 = Some (ok, s4)" "ss_clock s3 < ss_clock s4"
        "ss_clock s4 \<le> max N (ss_clock s3) + 3" "N \<le> ss_clock s3 \<longrightarrow> \<not> ok \<and> ss_clock s4 = Suc (ss_clock s3)"
        using registerService_returns[OF quits] by blast
      have s3: "ss_clock s3 = Suc (Suc (Suc (ss_clock s)))" by (simp add: s3_def)
      have e: "recv_loop V E s = (if code = Some Canceled \<or> code = Some UnauthenticatedCode then Some ?s2
          else if \<not> ok then Some s4 else recv_loop V E s4)"
        by (subst recv_loop.simps) (simp add: ask_def False RecvErr r(1)[unfolded s3_def])
      have "N - ss_clock s4 < N - ss_clock s" using c r(2) s3 by simp
      from less.hyps[OF this] obtain s' where s': "recv_loop V E s4 = Some s'" "ss_clock s' \<le> max (N + 3) (ss_clock s4) + 1" by blast
      have "ss_clock s4 \<le> N + 3" using r c s3 by (cases "N \<le> ss_clock s3") auto
      then show ?thesis using s' c unfolding e by auto
    qed
  qed
qed

lemma agent_server_Run_returns:
  assumes quits: "quits_from N V"
  shows "\<exists>s'. agent_server_Run V E s = Some s' \<and> ss_clock s' \<le> max N (ss_clock s) + 4"
proof -
  obtain ok s1 where r: "registerService V E s = Some (ok, s1)" "ss_clock s1 \<le> max N (ss_clock s) + 3"
    using registerService_returns[OF quits] by blast
  obtain s' where "recv_loop V E s1 = Some s'" "ss_clock s' \<le> max (N + 3) (ss_clock s1) + 1"
    using recv_loop_returns[OF quits] by blast
  then show ?thesis using r by (auto simp: agent_server_Run_def)
qed

text \<open>
  C16. The session ends when the agent is told to quit: once the quit context is done, the loop of the
  server returns after at most four more questions to its environment, whatever that answers, in any
  phase of registering, waiting, receiving or registering again.
\<close>

theorem session_ends_after_quit:
  assumes "\<And>n. N \<le> n \<Longrightarrow> sv_quit V n"
  shows "\<exists>s'. agent_server_Run V E s = Some s' \<and> ss_clock s' \<le> max N (ss_clock s) + 4"
  by (rule agent_server_Run_returns) (simp add: quits_from_def assms)

definition quitting_env :: session_env where
  "quitting_env = \<lparr>sv_quit = (\<lambda>n. 3 \<le> n), sv_register = (\<lambda>_. Some (ErrExt ''unavailable'')), sv_recv = (\<lambda>_. RecvErr None),
     sv_rand = (\<lambda>_. 0)\<rparr>"

definition new_session :: session where
  "new_session = \<lparr>ss_clock = 0, ss_world = empty_world, ss_waits = [], ss_registrations = [], ss_handled = []\<rparr>"

theorem session_ends_after_quit_witness: "\<exists>s'. agent_server_Run quitting_env sample_env new_session = Some s' \<and> ss_clock s' \<le> 7"
proof -
  have "sv_quit quitting_env n" if "3 \<le> n" for n using that by (simp add: quitting_env_def)
  from session_ends_after_quit[of 3 quitting_env, OF this, of sample_env new_session] show ?thesis
    by (simp add: new_session_def)
qed

section \<open>Waits\<close>

text \<open>Every wait is at least a second and at most a minute.\<close>

definition short_waits :: "int list \<Rightarrow> bool" where
  "short_waits ws = list_all (\<lambda>n. 1 \<le> n \<and> n \<le> 60) ws"

lemma short_waits_append [simp]: "short_waits (xs @ ys) \<longleftrightarrow> short_waits xs \<and> short_waits ys"
  by (simp add: short_waits_def)

lemma short_waits_growing: "short_waits (map (\<lambda>i. min 60 (2 + int i)) [0..<n])"
  by (simp add: short_waits_def list_all_iff)

lemma registerService_waits:
  assumes "registerService V E s = Some (ok, s')" and "short_waits (ss_waits s)"
  shows "short_waits (ss_waits s')"
proof -
  obtain r s1 where r: "runUntilSuccess V (registerAgentLoader_Run E) 2 s = Some (r, s1)"
    using assms(1) by (auto simp: registerService_def split: option.splits)
  obtain n where "ss_waits s1 = ss_waits s @ map (\<lambda>i. min 60 (2 + int i)) [0..<n]"
    using register_loader.runUntilSuccess_waits[OF r] by blast
  then have s1: "short_waits (ss_waits s1)" using assms(2) short_waits_growing by simp
  show ?thesis
  proof (cases r)
    case None
    then show ?thesis using assms(1) r s1 by (simp add: registerService_def)
  next
    case (Some x)
    then obtain u where u: "runUntilSuccess V (grpcServiceLoader_Run V x) 2 s1 = Some (u, s')"
      using assms(1) r by (auto simp: registerService_def split: option.splits)
    obtain m where "ss_waits s' = ss_waits s1 @ map (\<lambda>i. min 60 (2 + int i)) [0..<m]"
      using service_loader.runUntilSuccess_waits[OF u] by blast
    then show ?thesis using s1 short_waits_growing by simp
  qed
qed

lemma recv_loop_waits: "recv_loop V E s = Some s' \<Longrightarrow> short_waits (ss_waits s) \<longrightarrow> short_waits (ss_waits s')"
proof (induction rule: recv_loop.raw_induct[rotated, consumes 1, case_names 1])
  case (1 rec V E s s')
  show ?case
  proof
    assume w: "short_waits (ss_waits s)"
    obtain quit s1 where a: "ask (sv_quit V) s = (quit, s1)" by fastforce
    obtain r s2 where r: "ask (sv_recv V) s1 = (r, s2)" by fastforce
    have w2: "ss_waits s1 = ss_waits s" "ss_waits s2 = ss_waits s" using a r by (auto simp: ask_def)
    show "short_waits (ss_waits s')"
    proof (cases quit)
      case True
      then show ?thesis using "1.hyps" a w w2 by auto
    next
      case False
      show ?thesis
      proof (cases r)
        case (RecvTask task)
        then have "rec V E (s2\<lparr>ss_handled := ss_handled s2 @ [task]\<rparr>) = Some s'" using False "1.hyps" a r by simp
        from "1.IH"[OF this] show ?thesis using w w2 by simp
      next
        case (RecvErr code)
        obtain n s3 where n: "ask (sv_rand V) s2 = (n, s3)" by fastforce
        have "short_waits (ss_waits (wait_for (int (n mod 3) + 1) s3))"
          using n w w2 by (auto simp: ask_def short_waits_def)
        then have reg: "registerService V E (wait_for (int (n mod 3) + 1) s3) = Some (ok, s4) \<Longrightarrow> short_waits (ss_waits s4)"
          for ok s4 using registerService_waits by blast
        show ?thesis
          using False RecvErr "1.hyps" "1.IH" a r n w w2 reg by (auto split: if_splits option.splits)
      qed
    qed
  qed
qed

text \<open>
  The agent never waits longer than a minute before it tries to register again: in a session that
  ended, every wait is between one and sixty seconds, and the waits of one retry loop are 2, 3, 4 and
  so on up to 60 seconds.
\<close>

theorem session_waits_are_short:
  assumes "agent_server_Run V E new_session = Some s'"
  shows "list_all (\<lambda>n. 1 \<le> n \<and> n \<le> 60) (ss_waits s') \<and>
    (runUntilSuccess V (registerAgentLoader_Run E) 2 s = Some (r, t) \<longrightarrow>
      (\<exists>n. ss_waits t = ss_waits s @ map (\<lambda>i. min 60 (2 + int i)) [0..<n]))"
proof -
  obtain ok s1 where r: "registerService V E new_session = Some (ok, s1)"
    using assms by (auto simp: agent_server_Run_def split: option.splits)
  have "short_waits (ss_waits new_session)" by (simp add: new_session_def short_waits_def)
  from registerService_waits[OF r this] have "short_waits (ss_waits s1)" .
  then have "short_waits (ss_waits s')" using assms r recv_loop_waits by (auto simp: agent_server_Run_def split: if_splits)
  then show ?thesis using register_loader.runUntilSuccess_waits unfolding short_waits_def by blast
qed

lemma quitting_waits: "\<exists>s'. agent_server_Run quitting_env sample_env new_session = Some s' \<and> ss_waits s' = [2]"
proof -
  let ?V = quitting_env and ?s = "new_session\<lparr>ss_clock := Suc (ss_clock new_session)\<rparr>"
  have q: "\<not> sv_quit ?V (ss_clock new_session)" by (simp add: quitting_env_def new_session_def)
  obtain w where "ListDbs sample_env True empty_world = (Inr [], w)"
    by (simp add: ListDbs_def q_ListDbs_def query1_def api_Query_def ext_def sample_env_def empty_world_def)
  then obtain r where l: "registerAgentLoader_Run sample_env ?s = (Some r, ?s\<lparr>ss_world := w\<rparr>)"
    by (simp add: registerAgentLoader_Run_def loadRegisterAgent_def new_session_def)
  let ?s1 = "?s\<lparr>ss_world := w\<rparr>"
  have one: "runUntilSuccess ?V (registerAgentLoader_Run sample_env) 2 new_session = Some (Some r, ?s1)"
    by (simp add: runUntilSuccess_round[where run = "registerAgentLoader_Run sample_env", OF q l])
  have q1: "\<not> sv_quit ?V (ss_clock ?s1)" by (simp add: quitting_env_def new_session_def)
  obtain s2 where g: "grpcServiceLoader_Run ?V r (?s1\<lparr>ss_clock := Suc (ss_clock ?s1)\<rparr>) = (None, s2)"
    and s2: "ss_clock s2 = 3" "ss_waits s2 = []"
    by (simp add: grpcServiceLoader_Run_def ask_def quitting_env_def new_session_def)
  have "runUntilSuccess ?V (grpcServiceLoader_Run ?V r) 2 ?s1 = Some (None, (wait_for 2 s2)\<lparr>ss_clock := Suc (ss_clock s2)\<rparr>)"
    using s2(1) by (simp add: runUntilSuccess_round[where run = "grpcServiceLoader_Run ?V r", OF q1 g]) (simp add: quitting_env_def)
  then have "registerService ?V sample_env new_session = Some (False, (wait_for 2 s2)\<lparr>ss_clock := Suc (ss_clock s2)\<rparr>)"
    using one by (simp add: registerService_def)
  then show ?thesis using s2(2) by (simp add: agent_server_Run_def)
qed

theorem session_waits_are_short_witness:
  "\<exists>s'. agent_server_Run quitting_env sample_env new_session = Some s' \<and> ss_waits s' = [2] \<and>
     list_all (\<lambda>n. 1 \<le> n \<and> n \<le> 60) (ss_waits s')"
proof -
  obtain s' where s': "agent_server_Run quitting_env sample_env new_session = Some s'" and w: "ss_waits s' = [2]"
    using quitting_waits by blast
  from session_waits_are_short[OF s', THEN conjunct1] s' w show ?thesis by blast
qed

section \<open>The token of the agent\<close>

text \<open>The metadata of a call, as the server finds it in the context.\<close>

definition call_context :: "auth_token \<Rightarrow> grpc_ctx" where
  "call_context a = \<lparr>gc_authorization = Some (case GetRequestMetadata a ''authorization'' of None \<Rightarrow> [] | Some v \<Rightarrow> [v]),
     gc_peer = None\<rparr>"

lemma call_context_token: "getToken (JwtTokenFunc (call_context (NewAuthToken token secure))) = Inr token"
  by (simp add: call_context_def GetRequestMetadata_def NewAuthToken_def JwtTokenFunc_def getToken_def del: append_Cons)

lemma jwt_auth_Parse_accepts:
  assumes "getToken header = Inr token" and "jwt_alg J token = Inr alg"
    and "cache_ok (jwt_load_public_key J) (jc_verify_key c)"
    and "direct_key (jwt_load_public_key J) (jc_verify_key c) alg = Ok key" and "jwt_verify J key token = Inr (cl, True)"
    and "FromClaims (jwt_subject J) (jwt_audience J) cl (new_auth_info True True) = a"
    and "ai_Subject a \<noteq> []" and "jc_Audience c \<in> set (ai_Audiences a)"
  shows "fst (jwt_auth_Parse J header c) = Ok (Some a)"
proof -
  obtain r k where l: "LoadVerifyKey (jwt_load_public_key J) alg (jc_verify_key c) = (r, k)" by fastforce
  have "r = Ok key" using LoadVerifyKey_direct(1)[OF assms(3), of alg] assms(4) l by simp
  then have "jwt_Parse J token (jc_verify_key c) = (Ok (cl, True), k)" using assms(2,5) l by (simp add: jwt_Parse_def)
  then show ?thesis
    using assms(1,6-8) by (simp add: jwt_auth_Parse_def jwt_Validate_def info_Validate_def ValidateAudience_def list_ex_iff Let_def)
qed

lemma single_auth_accepts:
  assumes "jc_Enabled (ac_Jwt cfg)" and "\<not> mc_Enabled (ac_Mtls cfg)"
    and "fst (jwt_auth_Parse J (token ctx) (ac_Jwt cfg)) = Ok (Some a)"
  shows "fst (Auth_Parse (auth_apis J token cert cfg ctx) cfg) = Ok a"
  using assms by (auto simp: Auth_Parse_def auth_apis_def split: prod.split)

lemma Register_begin_accepts:
  assumes "ValidateScope a ''agent''" and "ValidateResource a (''dbInstance:'' @ ri_Name r)"
    and "case mg_Instances m (ri_Name r) of None \<Rightarrow> True | Some i \<Rightarrow> in_PgVersion i = ri_PgVersion r"
    and "mgr_wf m"
  shows "\<exists>m' i. Register_begin order (Some a) r m = (Inr (ri_Name r), m') \<and>
    mg_Instances m' (ri_Name r) = Some i \<and> in_Online i"
proof -
  obtain i m1 where n: "NewInstance (ri_Name r) (ri_PgVersion r) m = (Inr i, m1)"
    using assms(3) by (auto simp: NewInstance_def GetInstance_def Let_def split: option.splits)
  have nm: "in_Name i = ri_Name r" using NewInstance_wf[OF assms(4) n] by simp
  obtain names a1 where u: "UpdateDatabases (ri_Databases r) i = (names, a1)" by fastforce
  have "in_Name a1 = ri_Name r" using UpdateDatabases_wf[OF u] nm by (simp add: same_inst_def)
  then show ?thesis using assms(1,2) n u nm
    by (simp add: Register_begin_def LoadAuthInfo_def inst_OnStatusChanged_eq set_instance_def Let_def del: append_Cons)
qed

text \<open>
  C15. An agent with a token that \<open>genjwt\<close> issued for its instance gets in: when the token file holds
  the token, up to spaces, and the server verifies it with the key of its algorithm, the call of the
  agent passes the interceptor's \<open>Parse\<close> and the registration of the instance is accepted and puts it
  online. The hypotheses on the library are its documented reading of registered claims and that the
  signature of the token verifies.
\<close>

theorem agent_token_registers:
  assumes "read_file (gc_AuthTokenFile g) = Inr (u @ token @ v)"
    and "list_all is_space u" and "list_all is_space v" and "\<not> list_ex is_space token"
    and "AuthToken read_file g = Inr t"
    and "jwt_alg J token = Inr alg" and "cache_ok (jwt_load_public_key J) (jc_verify_key (ac_Jwt cfg))"
    and "direct_key (jwt_load_public_key J) (jc_verify_key (ac_Jwt cfg)) alg = Ok key"
    and "jwt_verify J key token = Inr (genjwt_claims ns jti cmd, True)"
    and "\<And>c s. c ''sub'' = Some (ClaimString s) \<Longrightarrow> jwt_subject J c = Inr s"
    and "\<And>c xs. c ''aud'' = Some (ClaimStrings xs) \<Longrightarrow> jwt_audience J c = Inr xs"
    and "\<And>c. c ''aud'' = None \<Longrightarrow> jwt_audience J c = Inr []"
    and "jc_Enabled (ac_Jwt cfg)" and "\<not> mc_Enabled (ac_Mtls cfg)"
    and "gj_Subject cmd \<noteq> []" and "jc_Audience (ac_Jwt cfg) \<in> set (gj_Audiences cmd)"
    and "gj_Scopes cmd = [''agent'']" and "gj_Resources cmd = [''dbInstance:'' @ ri_Name r]"
    and "CHR '' '' \<notin> set (ri_Name r)"
    and "mgr_wf m" and "case mg_Instances m (ri_Name r) of None \<Rightarrow> True | Some i \<Rightarrow> in_PgVersion i = ri_PgVersion r"
  shows "\<exists>a. fst (GrpcAuth_Parse J (call_context (NewAuthToken t secure)) cfg) = Ok a \<and>
    (\<exists>m' i. Register_begin order (Some a) r m = (Inr (ri_Name r), m') \<and> mg_Instances m' (ri_Name r) = Some i \<and> in_Online i)"
proof -
  define a where "a = \<lparr>ai_Subject = gj_Subject cmd, ai_Audiences = gj_Audiences cmd, ai_ScopeEnabled = True,
    ai_Scopes = gj_Scopes cmd, ai_ResourceEnabled = True, ai_Resources = gj_Resources cmd, ai_Uuid = jti\<rparr>"
  have t: "t = token" using assms(1,5) TrimSpace_plain[OF assms(2-4)] by (simp add: AuthToken_def)
  have "plain_names (gj_Scopes cmd)" "plain_names (gj_Resources cmd)"
    using assms(19) by (simp_all add: plain_names_def assms(17,18))
  from FromClaims_genjwt[OF assms(10-12) this, where ns = ns and jti = jti]
  have a: "FromClaims (jwt_subject J) (jwt_audience J) (genjwt_claims ns jti cmd) (new_auth_info True True) = a"
    using assms(15) by (simp add: a_def)
  have "fst (jwt_auth_Parse J (JwtTokenFunc (call_context (NewAuthToken t secure))) (ac_Jwt cfg)) = Ok (Some a)"
    by (rule jwt_auth_Parse_accepts[OF _ assms(6-9) a]) (simp_all add: call_context_token t a_def assms(15,16))
  from single_auth_accepts[where token = JwtTokenFunc, OF assms(13,14) this] have "fst (GrpcAuth_Parse J (call_context (NewAuthToken t secure)) cfg) = Ok a"
    by (simp add: GrpcAuth_Parse_def)
  moreover have "ValidateScope a ''agent''" "ValidateResource a (''dbInstance:'' @ ri_Name r)"
    by (simp_all add: a_def ValidateScope_def ValidateResource_def assms(17,18))
  ultimately show ?thesis using Register_begin_accepts[OF _ _ assms(21,20)] by blast
qed

definition agent_genjwt :: genjwt_cmd where
  "agent_genjwt = \<lparr>gj_Subject = ''agent'', gj_Audiences = [''pg-helper''], gj_Scopes = [''agent''],
     gj_Resources = [''dbInstance:pg-16'']\<rparr>"

definition agent_lib :: "nat jwt_lib" where
  "agent_lib = sample_lib\<lparr>jwt_verify := (\<lambda>k t. if t = ''good'' then Inr (genjwt_claims [] ''1'' agent_genjwt, True)
     else Inl (ErrExt ''signature is invalid''))\<rparr>"

definition agent_client :: grpc_client_config where
  "agent_client = \<lparr>gc_Tls = \<lparr>at_Enabled = False, at_ClientTrustedCaCerts = [], at_MTLSEnabled = False, at_ClientCert = [],
     at_ClientKey = []\<rparr>, gc_Url = ''dns:///server:443'', gc_ServerName = [], gc_AuthTokenFile = ''token''\<rparr>"

theorem agent_token_registers_witness:
  "\<exists>a m'. fst (GrpcAuth_Parse agent_lib (call_context (NewAuthToken ''good'' False)) sample_auth) = Ok a \<and>
     Register_begin [] (Some a) \<lparr>ri_Name = ''pg-16'', ri_PgVersion = 16, ri_Databases = []\<rparr> NewDbInstanceManager = (Inr ''pg-16'', m')"
proof -
  let ?r = "\<lparr>ri_Name = ''pg-16'', ri_PgVersion = 16, ri_Databases = []\<rparr> :: register_instance"
  have wf: "mgr_wf NewDbInstanceManager" by (simp add: mgr_wf_def NewDbInstanceManager_def)
  have key: "direct_key (jwt_load_public_key agent_lib) (jc_verify_key (ac_Jwt sample_auth)) ''EdDSA'' = Ok 7"
    and tok: "AuthToken (\<lambda>_. Inr ''good '') agent_client = Inr ''good''" and sp: "list_all is_space '' ''" "\<not> list_ex is_space ''good''"
    by code_simp+
  have "\<exists>a. fst (GrpcAuth_Parse agent_lib (call_context (NewAuthToken ''good'' False)) sample_auth) = Ok a \<and>
    (\<exists>m' i. Register_begin [] (Some a) ?r NewDbInstanceManager = (Inr (ri_Name ?r), m') \<and>
       mg_Instances m' (ri_Name ?r) = Some i \<and> in_Online i)"
    by (rule agent_token_registers[where u = "[]" and token = "''good''" and v = "'' ''" and g = agent_client
          and read_file = "\<lambda>_. Inr ''good ''" and alg = "''EdDSA''" and key = 7 and ns = "[]" and jti = "''1''" and cmd = agent_genjwt])
      (use wf key tok sp sample_cache_ok in \<open>simp_all add: agent_lib_def sample_lib_def agent_genjwt_def sample_auth_def NewDbInstanceManager_def\<close>)
  then show ?thesis by auto
qed

end
