(* ===== verification/Registration.thy ===== *)
theory Registration
  imports Agent_Server Source_Manager Sample_Env
begin

text \<open>
  What the server knows of an instance once its agent has registered, against the agent's table: the
  rows the agent lists (\<open>agent_server.go\<close>), their wire form, and the update of the records of the
  instance (\<open>svc_register.go\<close>, \<open>db-instance.go\<close>).
\<close>

section \<open>The message on its way\<close>

text \<open>The receiving side allocates the timestamps anew; without the addresses the messages are the same.\<close>

definition without_pointers :: "server_db \<Rightarrow> time proto_database" where
  "without_pointers d =
     \<lparr>pd_Name = pd_Name d, pd_Owner = pd_Owner d, pd_MigrateFrom = pd_MigrateFrom d, pd_MigrateTo = pd_MigrateTo d,
      pd_Stage = pd_Stage d, pd_Status = pd_Status d,
      pd_CreatedAt = map_option snd (pd_CreatedAt d), pd_UpdatedAt = map_option snd (pd_UpdatedAt d),
      pd_ExpiredAt = map_option snd (pd_ExpiredAt d),
      pd_InstanceName = pd_InstanceName d, pd_ErrorMsg = pd_ErrorMsg d, pd_LastJobId = pd_LastJobId d\<rparr>"

definition delivered :: "time proto_database option list \<Rightarrow> server_db list \<Rightarrow> bool" where
  "delivered sent got \<longleftrightarrow> map (\<lambda>d. Some (without_pointers d)) got = sent"

text \<open>No received timestamp has the address of the one the instance holds for the same database.\<close>

definition fresh_pointers :: "db_instance \<Rightarrow> server_db list \<Rightarrow> bool" where
  "fresh_pointers a got \<longleftrightarrow>
     (\<forall>d\<in>set got. case in_Databases a (pd_Name d) of None \<Rightarrow> True
        | Some r \<Rightarrow> ptr_of (pd_UpdatedAt d) \<noteq> ptr_of (pd_UpdatedAt r))"

section \<open>Updating the records\<close>

definition changed_from :: "db_instance \<Rightarrow> server_db \<Rightarrow> bool" where
  "changed_from a d \<longleftrightarrow> (pd_Stage d, pd_Status d) \<noteq> (pd_Stage (known_db a (pd_Name d)), pd_Status (known_db a (pd_Name d)))"

lemma UpdateDatabase_fresh:
  assumes "UpdateDatabase d a = (changed, b)" and "pd_UpdatedAt d \<noteq> None" and "fresh_pointers a [d]"
  shows "changed = changed_from a d \<and> in_Databases b = (in_Databases a)(pd_Name d \<mapsto> d)"
proof -
  obtain r where r: "in_Databases a (pd_Name d) = Some r \<or> in_Databases a (pd_Name d) = None \<and> r = NewDatabase"
    and c: "changed = fst (Database_Update r d)" and i: "in_Databases b = (in_Databases a)(pd_Name d \<mapsto> snd (Database_Update r d))"
    using assms(1) by (rule UpdateDatabase_eq)
  have k: "known_db a (pd_Name d) = r" using r by (auto simp: known_db_def)
  have "ptr_of (pd_UpdatedAt d) \<noteq> ptr_of (pd_UpdatedAt r)"
    using r assms(2,3) by (auto simp: fresh_pointers_def NewDatabase_def zero_proto_def)
  then have "Database_Update r d = (changed_from a d, d)" by (auto simp: Database_Update_def changed_from_def k)
  with c i show ?thesis by simp
qed

text \<open>Records with names of their own do not meet.\<close>

lemma UpdateDatabases_fresh:
  assumes "UpdateDatabases ds a = (names, b)" and "distinct (map pd_Name ds)" and "None \<notin> pd_UpdatedAt ` set ds"
    and "fresh_pointers a ds"
  shows "names = map pd_Name (filter (changed_from a) ds) \<and>
    in_Databases b = in_Databases a ++ map_of (map (\<lambda>d. (pd_Name d, d)) ds)"
  using assms
proof (induction ds arbitrary: a names)
  case (Cons d ds)
  obtain ch c where c: "UpdateDatabase d a = (ch, c)" by fastforce
  obtain ns where ns: "UpdateDatabases ds c = (ns, b)" "names = (if ch then pd_Name d # ns else ns)"
    using Cons.prems(1) c by (auto split: prod.splits)
  have "pd_UpdatedAt d \<noteq> None" using Cons.prems(3) by (cases "pd_UpdatedAt d") simp_all
  moreover have "fresh_pointers a [d]"
    unfolding fresh_pointers_def by (intro ballI) (use Cons.prems(4) in \<open>auto simp: fresh_pointers_def\<close>)
  ultimately have d: "ch = changed_from a d" "in_Databases c = (in_Databases a)(pd_Name d \<mapsto> d)"
    using UpdateDatabase_fresh[OF c] by simp_all
  have other: "in_Databases c (pd_Name x) = in_Databases a (pd_Name x)" if "x \<in> set ds" for x
    using imageI[OF that, of pd_Name] Cons.prems(2) by (auto simp: d(2))
  then have "fresh_pointers c ds" using Cons.prems(4) by (simp add: fresh_pointers_def)
  then have ih: "ns = map pd_Name (filter (changed_from c) ds)" "in_Databases b = in_Databases c ++ map_of (map (\<lambda>d. (pd_Name d, d)) ds)"
    using Cons.IH[OF ns(1)] Cons.prems(2,3) by simp_all
  have "filter (changed_from c) ds = filter (changed_from a) ds"
    by (rule filter_cong) (simp_all add: changed_from_def known_db_def other)
  moreover have "pd_Name d \<notin> dom (map_of (map (\<lambda>d. (pd_Name d, d)) ds))"
    using Cons.prems(2) by (simp add: dom_map_of_conv_image_fst image_image)
  then have "in_Databases b = in_Databases a ++ map_of (map (\<lambda>d. (pd_Name d, d)) (d # ds))"
    by (simp only: ih(2) d(2) map_add_upd_left map_add_upd list.map map_of.simps fst_conv snd_conv not_False_eq_True)
  ultimately show ?case using ih(1) ns(2) d(1) by (intro conjI) (simp, assumption)
qed simp

section \<open>The registration\<close>

definition instance_before :: "manager \<Rightarrow> agent_registration \<Rightarrow> db_instance" where
  "instance_before m g =
     (case mg_Instances m (ag_Name g) of Some a \<Rightarrow> a | None \<Rightarrow> NewDbInstance (ag_Name g) (ag_PgVersion g))"

definition registration_of :: "agent_registration \<Rightarrow> server_db list \<Rightarrow> register_instance" where
  "registration_of g dbs = \<lparr>ri_Name = ag_Name g, ri_PgVersion = ag_PgVersion g, ri_Databases = dbs\<rparr>"

lemma Register_begin_records:
  assumes "Register_begin order info (registration_of g dbs) m = (Inr inst, m')" and "mgr_wf m"
  obtains names a1 where "UpdateDatabases dbs (instance_before m g) = (names, a1)" and "inst = ag_Name g"
    and "mg_Instances m' = (mg_Instances m)(inst \<mapsto> a1\<lparr>in_Online := True\<rparr>)" and "in_Name a1 = inst" and "in_PgVersion a1 = ag_PgVersion g"
    and "mg_spawned m' = mg_spawned m @ map (GoDbStatus inst) names"
proof -
  from assms(1) obtain a m1 names a1 where n: "NewInstance (ag_Name g) (ag_PgVersion g) m = (Inr a, m1)"
    and u: "UpdateDatabases dbs a = (names, a1)" and inst: "inst = in_Name a"
    and m': "m' = inst_OnStatusChanged order (a1\<lparr>in_Online := True\<rparr>)
      ((set_instance (a1\<lparr>in_Online := True\<rparr>) m1)\<lparr>mg_spawned := mg_spawned m1 @ map (GoDbStatus (in_Name a)) names\<rparr>)"
    by (rule Register_begin_ok) (simp add: registration_of_def)
  have a: "a = instance_before m g" "in_PgVersion a = ag_PgVersion g" "mg_spawned m1 = mg_spawned m"
    using n by (auto simp: NewInstance_def GetInstance_def instance_before_def NewDbInstance_def Let_def set_instance_def
        split: option.splits if_splits)
  have nm: "in_Name a = ag_Name g" using NewInstance_wf[OF assms(2) n] by simp
  have same: "in_Name a1 = inst" "in_PgVersion a1 = ag_PgVersion g"
    using UpdateDatabases_wf[OF u] a(2) inst by (simp_all add: same_inst_def)
  have "mg_Instances m1 = (mg_Instances m)(inst := mg_Instances m1 inst)"
    using n by (auto simp: NewInstance_def GetInstance_def NewDbInstance_def Let_def set_instance_def inst
        split: option.splits if_splits)
  then have "mg_Instances m' = (mg_Instances m)(inst \<mapsto> a1\<lparr>in_Online := True\<rparr>)" "mg_spawned m' = mg_spawned m @ map (GoDbStatus inst) names"
    using same(1) by (auto simp: fun_eq_iff m' inst_OnStatusChanged_eq set_instance_def a(3) inst)
  then show ?thesis using that[of names a1] u a(1) nm inst same by simp
qed

text \<open>What the agent sends, and what the server decodes from it.\<close>

abbreviation listed :: "agent_world \<Rightarrow> db_row list" where
  "listed w \<equiv> sort_key (\<lambda>r. (db_Status r, db_Name r)) (w_dbs w)"

lemma loadRegisterAgent_listed:
  assumes "loadRegisterAgent E w = (Inr g, w1)" and "env_fault E (w_calls w) = None" and "env_fault E (Suc (w_calls w)) = None"
  shows "ag_Databases g = ToProtoDatabases E (listed w) \<and> ag_Name g = cfg_InstanceName (env_cfg E) \<and> ag_PgVersion g = cfg_CurrentVersion (env_cfg E)"
  using assms by (auto simp: loadRegisterAgent_def ListDbs_def api_Query_def ext_def q_ListDbs_def query1_def)

definition row_message :: "db_row \<Rightarrow> server_db \<Rightarrow> bool" where
  "row_message r d \<longleftrightarrow> pd_Name d = db_Name r \<and> pd_Stage d = db_Stage r \<and> pd_Status d = db_Status r \<and>
     map_option snd (pd_UpdatedAt d) = Some (db_UpdatedAt r)"

lemma list_all2_find: "list_all2 P xs ys \<Longrightarrow> x \<in> set xs \<Longrightarrow> \<exists>y\<in>set ys. P x y"
  by (induction rule: list_all2_induct) auto

lemma delivered_rows:
  assumes "delivered (ToProtoDatabases E rows) dbs"
  shows "list_all2 row_message rows dbs"
  using assms
proof (induction rows arbitrary: dbs)
  case (Cons r rows)
  then obtain d ds where "dbs = d # ds" by (cases dbs) (simp_all add: delivered_def ToProtoDatabases_def)
  with Cons show ?case
    by (simp add: delivered_def ToProtoDatabases_def ToProto_def without_pointers_def pgTimestampToProto_def row_message_def)
qed (simp add: delivered_def ToProtoDatabases_def)

lemma delivered_filter:
  assumes "list_all2 row_message rows dbs"
  shows "map pd_Name dbs = map db_Name rows" and "None \<notin> pd_UpdatedAt ` set dbs"
    and "map pd_Name (filter (changed_from a) dbs) = map db_Name (filter (\<lambda>r. (db_Stage r, db_Status r) \<noteq>
      (pd_Stage (known_db a (db_Name r)), pd_Status (known_db a (db_Name r)))) rows)"
  using assms by (induction rows dbs rule: list_all2_induct) (auto simp: changed_from_def row_message_def)

text \<open>The answer of the server that describes a row of the agent of the instance.\<close>

definition row_status :: "string \<Rightarrow> 32 word \<Rightarrow> db_row \<Rightarrow> DbStatusResponse" where
  "row_status inst version r =
     \<lparr>ds_Name = db_Name r, ds_Stage = stage_string (db_Stage r), ds_Status = status_string (db_Status r),
      ds_UpdatedAt = db_UpdatedAt r, ds_ErrorMsg = [], ds_InstanceName = inst, ds_Version = version\<rparr>"


text \<open>A row of the agent, and the message the server decodes from it.\<close>

definition app_row :: db_row where
  "app_row = \<lparr>db_ID = 1, db_Name = ''app'', db_Owner = ''app'', db_CreatedAt = 3, db_UpdatedAt = 5, db_ExpiredAt = None,
     db_MigrateFrom = [], db_MigrateTo = [], db_Status = DbStatus_Done, db_Stage = DbStage_ReadyToUse, db_ErrorMsg = [], db_LastJobID = 0\<rparr>"

definition app_message :: server_db where
  "app_message = \<lparr>pd_Name = ''app'', pd_Owner = ''app'', pd_MigrateFrom = [], pd_MigrateTo = [],
     pd_Stage = DbStage_ReadyToUse, pd_Status = DbStatus_Done, pd_CreatedAt = Some (1, 3), pd_UpdatedAt = Some (2, 5),
     pd_ExpiredAt = None, pd_InstanceName = [], pd_ErrorMsg = [], pd_LastJobId = UuidToString (\<lambda>u. ''id'') 0\<rparr>"

definition app_world :: agent_world where
  "app_world = empty_world\<lparr>w_dbs := [app_row], w_next_id := 2\<rparr>"

lemma app_registration:
  "\<exists>g w1. loadRegisterAgent sample_env app_world = (Inr g, w1) \<and> delivered (ag_Databases g) [app_message] \<and>
     ag_Name g = ''pg-16'' \<and> ag_PgVersion g = 16"
  by (simp add: loadRegisterAgent_def ListDbs_def api_Query_def ext_def q_ListDbs_def query1_def sample_env_def sample_cfg_def
      app_world_def empty_world_def app_row_def app_message_def delivered_def ToProtoDatabases_def ToProto_def
      without_pointers_def pgTimestampToProto_def)


end
