(* ===== verification/Closed_Loop.thy ===== *)
theory Closed_Loop
  imports Whole_Path Delivery Registration Reports
begin

text \<open>
  The loop closed: the file, the source, the job, the agent, its reports, the server's goroutines, and the
  source again.
\<close>

section \<open>The reports of a run\<close>

text \<open>Every report the agent makes names its instance and has the time of its last update.\<close>

interpretation reports_since: request_invariant
  "\<lambda>w. \<exists>ms. w_notified w = old @ ms \<and> (\<forall>p\<in>set ms. pd_InstanceName p = cfg_InstanceName (env_cfg E) \<and> pd_UpdatedAt p \<noteq> None)"
  E "\<lambda>_ _. True" for E old
proof
  fix w d now
  assume *: "\<exists>ms. w_notified w = old @ ms \<and> (\<forall>p\<in>set ms. pd_InstanceName p = cfg_InstanceName (env_cfg E) \<and> pd_UpdatedAt p \<noteq> None)"
  have p: "pd_UpdatedAt (proto_of E d) \<noteq> None" for d by (simp add: proto_of_def ToProto_def pgTimestampToProto_def)
  show "\<exists>ms. w_notified (w\<lparr>w_notified := w_notified w @ [proto_of E d]\<rparr>) = old @ ms \<and>
      (\<forall>p\<in>set ms. pd_InstanceName p = cfg_InstanceName (env_cfg E) \<and> pd_UpdatedAt p \<noteq> None)"
    using * p by auto
  show "\<exists>ms. w_notified (w\<lparr>w_dbs := put_db d now (w_dbs w), w_notified := w_notified w @ [proto_of E (d\<lparr>db_UpdatedAt := now\<rparr>)]\<rparr>) = old @ ms \<and>
      (\<forall>p\<in>set ms. pd_InstanceName p = cfg_InstanceName (env_cfg E) \<and> pd_UpdatedAt p \<noteq> None)"
    using * p by auto
qed (auto simp: same_tables_def)

definition new_reports :: "agent_world \<Rightarrow> agent_world \<Rightarrow> time proto_database list" where
  "new_reports w w' = drop (length (w_notified w)) (w_notified w')"

lemma create_Process_notified:
  assumes "create_Process E r w = (res, w')"
  shows "w_notified w' = w_notified w"
proof -
  have "w_notified (snd (api_QueryWithRollback E (create_process E r) w)) = w_notified w"
    using create_process_silent[of E r "w\<lparr>w_calls := Suc (Suc (w_calls w))\<rparr>"]
    by (auto simp: api_QueryWithRollback_def ext_def split: option.split prod.split)
  then show ?thesis using assms by (auto simp: create_Process_def split: option.splits)
qed

lemma new_reports_of_run:
  assumes "GrpcAgentHandler_handle up A job w = (Ok (Some sj), w1)" and "dj_Job job = DbJob_CreateDatabase d"
    and "st = drive k A (start_job A sj w1)"
  shows "w_notified (js_world st) = w_notified w @ new_reports w (js_world st)"
    and "\<forall>p\<in>set (new_reports w (js_world st)). pd_InstanceName p = cfg_InstanceName (env_cfg A) \<and> pd_UpdatedAt p \<noteq> None"
proof -
  have "w_notified w1 = w_notified w" using assms(1,2) by (simp add: GrpcAgentHandler_handle_def create_Process_notified)
  then have "\<exists>ms. w_notified w1 = w_notified w @ ms \<and>
      (\<forall>p\<in>set ms. pd_InstanceName p = cfg_InstanceName (env_cfg A) \<and> pd_UpdatedAt p \<noteq> None)" by simp
  from reports_since.inv_drive[OF reports_since.inv_start_job[OF this, of sj], of k]
  obtain ms where "w_notified (js_world st) = w_notified w @ ms"
      "\<forall>p\<in>set ms. pd_InstanceName p = cfg_InstanceName (env_cfg A) \<and> pd_UpdatedAt p \<noteq> None"
    unfolding assms(3) by auto
  then show "w_notified (js_world st) = w_notified w @ new_reports w (js_world st)"
      "\<forall>p\<in>set (new_reports w (js_world st)). pd_InstanceName p = cfg_InstanceName (env_cfg A) \<and> pd_UpdatedAt p \<noteq> None"
    by (simp_all add: new_reports_def)
qed

section \<open>The messages the server decodes\<close>

lemma without_pointers_fields [simp]:
  "pd_Name (without_pointers d) = pd_Name d" "pd_InstanceName (without_pointers d) = pd_InstanceName d"
  "pd_Stage (without_pointers d) = pd_Stage d" "pd_Status (without_pointers d) = pd_Status d"
  "pd_UpdatedAt (without_pointers d) = map_option snd (pd_UpdatedAt d)"
  by (simp_all add: without_pointers_def)

text \<open>The timestamps of the messages about a database have addresses of their own.\<close>

definition own_pointers :: "string \<Rightarrow> server_db list \<Rightarrow> bool" where
  "own_pointers name ds \<longleftrightarrow> distinct (map (\<lambda>d. ptr_of (pd_UpdatedAt d)) (filter (\<lambda>d. pd_Name d = name) ds))"

lemma delivered_eq:
  assumes "delivered (map Some ms) ds"
  shows "ms = map without_pointers ds"
proof -
  have "map the (map (\<lambda>d. Some (without_pointers d)) ds) = map the (map Some ms)" using assms by (simp only: delivered_def)
  then show ?thesis by (simp add: comp_def)
qed

lemma delivered_last:
  assumes "delivered (map Some ms) ds" and "last_report ms name = Some p"
  shows "filter (\<lambda>d. pd_Name d = name) ds \<noteq> []" and "without_pointers (last (filter (\<lambda>d. pd_Name d = name) ds)) = p"
proof -
  note ms = delivered_eq[OF assms(1)]
  have "last_report (map without_pointers ds) name = (if filter (\<lambda>d. pd_Name d = name) ds = [] then None
      else Some (without_pointers (last (filter (\<lambda>d. pd_Name d = name) ds))))"
    by (induction ds rule: rev_induct) (simp_all add: last_report_def)
  then show "filter (\<lambda>d. pd_Name d = name) ds \<noteq> []" "without_pointers (last (filter (\<lambda>d. pd_Name d = name) ds)) = p"
    using assms(2) ms by (simp_all split: if_splits)
qed

text \<open>Decoding each message into memory of its own gives such messages.\<close>

definition decoded :: "nat \<Rightarrow> time proto_database \<Rightarrow> server_db" where
  "decoded k p = \<lparr>pd_Name = pd_Name p, pd_Owner = pd_Owner p, pd_MigrateFrom = pd_MigrateFrom p, pd_MigrateTo = pd_MigrateTo p,
      pd_Stage = pd_Stage p, pd_Status = pd_Status p, pd_CreatedAt = map_option (Pair k) (pd_CreatedAt p),
      pd_UpdatedAt = map_option (Pair k) (pd_UpdatedAt p), pd_ExpiredAt = map_option (Pair k) (pd_ExpiredAt p),
      pd_InstanceName = pd_InstanceName p, pd_ErrorMsg = pd_ErrorMsg p, pd_LastJobId = pd_LastJobId p\<rparr>"

lemma without_pointers_decoded [simp]: "without_pointers (decoded k p) = p"
  by (simp add: without_pointers_def decoded_def option.map_comp comp_def option.map_ident)

lemma decoded_delivered:
  assumes "\<forall>p\<in>set ms. pd_UpdatedAt p \<noteq> None" and "ds = map (\<lambda>(k, p). decoded k p) (enumerate 0 ms)"
  shows "delivered (map Some ms) ds" and "own_pointers name ds"
proof -
  have "map (\<lambda>d. Some (without_pointers d)) ds = map Some (map snd (enumerate 0 ms))"
    unfolding assms(2) by (simp add: split_beta comp_def del: map_snd_enumerate)
  then show "delivered (map Some ms) ds" by (simp add: delivered_def)
  have "ptr_of (pd_UpdatedAt (decoded k p)) = Some k" if "(k, p) \<in> set (enumerate 0 ms)" for k p
    using assms(1) in_set_enumerate_eq[of "(k, p)" 0 ms] that by (auto simp: decoded_def)
  then have "map (\<lambda>d. ptr_of (pd_UpdatedAt d)) ds = map Some (map fst (enumerate 0 ms))"
    unfolding assms(2) map_map by (intro map_cong refl) (auto simp: comp_def)
  then have "distinct (map (\<lambda>d. ptr_of (pd_UpdatedAt d)) ds)" by (simp add: distinct_map)
  then show "own_pointers name ds" unfolding own_pointers_def by (rule List.distinct_map_filter)
qed

lemma last_report_append: "last_report (xs @ ys) n = (case last_report ys n of None \<Rightarrow> last_report xs n | Some p \<Rightarrow> Some p)"
  by (induction ys rule: rev_induct) (simp_all add: last_report_def flip: append_assoc)

section \<open>From a file to a ready source\<close>

text \<open>The file declares a database the source handler does not know, without a migration.\<close>

definition file_declares :: "manager_view source_env \<Rightarrow> file_system \<Rightarrow> manager_view file_source \<Rightarrow> string \<Rightarrow> DatabaseRequest \<Rightarrow> string \<Rightarrow> bool" where
  "file_declares E F f path q password \<longleftrightarrow> has_suffix path ''.yaml'' \<and> LoadYaml F path = Inr q \<and>
     se_validate E (new_file_source q) = None \<and> sh_Databases (fh_handler f) (rq_Name q) = None \<and> refs_old f \<and>
     rq_InstanceName q \<noteq> [] \<and> rq_MigrateFrom q = [] \<and> PasswordContent (se_read_trimmed E) q = Inr password"

text \<open>The server has the instance online, and the source handler subscribed once.\<close>

definition server_awaits :: "manager_view source_env \<Rightarrow> manager_view \<Rightarrow> string \<Rightarrow> string \<Rightarrow> db_instance \<Rightarrow> bool" where
  "server_awaits E v inst name a \<longleftrightarrow> se_GetDbStatus E = view_GetDbStatus \<and> se_CreateDb E = view_CreateDb \<and> view_ok v \<and>
     source_subscribed (mv_manager v) \<and> mg_Instances (mv_manager v) inst = Some a \<and> in_Online a \<and> in_Databases a name = None"

text \<open>The agent of the instance answers, and the database is new to it.\<close>

definition agent_answers :: "agent_env \<Rightarrow> agent_world \<Rightarrow> string \<Rightarrow> string \<Rightarrow> bool" where
  "agent_answers A w inst name \<longleftrightarrow> healthy A \<and> cfg_tmpl (env_cfg A) \<noteq> None \<and> cfg_InstanceName (env_cfg A) = inst \<and>
     fresh_uuids A w 10 \<and> wf_world w \<and> reported A w \<and> \<not> IsReservedName (env_cfg A) name \<and>
     sel_by db_Name name (w_dbs w) = None \<and> last_report (w_notified w) name = None"

lemma new_file_registered:
  assumes "has_suffix path ''.yaml''" and "LoadYaml F path = Inr q" and "se_validate E (new_file_source q) = None"
    and "sh_Databases (fh_handler f) (rq_Name q) = None" and "g = FileSource_Handle E F 1 path f"
  shows "sh_Databases (fh_handler g) = (sh_Databases (fh_handler f))(rq_Name q \<mapsto> fh_next f)"
  using assms by (simp add: FileSource_Handle_def loadDatabaseSourceFromFile_def AddDatabaseSource_def put_source_def
      new_file_source_def spawn_def Let_def)

text \<open>The state of the server once the creation was sent, and the reports of the run on their way.\<close>

lemma sent_creation_settles:
  assumes "mgr_wf m" and "source_subscribed m" and "mg_Instances m inst = Some a" and "in_Databases a name = None" and "granted_agent inst info"
    and s: "server_manager s = set_instance b m" "same_inst a b" "in_Databases b = (in_Databases a)(name \<mapsto> NewDatabase)"
      "\<And>n. sh_Databases s n = Some r \<longleftrightarrow> n = name" "so_InstanceName (sh_heap s r) = inst" "so_ExpectState (sh_heap s r) = SourceStateReady"
    and "delivered (map Some ms) ds" and "own_pointers name ds"
    and ms: "\<forall>p\<in>set ms. pd_InstanceName p = inst \<and> pd_UpdatedAt p \<noteq> None" "last_report ms name = Some p"
    and p: "pd_Stage p = DbStage_ReadyToUse" "pd_Status p = DbStatus_Done"
  shows "settling inst name r info (ds, s)"
proof -
  have a: "in_Name a = inst" "inst_wf a" using mgr_wfD[OF assms(1,3)] by simp_all
  have b: "in_Name b = inst" "inst_wf b" using a s(2,3) inst_wf_upd[OF a(2), of NewDatabase name b] by (auto simp: same_inst_def)
  have rec: "server_record inst name (server_manager s) = NewDatabase"
    using b s(1,3) by (simp add: server_record_def set_instance_def known_db_def)
  have dsm: "pd_InstanceName d = inst \<and> pd_UpdatedAt d \<noteq> None" if "d \<in> set ds" for d
  proof -
    have "without_pointers d \<in> set ms" using that delivered_eq[OF assms(12)] by simp
    then show ?thesis using ms(1) by (metis map_option_is_None without_pointers_fields(2,5))
  qed
  note l = delivered_last[OF assms(12) ms(2)]
  have "pd_Stage (last (filter (\<lambda>d. pd_Name d = name) ds)) = DbStage_ReadyToUse"
      "pd_Status (last (filter (\<lambda>d. pd_Name d = name) ds)) = DbStatus_Done"
    using p by (simp_all flip: l(2))
  then have "IsReadyToUse (Some (last (filter (\<lambda>d. pd_Name d = name) ds)))" by (simp add: IsReadyToUse_def)
  moreover have "mgr_wf (server_manager s)" using mgr_wf_set[OF assms(1) b(2)] s(1) by simp
  moreover have "source_subscribed (server_manager s)" using assms(2) s(1) by (simp add: source_subscribed_def set_instance_def)
  moreover have "distinct (map (\<lambda>d. ptr_of (pd_UpdatedAt d)) (NewDatabase # filter (\<lambda>d. pd_Name d = name) ds))"
    using assms(13) dsm by (fastforce simp: own_pointers_def NewDatabase_def zero_proto_def)
  ultimately show ?thesis
    using assms(5) s(4-6) b s(1) l(1) dsm rec
    by (simp add: settling_def coming_def set_instance_def image_subset_iff IsReadyToUse_def NewDatabase_def zero_proto_def)
qed

text \<open>The server's half: the source is queued, and handling it gives the instance one more job.\<close>

lemma written_file_handled:
  assumes "file_declares E F f path q password" and "server_awaits E (sh_manager (fh_handler f)) inst (rq_Name q) a"
    and "rq_InstanceName q = inst" and "g = FileSource_Handle E F 1 path f" and "r = fh_next f"
  obtains s' b job where "sh_spawned (fh_handler g) = sh_spawned (fh_handler f) @ [GoSend r]"
    and "SourceHandler_Handle E r (fh_handler g) = (None, s')" and "so_State (sh_heap s' r) = SourceStateProcessing"
    and "so_InstanceName (sh_heap s' r) = inst" and "so_ExpectState (sh_heap s' r) = SourceStateReady"
    and "\<And>k. sh_Databases s' k = Some r \<longleftrightarrow> k = rq_Name q"
    and "server_manager s' = set_instance b (server_manager (fh_handler f))" and "same_inst a b"
    and "in_Databases b = (in_Databases a)(rq_Name q \<mapsto> NewDatabase)" and "in_jobs b = in_jobs a @ [job]"
    and "dj_Job job = DbJob_CreateDatabase (source_job (new_file_source q) password)"
proof -
  have F: "has_suffix path ''.yaml''" "LoadYaml F path = Inr q" "se_validate E (new_file_source q) = None"
      "sh_Databases (fh_handler f) (rq_Name q) = None" "refs_old f" "rq_InstanceName q \<noteq> []" "rq_MigrateFrom q = []"
      "PasswordContent (se_read_trimmed E) q = Inr password"
    using assms(1) by (simp_all add: file_declares_def)
  have S: "se_GetDbStatus E = view_GetDbStatus" "se_CreateDb E = view_CreateDb" "view_ok (sh_manager (fh_handler f))"
      "mg_Instances (server_manager (fh_handler f)) inst = Some a" "in_Online a" "in_Databases a (rq_Name q) = None"
    using assms(2) by (simp_all add: server_awaits_def)
  note new = new_file_is_queued[OF F(1-4) assms(4,5)]
  let ?x = "sh_heap (fh_handler g) r"
  have x: "so_Request ?x = q" "so_ExpectState ?x = SourceStateReady" "source_job ?x password = source_job (new_file_source q) password"
    by (simp_all add: new(2) new_file_source_def source_job_def)
  have ne: "inst \<noteq> []" using F(6) assms(3) by simp
  obtain s' b job where h: "SourceHandler_Handle E r (fh_handler g) = (None, s')" "so_State (sh_heap s' r) = SourceStateProcessing"
      "so_Request (sh_heap s' r) = q" "so_ExpectState (sh_heap s' r) = SourceStateReady" "sh_Databases s' = sh_Databases (fh_handler g)"
      "server_manager s' = set_instance b (server_manager (fh_handler f))" "same_inst a b"
      "in_Databases b = (in_Databases a)(rq_Name q \<mapsto> NewDatabase)" "in_jobs b = in_jobs a @ [job]"
      "dj_Job job = DbJob_CreateDatabase (source_job ?x password)"
    by (rule declared_source_handled[OF S(1,2) _ refl, of "fh_handler g" r inst password a, unfolded new(3) x(1),
          OF S(3) assms(3) ne x(2) F(7,8) S(4-6)])
  have "sh_Databases s' k = Some r \<longleftrightarrow> k = rq_Name q" for k
    using new_file_registered[OF F(1-4) assms(4)] h(5) F(5) assms(5) by (auto simp: refs_old_def)
  moreover have "so_InstanceName (sh_heap s' r) = inst" using h(3) assms(3) by simp
  ultimately show ?thesis using that[OF new(1) h(1,2) _ h(4) _ h(6-9)] h(10) x(3) by simp
qed

text \<open>The agent's half: it runs the job to its end, and the last report of the run says so.\<close>

lemma handled_job_reports:
  assumes "agent_answers A w inst (so_Name x)" and "dj_Job job = DbJob_CreateDatabase (source_job x password)"
  obtains n i rows w1 st p where "GrpcAgentHandler_handle uuid_parse A job w = (Ok (Some (n, i, rows)), w1)"
    and "st = drive (length rows) A (start_job A (n, i, rows) w1)" and "js_jobs st = Map.empty"
    and "stage_of (js_world st) (w_next_id w) = Some (DbStage_ReadyToUse, DbStatus_Done)"
    and "last_report (new_reports w (js_world st)) (so_Name x) = Some p"
    and "pd_Stage p = DbStage_ReadyToUse" and "pd_Status p = DbStatus_Done"
proof -
  have G: "healthy A" "cfg_tmpl (env_cfg A) \<noteq> None" "fresh_uuids A w 10" "wf_world w" "reported A w"
      "\<not> IsReservedName (env_cfg A) (so_Name x)" "sel_by db_Name (so_Name x) (w_dbs w) = None" "last_report (w_notified w) (so_Name x) = None"
    using assms(1) by (simp_all add: agent_answers_def)
  obtain n i rows w1 st where ag: "GrpcAgentHandler_handle uuid_parse A job w = (Ok (Some (n, i, rows)), w1)"
      "st = drive (length rows) A (start_job A (n, i, rows) w1)" "js_jobs st = Map.empty"
      "stage_of (js_world st) (w_next_id w) = Some (DbStage_ReadyToUse, DbStatus_Done)"
    using source_job_reaches_ready[OF G(1-4,6,7) assms(2), of uuid_parse] by auto
  define c where "c = NewCreateDatabaseRequest uuid_parse (dj_JobId job) (source_job x password)"
  have c: "create_Process A c w = (Ok (Some (n, i, rows)), w1)" "cj_Name (cr_Job c) = so_Name x"
    using ag(1) assms(2) by (simp_all add: GrpcAgentHandler_handle_def c_def NewCreateDatabaseRequest_def source_job_def)
  obtain p where p: "last_report (w_notified (js_world st)) (so_Name x) = Some p"
      "pd_Stage p = DbStage_ReadyToUse" "pd_Status p = DbStatus_Done"
    using created_is_reported[OF G(1,3-5) _ _ c(1) ag(2,4)] G(6,7) c(2) by auto
  then have "last_report (new_reports w (js_world st)) (so_Name x) = Some p"
    using new_reports_of_run(1)[OF ag(1) assms(2) ag(2)] G(8) last_report_append[of "w_notified w" "new_reports w (js_world st)" "so_Name x"]
    by (auto split: option.splits)
  with ag p show ?thesis using that by blast
qed

text \<open>
  C5. The loop closed: when a YAML file appears that declares a new database on an online instance, its
  source is queued and handled, its instance gets one more job with the contents of the file, and the
  agent runs this job to the end, with the database ready and done. When the agent's reports of this run
  reach the server in their order, then, however the calls and the goroutines they start are
  interleaved, nothing is left to do after a bounded number of steps, and then the source is ready.
\<close>

theorem written_file_settles_its_source:
  assumes "file_declares E F f path q password" and "server_awaits E (sh_manager (fh_handler f)) inst (rq_Name q) a"
    and "agent_answers A w inst (rq_Name q)" and "granted_agent inst info" and "rq_InstanceName q = inst"
    and "g = FileSource_Handle E F 1 path f" and "r = fh_next f"
  shows "sh_spawned (fh_handler g) = sh_spawned (fh_handler f) @ [GoSend r] \<and>
    (\<exists>s' b job n i rows w1 st. SourceHandler_Handle E r (fh_handler g) = (None, s') \<and> so_State (sh_heap s' r) = SourceStateProcessing \<and>
      mg_Instances (server_manager s') inst = Some b \<and> in_jobs b = in_jobs a @ [job] \<and>
      dj_Job job = DbJob_CreateDatabase (source_job (new_file_source q) password) \<and>
      GrpcAgentHandler_handle uuid_parse A job w = (Ok (Some (n, i, rows)), w1) \<and>
      st = drive (length rows) A (start_job A (n, i, rows) w1) \<and> js_jobs st = Map.empty \<and>
      stage_of (js_world st) (w_next_id w) = Some (DbStage_ReadyToUse, DbStatus_Done) \<and>
      (\<forall>ds. delivered (map Some (new_reports w (js_world st))) ds \<and> own_pointers (rq_Name q) ds \<longrightarrow>
        (\<forall>t k. (delivery_step E info ^^ k) (ds, s') t \<longrightarrow> k \<le> delivery_cost (ds, s')) \<and>
        (\<forall>t. (delivery_step E info)\<^sup>*\<^sup>* (ds, s') t \<and> {u. delivery_step E info t u} = {} \<longrightarrow> settled r t)))"
proof -
  obtain s' b job where h: "sh_spawned (fh_handler g) = sh_spawned (fh_handler f) @ [GoSend r]"
      "SourceHandler_Handle E r (fh_handler g) = (None, s')" "so_State (sh_heap s' r) = SourceStateProcessing"
      "so_InstanceName (sh_heap s' r) = inst" "so_ExpectState (sh_heap s' r) = SourceStateReady"
      "\<And>k. sh_Databases s' k = Some r \<longleftrightarrow> k = rq_Name q"
      "server_manager s' = set_instance b (server_manager (fh_handler f))" "same_inst a b"
      "in_Databases b = (in_Databases a)(rq_Name q \<mapsto> NewDatabase)" "in_jobs b = in_jobs a @ [job]"
    and j: "dj_Job job = DbJob_CreateDatabase (source_job (new_file_source q) password)"
    by (rule written_file_handled[OF assms(1,2,5-7)]) blast
  have nm: "so_Name (new_file_source q) = rq_Name q" by (simp add: new_file_source_def)
  obtain n i rows w1 st p where ag: "GrpcAgentHandler_handle uuid_parse A job w = (Ok (Some (n, i, rows)), w1)"
      "st = drive (length rows) A (start_job A (n, i, rows) w1)" "js_jobs st = Map.empty"
      "stage_of (js_world st) (w_next_id w) = Some (DbStage_ReadyToUse, DbStatus_Done)"
    and p: "last_report (new_reports w (js_world st)) (rq_Name q) = Some p" "pd_Stage p = DbStage_ReadyToUse" "pd_Status p = DbStatus_Done"
    by (rule handled_job_reports[OF _ j, of A w inst uuid_parse, unfolded nm, OF assms(3)])
  have v: "view_ok (sh_manager (fh_handler f))" "source_subscribed (server_manager (fh_handler f))"
      "mg_Instances (server_manager (fh_handler f)) inst = Some a" "in_Databases a (rq_Name q) = None"
    using assms(2) by (simp_all add: server_awaits_def)
  have reps: "\<forall>p\<in>set (new_reports w (js_world st)). pd_InstanceName p = inst \<and> pd_UpdatedAt p \<noteq> None"
    using new_reports_of_run(2)[OF ag(1) j ag(2)] assms(3) by (simp add: agent_answers_def)
  have "settling inst (rq_Name q) r info (ds, s')"
    if "delivered (map Some (new_reports w (js_world st))) ds" "own_pointers (rq_Name q) ds" for ds
    by (rule sent_creation_settles[OF _ v(2-4) assms(4) h(7-9) h(6,4,5) that reps p]) (use v(1) in \<open>simp add: view_ok_def\<close>)
  then have "\<forall>ds. delivered (map Some (new_reports w (js_world st))) ds \<and> own_pointers (rq_Name q) ds \<longrightarrow>
      (\<forall>t k. (delivery_step E info ^^ k) (ds, s') t \<longrightarrow> k \<le> delivery_cost (ds, s')) \<and>
      (\<forall>t. (delivery_step E info)\<^sup>*\<^sup>* (ds, s') t \<and> {u. delivery_step E info t u} = {} \<longrightarrow> settled r t)"
    using delivery.stuck_final[of inst "rq_Name q" r info _ E] delivery.run_length[of _ E info]
    by (metis add_leD1)
  moreover have "mg_Instances (server_manager s') inst = Some b"
    using h(7,8) view_name[OF v(1,3)] by (simp add: set_instance_def same_inst_def)
  ultimately show ?thesis using h(1-3,10) j ag by (intro conjI exI) assumption+
qed

theorem written_file_settles_its_source_witness:
  "\<exists>s' ms ds t. SourceHandler_Handle manager_env 0 (fh_handler (FileSource_Handle manager_env app_file 1 ''app.yaml'' no_sources))
      = (None, s') \<and> so_State (sh_heap s' 0) = SourceStateProcessing \<and> delivered (map Some ms) ds \<and>
     (delivery_step manager_env (Some (agent_info ''pg-16'')))\<^sup>*\<^sup>* (ds, s') t \<and> settled 0 t"
proof -
  let ?q = "sample_request\<lparr>rq_InstanceName := ''pg-16''\<rparr>" and ?i = "Some (agent_info ''pg-16'')"
  have f: "file_declares manager_env app_file no_sources ''app.yaml'' ?q ''secret12''"
    by (simp add: file_declares_def str_defs app_file_def sample_fs_def LoadYaml_def manager_env_def no_sources_def
        NewSourceHandler_def sample_request_def PasswordContent_def refs_old_def)
  obtain a where a: "server_awaits manager_env (sh_manager (fh_handler no_sources)) ''pg-16'' (rq_Name ?q) a"
    using sample_view_ok by (simp add: server_awaits_def manager_env_def no_sources_def NewSourceHandler_def
        sample_view_def sample_manager_instances sample_request_def source_subscribed_def sample_manager_subs map_filter_simps)
  have w: "agent_answers sample_env empty_world ''pg-16'' (rq_Name ?q)"
    by (simp add: agent_answers_def sample_fresh reported_def sample_request_def IsReservedName_def sample_cfg_def last_report_def)
      (simp add: empty_world_def)
  have i: "granted_agent ''pg-16'' ?i" by (simp add: granted_agent_def ValidateResource_agent)
  obtain s' job n k rows w1 st where
    h: "SourceHandler_Handle manager_env 0 (fh_handler (FileSource_Handle manager_env app_file 1 ''app.yaml'' no_sources)) = (None, s')"
      "so_State (sh_heap s' 0) = SourceStateProcessing"
    and j: "dj_Job job = DbJob_CreateDatabase (source_job (new_file_source ?q) ''secret12'')"
    and ag: "GrpcAgentHandler_handle (\<lambda>_. None) sample_env job empty_world = (Ok (Some (n, k, rows)), w1)"
      "st = drive (length rows) sample_env (start_job sample_env (n, k, rows) w1)"
    and all: "\<And>ds t. delivered (map Some (new_reports empty_world (js_world st))) ds \<and> own_pointers (rq_Name ?q) ds \<Longrightarrow>
      (delivery_step manager_env ?i)\<^sup>*\<^sup>* (ds, s') t \<and> {u. delivery_step manager_env ?i t u} = {} \<Longrightarrow> settled 0 t"
    using written_file_settles_its_source[OF f a w i _ refl refl, of "\<lambda>_. None"] by (auto simp: no_sources_def)
  define ds where "ds = map (\<lambda>(k, p). decoded k p) (enumerate 0 (new_reports empty_world (js_world st)))"
  have "delivered (map Some (new_reports empty_world (js_world st))) ds" "own_pointers (rq_Name ?q) ds"
    using new_reports_of_run(2)[OF ag(1) j ag(2)] decoded_delivered[OF _ ds_def] by blast+
  then show ?thesis using h all delivery.run_ends[of manager_env ?i "(ds, s')"] by blast
qed

end
