(* ===== verification/Instance_Stream.thy ===== *)
theory Instance_Stream
  imports Db_Instance Transitions "HOL-Library.Sublist"
begin

text \<open>
  How the jobs of an instance get to its agent (\<open>ServeDbJob\<close> in \<open>db-instance.go\<close>): what one stream
  sends and keeps, over any number of streams one after the other; and the lock of the databases of
  the instance, which a creation holds while it hands over its job.
\<close>

section \<open>Streams\<close>

text \<open>What the select of the loop sees: the end of the stream's context, or a job, with whether it could be sent.\<close>

datatype serve_event = StreamDone | JobReceived db_job bool

text \<open>The jobs taken, the jobs sent, and what is left in \<open>nonSentDbJob\<close>.\<close>

fun serve_loop :: "serve_event list \<Rightarrow> db_job list \<times> db_job list \<times> db_job option" where
  "serve_loop [] = ([], [], None)"
| "serve_loop (StreamDone # events) = ([], [], None)"
| "serve_loop (JobReceived job ok # events) =
     (if \<not> ok then ([job], [], Some job)
      else (case serve_loop events of (taken, sent, nonSent) \<Rightarrow> (job # taken, job # sent, nonSent)))"

definition ServeDbJob ::
    "bool \<Rightarrow> serve_event list \<Rightarrow> db_job option \<Rightarrow> db_job list \<times> db_job list \<times> db_job option" where
  "ServeDbJob resend_ok events nonSent =
     (case nonSent of
        None \<Rightarrow> serve_loop events
      | Some job \<Rightarrow>
          if \<not> resend_ok then ([], [], Some job)
          else (case serve_loop events of (taken, sent, rest) \<Rightarrow> (taken, job # sent, rest)))"

text \<open>The streams of an agent, one after the other.\<close>

fun serve_streams ::
    "(bool \<times> serve_event list) list \<Rightarrow> db_job option \<Rightarrow> db_job list \<times> db_job list \<times> db_job option" where
  "serve_streams [] nonSent = ([], [], nonSent)"
| "serve_streams ((ok, events) # rest) nonSent =
     (case ServeDbJob ok events nonSent of
        (taken, sent, left) \<Rightarrow>
          (case serve_streams rest left of (taken', sent', left') \<Rightarrow> (taken @ taken', sent @ sent', left')))"

abbreviation pending_job :: "db_job option \<Rightarrow> db_job list" where
  "pending_job j \<equiv> (case j of None \<Rightarrow> [] | Some job \<Rightarrow> [job])"

lemma serve_loop_conserves: "serve_loop events = (taken, sent, left) \<Longrightarrow> taken = sent @ pending_job left"
  by (induction events arbitrary: taken sent left rule: serve_loop.induct) (auto split: if_splits prod.splits)

lemma ServeDbJob_conserves:
  "ServeDbJob ok events nonSent = (taken, sent, left) \<Longrightarrow> pending_job nonSent @ taken = sent @ pending_job left"
  using serve_loop_conserves[of events]
  by (auto simp: ServeDbJob_def split: option.splits if_splits prod.splits)

lemma serve_streams_conserves:
  "serve_streams streams nonSent = (taken, sent, left) \<Longrightarrow> pending_job nonSent @ taken = sent @ pending_job left"
proof (induction streams arbitrary: nonSent taken sent left)
  case (Cons s rest)
  obtain ok events where s: "s = (ok, events)" by fastforce
  obtain t1 s1 l1 where one: "ServeDbJob ok events nonSent = (t1, s1, l1)" using prod_cases3 by blast
  obtain t2 s2 l2 where more: "serve_streams rest l1 = (t2, s2, l2)" using prod_cases3 by blast
  show ?case
    using Cons.prems one more ServeDbJob_conserves[OF one] Cons.IH[OF more]
    by (simp add: s) (metis append.assoc)
qed simp


definition numbered_job :: "string \<Rightarrow> db_job" where
  "numbered_job n = \<lparr>dj_JobId = n, dj_Job = DbJob_Unset\<rparr>"


section \<open>The lock of the databases\<close>

text \<open>
  \<open>CreateDb\<close> locks \<open>dbLock\<close> and, still holding it, sends its job on the unbuffered \<open>DbJobChan\<close>;
  \<open>Register\<close> needs the lock in \<open>UpdateDatabases\<close> before its \<open>ServeDbJob\<close> receives from the channel;
  a status report needs it in \<open>MustGetDb\<close>. Calls that do not send under the lock are one step.
\<close>

datatype create_pc = CreateLock | CreateSend | CreateReturned

datatype stream_pc = StreamUpdate | StreamServe | StreamEnded

datatype notify_pc = NotifyLock | NotifyReturned

record inst_sync =
  ls_lock :: "nat option"
  ls_creates :: "create_pc list"
  ls_streams :: "stream_pc list"
  ls_notifies :: "notify_pc list"

definition new_inst_sync :: inst_sync where
  "new_inst_sync = \<lparr>ls_lock = None, ls_creates = [], ls_streams = [], ls_notifies = []\<rparr>"

inductive sync_step :: "inst_sync \<Rightarrow> inst_sync \<Rightarrow> bool" where
  CallCreate: "sync_step s (s\<lparr>ls_creates := ls_creates s @ [CreateLock]\<rparr>)"
| Lock: "i < length (ls_creates s) \<Longrightarrow> ls_creates s ! i = CreateLock \<Longrightarrow> ls_lock s = None \<Longrightarrow>
    sync_step s (s\<lparr>ls_creates := (ls_creates s)[i := CreateSend], ls_lock := Some i\<rparr>)"
| NoJob: "i < length (ls_creates s) \<Longrightarrow> ls_creates s ! i = CreateLock \<Longrightarrow> ls_lock s = None \<Longrightarrow>
    sync_step s (s\<lparr>ls_creates := (ls_creates s)[i := CreateReturned]\<rparr>)"
| Transfer: "i < length (ls_creates s) \<Longrightarrow> ls_creates s ! i = CreateSend \<Longrightarrow>
    j < length (ls_streams s) \<Longrightarrow> ls_streams s ! j = StreamServe \<Longrightarrow>
    sync_step s (s\<lparr>ls_creates := (ls_creates s)[i := CreateReturned], ls_lock := None\<rparr>)"
| CallRegister: "sync_step s (s\<lparr>ls_streams := ls_streams s @ [StreamUpdate]\<rparr>)"
| Update: "j < length (ls_streams s) \<Longrightarrow> ls_streams s ! j = StreamUpdate \<Longrightarrow> ls_lock s = None \<Longrightarrow>
    sync_step s (s\<lparr>ls_streams := (ls_streams s)[j := StreamServe]\<rparr>)"
| StreamEnd: "j < length (ls_streams s) \<Longrightarrow> ls_streams s ! j = StreamServe \<Longrightarrow>
    sync_step s (s\<lparr>ls_streams := (ls_streams s)[j := StreamEnded]\<rparr>)"
| CallNotify: "sync_step s (s\<lparr>ls_notifies := ls_notifies s @ [NotifyLock]\<rparr>)"
| Notify: "k < length (ls_notifies s) \<Longrightarrow> ls_notifies s ! k = NotifyLock \<Longrightarrow> ls_lock s = None \<Longrightarrow>
    sync_step s (s\<lparr>ls_notifies := (ls_notifies s)[k := NotifyReturned]\<rparr>)"

text \<open>A creation that holds the lock while no stream receives: nothing frees the lock any more.\<close>

definition inst_stuck :: "inst_sync \<Rightarrow> bool" where
  "inst_stuck s = (ls_lock s \<noteq> None \<and> StreamServe \<notin> set (ls_streams s))"

text \<open>Calls that have begun stay where they are; new ones may begin.\<close>

definition calls_stay :: "inst_sync \<Rightarrow> inst_sync \<Rightarrow> bool" where
  "calls_stay s s' \<longleftrightarrow> prefix (ls_creates s) (ls_creates s') \<and> prefix (ls_notifies s) (ls_notifies s')"

lemma inst_stuck_step: "sync_step s s' \<Longrightarrow> inst_stuck s \<Longrightarrow> inst_stuck s' \<and> calls_stay s s'"
  by (induction rule: sync_step.induct) (auto simp: inst_stuck_def calls_stay_def dest: nth_mem)

interpretation inst_deadlock: lasting sync_step inst_stuck calls_stay
  by unfold_locales (use inst_stuck_step in \<open>auto simp: calls_stay_def\<close>)

definition stuck_sync :: inst_sync where
  "stuck_sync = \<lparr>ls_lock = Some 0, ls_creates = [CreateSend], ls_streams = [StreamEnded], ls_notifies = [NotifyLock]\<rparr>"

lemma sync_to: "sync_step\<^sup>*\<^sup>* s t \<Longrightarrow> sync_step t u \<Longrightarrow> u = v \<Longrightarrow> sync_step\<^sup>*\<^sup>* s v"
  by (metis rtranclp.rtrancl_into_rtrancl)

lemma stuck_sync_reach: "sync_step\<^sup>*\<^sup>* new_inst_sync stuck_sync"
proof -
  let ?at = "\<lambda>l cs ss. \<lparr>ls_lock = l, ls_creates = cs, ls_streams = ss, ls_notifies = []\<rparr>"
  have "sync_step\<^sup>*\<^sup>* new_inst_sync (?at None [] [StreamUpdate])"
    by (rule sync_to[OF rtranclp.rtrancl_refl sync_step.CallRegister]) (simp add: new_inst_sync_def)
  then have "sync_step\<^sup>*\<^sup>* new_inst_sync (?at None [] [StreamServe])"
    by (rule sync_to[OF _ sync_step.Update[of 0]]) simp_all
  then have "sync_step\<^sup>*\<^sup>* new_inst_sync (?at None [CreateLock] [StreamServe])"
    by (rule sync_to[OF _ sync_step.CallCreate]) simp
  then have "sync_step\<^sup>*\<^sup>* new_inst_sync (?at (Some 0) [CreateSend] [StreamServe])"
    by (rule sync_to[OF _ sync_step.Lock[of 0]]) simp_all
  then have "sync_step\<^sup>*\<^sup>* new_inst_sync (?at (Some 0) [CreateSend] [StreamEnded])"
    by (rule sync_to[OF _ sync_step.StreamEnd[of 0]]) simp_all
  then show ?thesis
    by (rule sync_to[OF _ sync_step.CallNotify]) (simp add: stuck_sync_def)
qed

text \<open>
  C40. An instance can lock up for good: a creation takes the lock while the stream is open, the stream
  ends before the job is taken, and from then on, whatever happens, the creation does not return, no
  new stream of the instance ever serves jobs, and the waiting status report is never stored.
\<close>

theorem creation_locks_instance:
  "\<exists>s. sync_step\<^sup>*\<^sup>* new_inst_sync s \<and> ls_creates s = [CreateSend] \<and> ls_notifies s = [NotifyLock] \<and>
     {s'. sync_step\<^sup>*\<^sup>* s s'} \<subseteq>
     {s'. ls_creates s' ! 0 = CreateSend \<and> ls_notifies s' ! 0 = NotifyLock \<and> StreamServe \<notin> set (ls_streams s')}"
proof (intro exI conjI)
  have "inst_stuck stuck_sync" by (simp add: inst_stuck_def stuck_sync_def)
  from inst_deadlock.reachable_last[OF this]
  show "{s'. sync_step\<^sup>*\<^sup>* stuck_sync s'} \<subseteq>
      {s'. ls_creates s' ! 0 = CreateSend \<and> ls_notifies s' ! 0 = NotifyLock \<and> StreamServe \<notin> set (ls_streams s')}"
    by (auto simp: stuck_sync_def inst_stuck_def calls_stay_def prefix_def)
qed (use stuck_sync_reach in \<open>simp_all add: stuck_sync_def\<close>)

end
