(* ===== verification/Web_Server.thy ===== *)
theory Web_Server
  imports Source_Manager Manager_Properties Validate Config
begin

text \<open>
  The web API (\<open>internal/handler/web_server\<close>): the handler around every request (\<open>handler.go\<close>), the two
  requests (\<open>svc_create_database.go\<close>, \<open>svc_is_db_ready.go\<close>), the routes and the error responses, in
  front of the source handler and the manager of the instances.
\<close>

section \<open>Responses\<close>

text \<open>
  A response is its code with the JSON bodies written: a second write keeps the code of the first.
  A call that waits for a database to be ready answers later.
\<close>

datatype web_body = ErrorBody string | ReadyBody bool

datatype web_reply = Responded nat "web_body list" | WaitingReady nat

definition c_JSON :: "nat \<Rightarrow> web_body \<Rightarrow> web_reply option \<Rightarrow> web_reply option" where
  "c_JSON code body r =
     (case r of
        Some (Responded code0 bodies) \<Rightarrow> Some (Responded code0 (bodies @ [body]))
      | _ \<Rightarrow> Some (Responded code [body]))"

text \<open>\<open>gin.H\<close> with one error; \<open>logErrorAndRespond\<close> hides the error behind its message.\<close>

definition logErrorAndRespondWithCode :: "go_error \<Rightarrow> string \<Rightarrow> nat \<Rightarrow> web_reply option \<Rightarrow> web_reply option" where
  "logErrorAndRespondWithCode err message code r = c_JSON code (ErrorBody message) r"

definition logErrorAndRespond :: "go_error \<Rightarrow> string \<Rightarrow> web_reply option \<Rightarrow> web_reply option" where
  "logErrorAndRespond err message r = logErrorAndRespondWithCode err message 500 r"

section \<open>The handler around a request\<close>

text \<open>
  The interface \<open>WebRequest\<close>. The name and the resources dereference the bound request, \<open>Process\<close>
  also changes the state.
\<close>

record 's web_request =
  wq_GetName :: "string outcome"
  wq_Scopes :: "string list"
  wq_Resources :: "string list outcome"
  wq_AuthRequired :: bool
  wq_Process :: "'s \<Rightarrow> web_reply outcome \<times> 's"

text \<open>The identity in the context; without one the 401 is written here.\<close>

definition FetchAuthInfo :: "auth_info option \<Rightarrow> web_reply option \<Rightarrow> (auth_info option \<times> bool) \<times> web_reply option" where
  "FetchAuthInfo ctx_info r =
     (case ctx_info of
        None \<Rightarrow> ((None, False), c_JSON 401 (ErrorBody ''auth info not found'') r)
      | Some a \<Rightarrow> ((Some a, True), r))"

text \<open>A refusal is logged with the name of the request.\<close>

definition no_permission :: "'s web_request \<Rightarrow> string \<Rightarrow> go_error option outcome" where
  "no_permission request message =
     (case wq_GetName request of Ok name \<Rightarrow> Ok (Some (ErrNew message)) | _ \<Rightarrow> Panicked)"

definition authCheck :: "auth_info option \<Rightarrow> 's web_request \<Rightarrow> web_reply option \<Rightarrow> go_error option outcome \<times> web_reply option" where
  "authCheck ctx_info request r =
     (if \<not> wq_AuthRequired request then (Ok None, r)
      else
        (case FetchAuthInfo ctx_info r of
           ((Some auth, True), r1) \<Rightarrow>
             (case wq_Resources request of
                Ok resources \<Rightarrow>
                  (case ValidateScopes auth (wq_Scopes request) of
                     (missing, ok) \<Rightarrow>
                       if \<not> ok then (no_permission request ''no scope permission'', r1)
                       else (case ValidateResources auth resources of
                               (missing, ok) \<Rightarrow>
                                 if \<not> ok then (no_permission request ''no resource permission'', r1) else (Ok None, r1)))
              | _ \<Rightarrow> (Panicked, r1))
         | (_, r1) \<Rightarrow> (Ok (Some (ErrNew ''no auth info'')), r1)))"

text \<open>\<open>bound\<close> is what \<open>ShouldBind\<close> makes of the request.\<close>

definition WebHandleWrapper ::
    "go_error + 's web_request \<Rightarrow> auth_info option \<Rightarrow> 's \<Rightarrow> web_reply option outcome \<times> 's" where
  "WebHandleWrapper bound ctx_info s =
     (case bound of
        Inl err \<Rightarrow> (Ok (c_JSON 400 (ErrorBody (error_text err)) None), s)
      | Inr request \<Rightarrow>
          (case authCheck ctx_info request None of
             (Ok (Some err), r) \<Rightarrow> (Ok (c_JSON 403 (ErrorBody (error_text err)) r), s)
           | (Ok None, r) \<Rightarrow>
               (case wq_Process request s of
                  (Ok reply, s1) \<Rightarrow> (Ok (Some reply), s1)
                | (Fail e, s1) \<Rightarrow> (Fail e, s1)
                | (Panicked, s1) \<Rightarrow> (Panicked, s1))
           | (Fail e, r) \<Rightarrow> (Fail e, s)
           | (Panicked, r) \<Rightarrow> (Panicked, s)))"

section \<open>The requests\<close>

text \<open>
  The request to create a database embeds a pointer, which is nil when nothing in the body set a
  field of it. The new source is ctx_info at the address \<open>ref\<close>, \<open>w\<close> is the number of the wait.
\<close>

definition new_web_source :: "DatabaseRequest \<Rightarrow> DatabaseSource" where
  "new_web_source q = \<lparr>so_Request = q, so_Type = WebSource, so_ExpectState = SourceStateZero,
     so_State = SourceStateUnknown, so_UpdatedAt = 0, so_RetryDelay = 0, so_RetryTimes = 0,
     so_LastErrorMsg = [], so_LastScheduledAt = 0, so_NextScheduleAt = 0\<rparr>"

type_synonym sources = "manager_view source_state"

definition wait_for_ready :: "nat \<Rightarrow> string \<Rightarrow> string \<Rightarrow> sources \<Rightarrow> web_reply outcome \<times> sources" where
  "wait_for_ready w instName dbName s =
     (case WaitReady w instName dbName (mv_manager (sh_manager s)) of
        (answer, m) \<Rightarrow>
          (Ok (case answer of Some ready \<Rightarrow> Responded 200 [ReadyBody ready] | None \<Rightarrow> WaitingReady w),
           s\<lparr>sh_manager := (sh_manager s)\<lparr>mv_manager := m\<rparr>\<rparr>))"

definition web_create_Process ::
    "manager_view source_env \<Rightarrow> nat \<Rightarrow> nat \<Rightarrow> DatabaseRequest option \<Rightarrow> sources \<Rightarrow> web_reply outcome \<times> sources" where
  "web_create_Process E ref w r s =
     (case r of
        None \<Rightarrow> (Panicked, s)
      | Some q \<Rightarrow>
          (case AddDatabaseSource E ref (put_source ref (new_web_source q) s) of
             (Some err, s1) \<Rightarrow> (Ok (Responded 500 [ErrorBody (error_text err)]), s1)
           | (None, s1) \<Rightarrow> wait_for_ready w (rq_InstanceName q) (rq_Name q) s1))"

definition db_resource :: "DatabaseRequest option \<Rightarrow> string list outcome" where
  "db_resource r = (case r of None \<Rightarrow> Panicked | Some q \<Rightarrow> Ok [''db:'' @ rq_Name q])"

definition web_CreateDbRequest ::
    "manager_view source_env \<Rightarrow> nat \<Rightarrow> nat \<Rightarrow> DatabaseRequest option \<Rightarrow> sources web_request" where
  "web_CreateDbRequest E ref w r =
     \<lparr>wq_GetName = (case r of None \<Rightarrow> Panicked | Some q \<Rightarrow> Ok (''Create Database '' @ rq_Name q)),
      wq_Scopes = [''db:write''], wq_Resources = db_resource r, wq_AuthRequired = True,
      wq_Process = web_create_Process E ref w r\<rparr>"

record IsDbReadyRequest =
  ir_Name :: string
  ir_InstanceName :: string

definition web_IsDbReadyRequest :: "IsDbReadyRequest \<Rightarrow> sources web_request" where
  "web_IsDbReadyRequest r =
     \<lparr>wq_GetName = Ok (''Is Db ('' @ ir_Name r @ '') Ready''),
      wq_Scopes = [''db:read''], wq_Resources = Ok [''db:'' @ ir_Name r], wq_AuthRequired = True,
      wq_Process = (\<lambda>s. (Ok (Responded 200 [ReadyBody (source_IsReady (ir_Name r) (ir_InstanceName r) s)]), s))\<rparr>"

section \<open>The server\<close>

text \<open>
  What the server uses of gin: the binding of a request to the two structs, with the validation of
  their \<open>binding\<close> tags, as parameters; and the recovery of \<open>gin.Default\<close>, which answers a panic
  with 500. The server holds the configuration of its authentication.
\<close>

record http_request =
  hq_method :: string
  hq_path :: string
  hq_ctx :: gin_ctx
  hq_body :: string

record 'k web_env =
  we_lib :: "'k jwt_lib"
  we_bind_create :: "http_request \<Rightarrow> go_error + DatabaseRequest option"
  we_bind_ready :: "http_request \<Rightarrow> go_error + IsDbReadyRequest"
  we_sources :: "manager_view source_env"

definition registerRoutes ::
    "'k web_env \<Rightarrow> nat \<Rightarrow> nat \<Rightarrow> http_request \<Rightarrow> (go_error + sources web_request) option" where
  "registerRoutes W ref w h =
     (if hq_path h = ''/api/v1/db/ready'' \<and> hq_method h = ''GET''
      then Some (map_sum (\<lambda>e. e) web_IsDbReadyRequest (we_bind_ready W h))
      else if hq_path h = ''/api/v1/db'' \<and> hq_method h = ''POST''
      then Some (map_sum (\<lambda>e. e) (web_CreateDbRequest (we_sources W) ref w) (we_bind_create W h))
      else None)"

text \<open>A handler that writes nothing answers 200 with no body; a panic leaves the state it had reached.\<close>

definition gin_reply :: "web_reply option outcome \<Rightarrow> web_reply" where
  "gin_reply r = (case r of Ok (Some reply) \<Rightarrow> reply | Ok None \<Rightarrow> Responded 200 [] | _ \<Rightarrow> Responded 500 [])"

definition serve_http ::
    "'k web_env \<Rightarrow> nat \<Rightarrow> nat \<Rightarrow> http_request \<Rightarrow> 'k auth_config \<Rightarrow> sources \<Rightarrow> web_reply \<times> 'k auth_config \<times> sources" where
  "serve_http W ref w h cfg s =
     (case registerRoutes W ref w h of
        None \<Rightarrow> (Responded 404 [], cfg, s)
      | Some bound \<Rightarrow>
          (case AuthMiddleware (we_lib W) (hq_ctx h) cfg
                  (\<lambda>code message s. (Ok (c_JSON code (ErrorBody message) None), s))
                  (\<lambda>a. WebHandleWrapper bound (Some a)) of
             (Ok run, cfg1) \<Rightarrow> (case run s of (r, s1) \<Rightarrow> (gin_reply r, cfg1, s1))
           | (_, cfg1) \<Rightarrow> (Responded 500 [], cfg1, s)))"

text \<open>The answer to a call that waited.\<close>

definition finish_wait :: "nat \<Rightarrow> sources \<Rightarrow> web_reply option" where
  "finish_wait w s = map_option (\<lambda>ready. Responded 200 [ReadyBody ready]) (wait_result w (mv_manager (sh_manager s)))"

section \<open>Setting up\<close>

text \<open>
  \<open>NewWebServer\<close>: the address, the authentication, the validators of the engine that binds requests
  (\<open>None\<close> when it is not the expected one) and the settings of the router. The error of
  \<open>SetTrustedProxies\<close> is dropped.
\<close>

record 'k web_config =
  wc_Enabled :: bool
  wc_UseH2C :: bool
  wc_TrustedProxies :: "string list"
  wc_Tls :: server_tls
  wc_Auth :: "'k auth_config"

record 'k web_server =
  ws_Config :: "'k web_config"
  ws_Addr :: string
  ws_Auth :: "'k auth_config"
  ws_validators :: "(string \<rightharpoonup> (field_level \<Rightarrow> bool outcome)) option"
  ws_UseH2C :: bool
  ws_TrustedProxies :: "string list"

definition NewWebServer ::
    "(string \<Rightarrow> go_error + parsed_url) \<Rightarrow> (string \<Rightarrow> bool option) \<Rightarrow> (string \<Rightarrow> bool)
      \<Rightarrow> (string \<rightharpoonup> (field_level \<Rightarrow> bool outcome)) option \<Rightarrow> 'k web_config \<Rightarrow> 'k web_server" where
  "NewWebServer url_parse parse_ip stat_ok engine config =
     \<lparr>ws_Config = config, ws_Addr = web_ListenOn, ws_Auth = wc_Auth config,
      ws_validators = map_option (RegisterCustomValidations url_parse parse_ip stat_ok) engine,
      ws_UseH2C = wc_UseH2C config, ws_TrustedProxies = wc_TrustedProxies config\<rparr>"

section \<open>The rules of a source\<close>

text \<open>
  The tags of \<open>DatabaseRequest\<close> that \<open>AddDatabaseSource\<close> validates; the library that runs the tags of
  a field on its value is a parameter, and so are its error messages.
\<close>

definition DatabaseRequest_rules :: "(string \<times> (DatabaseRequest \<Rightarrow> string)) list" where
  "DatabaseRequest_rules =
     [(''required,max=63,id'', rq_Name), (''required,max=63,id'', rq_Owner), (''required,file'', rq_PasswordFile),
      (''required,max=63,iname'', rq_InstanceName), (''omitempty,max=63,iname'', rq_MigrateFrom),
      (''omitempty,file'', rq_BackupPath)]"

definition validator_Struct ::
    "(string \<Rightarrow> string \<Rightarrow> bool) \<Rightarrow> (DatabaseRequest \<Rightarrow> go_error) \<Rightarrow> DatabaseSource \<Rightarrow> go_error option" where
  "validator_Struct check message x =
     (if list_all (\<lambda>(tags, get). check tags (get (so_Request x))) DatabaseRequest_rules then None
      else Some (message (so_Request x)))"

section \<open>Lemmas\<close>

lemma single_scope: "ValidateScopes a [x] = (if ValidateScope a x then ([], True) else ([x], False))"
  by (simp add: ValidateScopes_def ValidateScope_def)

lemma single_resource: "ValidateResources a [x] = (if ValidateResource a x then ([], True) else ([x], False))"
  by (simp add: ValidateResources_def ValidateResource_def)

lemma gin_authentic:
  assumes "cache_ok (jwt_load_public_key J) (jc_verify_key (ac_Jwt cfg))" and "GinAuth_Parse J ctx cfg = (Ok a, cfg')"
  shows "authentic J (jwtTokenFunc ctx) cfg a"
  using assms by (intro apis_authentic [where token = jwtTokenFunc and cert = mtlsClientCertFunc]) (simp_all add: GinAuth_Parse_def)

lemma c_JSON_first [simp]: "c_JSON code body None = Some (Responded code [body])"
  by (simp add: c_JSON_def)

text \<open>
  The contract of a request that asks for one scope and one database: \<open>name\<close> is what it is called in the
  log, \<open>answer\<close> what \<open>Process\<close> answers. Behind an identity such a request is refused or processed.
\<close>

locale web_request_contract =
  fixes request :: "'s web_request" and scope db :: string and answer :: "'s \<Rightarrow> web_reply"
  assumes named: "\<exists>name. wq_GetName request = Ok name"
    and scoped: "wq_Scopes request = [scope]"
    and bound_to: "wq_Resources request = Ok [''db:'' @ db]"
    and guarded: "wq_AuthRequired request"
    and answers: "fst (wq_Process request s) = Ok (answer s)"
begin

lemma authCheck_one:
  "authCheck (Some a) request None =
     (Ok (if \<not> ValidateScope a scope then Some (ErrNew ''no scope permission'')
          else if \<not> ValidateResource a (''db:'' @ db) then Some (ErrNew ''no resource permission'') else None), None)"
  using named by (auto simp: authCheck_def scoped bound_to guarded FetchAuthInfo_def no_permission_def
      single_scope single_resource simp del: append_Cons)

lemma wrapped:
  "WebHandleWrapper (Inr request) (Some a) s =
     (if \<not> ValidateScope a scope then (Ok (Some (Responded 403 [ErrorBody ''no scope permission''])), s)
      else if \<not> ValidateResource a (''db:'' @ db) then (Ok (Some (Responded 403 [ErrorBody ''no resource permission''])), s)
      else (Ok (Some (answer s)), snd (wq_Process request s)))"
  using answers[of s]
  by (cases "wq_Process request s") (simp add: WebHandleWrapper_def authCheck_one del: append_Cons)

end

lemma AddDatabaseSource_web:
  "AddDatabaseSource E ref (put_source ref x s) = (err, s1) \<Longrightarrow>
     err = se_validate E x \<and> sh_manager s1 = sh_manager s \<and>
     (\<forall>n. n \<noteq> so_Name x \<longrightarrow> sh_Databases s1 n = sh_Databases s n) \<and> (\<forall>p. p \<noteq> ref \<longrightarrow> sh_heap s1 p = sh_heap s p) \<and>
     (err \<noteq> None \<longrightarrow> sh_Databases s1 = sh_Databases s \<and> sh_spawned s1 = sh_spawned s)"
  by (auto simp: AddDatabaseSource_def put_source_def spawn_def Let_def split: option.splits if_splits)

lemma wait_for_ready_eq:
  "fst (wait_for_ready w i n s) =
     Ok (if isReady i n (mv_manager (sh_manager s)) then Responded 200 [ReadyBody True] else WaitingReady w)"
  "sh_Databases (snd (wait_for_ready w i n s)) = sh_Databases s" "sh_heap (snd (wait_for_ready w i n s)) = sh_heap s"
  "sh_spawned (snd (wait_for_ready w i n s)) = sh_spawned s"
  "mg_Instances (mv_manager (sh_manager (snd (wait_for_ready w i n s)))) = mg_Instances (mv_manager (sh_manager s))"
  by (simp_all add: wait_for_ready_def WaitReady_def SubscribeDbStatus_def)

text \<open>What a request to create a database answers once it may.\<close>

definition create_answer :: "manager_view source_env \<Rightarrow> nat \<Rightarrow> DatabaseRequest \<Rightarrow> sources \<Rightarrow> web_reply" where
  "create_answer E w q s =
     (case se_validate E (new_web_source q) of
        Some err \<Rightarrow> Responded 500 [ErrorBody (error_text err)]
      | None \<Rightarrow> if isReady (rq_InstanceName q) (rq_Name q) (mv_manager (sh_manager s))
                then Responded 200 [ReadyBody True] else WaitingReady w)"

text \<open>A request changes nothing but one source, and the waiting calls of the manager.\<close>

definition only_source :: "nat \<Rightarrow> string \<Rightarrow> sources \<Rightarrow> sources \<Rightarrow> bool" where
  "only_source ref name s s' \<longleftrightarrow>
     (\<forall>n. n \<noteq> name \<longrightarrow> sh_Databases s' n = sh_Databases s n) \<and> (\<forall>p. p \<noteq> ref \<longrightarrow> sh_heap s' p = sh_heap s p) \<and>
     mg_Instances (mv_manager (sh_manager s')) = mg_Instances (mv_manager (sh_manager s))"

lemma web_create_Process_ok:
  "fst (web_create_Process E ref w (Some q) s) = Ok (create_answer E w q s)"
  "only_source ref (rq_Name q) s (snd (web_create_Process E ref w (Some q) s))"
  "se_validate E (new_web_source q) \<noteq> None \<Longrightarrow>
     sh_Databases (snd (web_create_Process E ref w (Some q) s)) = sh_Databases s \<and>
     sh_spawned (snd (web_create_Process E ref w (Some q) s)) = sh_spawned s \<and>
     sh_manager (snd (web_create_Process E ref w (Some q) s)) = sh_manager s"
proof -
  obtain err s1 where a: "AddDatabaseSource E ref (put_source ref (new_web_source q) s) = (err, s1)" by fastforce
  note f = AddDatabaseSource_web[OF a]
  have n: "so_Name (new_web_source q) = rq_Name q" by (simp add: new_web_source_def)
  show "fst (web_create_Process E ref w (Some q) s) = Ok (create_answer E w q s)"
    using f by (cases "se_validate E (new_web_source q)") (simp_all add: web_create_Process_def a create_answer_def wait_for_ready_eq)
  show "only_source ref (rq_Name q) s (snd (web_create_Process E ref w (Some q) s))"
    using f n by (cases "se_validate E (new_web_source q)") (simp_all add: web_create_Process_def a only_source_def wait_for_ready_eq)
  show "se_validate E (new_web_source q) \<noteq> None \<Longrightarrow>
     sh_Databases (snd (web_create_Process E ref w (Some q) s)) = sh_Databases s \<and>
     sh_spawned (snd (web_create_Process E ref w (Some q) s)) = sh_spawned s \<and>
     sh_manager (snd (web_create_Process E ref w (Some q) s)) = sh_manager s"
    using f by (cases "se_validate E (new_web_source q)") (simp_all add: web_create_Process_def a)
qed

text \<open>Both requests keep the contract, once the body of a creation set a field.\<close>

interpretation create_request: web_request_contract "web_CreateDbRequest E ref w (Some q)" "''db:write''" "rq_Name q" "create_answer E w q"
  for E ref w q
  by unfold_locales (simp_all add: web_CreateDbRequest_def db_resource_def web_create_Process_ok)

interpretation ready_request: web_request_contract "web_IsDbReadyRequest r" "''db:read''" "ir_Name r"
    "\<lambda>s. Responded 200 [ReadyBody (source_IsReady (ir_Name r) (ir_InstanceName r) s)]"
  for r
  by unfold_locales (simp_all add: web_IsDbReadyRequest_def)

text \<open>The whole way of the two requests, behind an identity.\<close>

lemma WebHandleWrapper_create:
  "WebHandleWrapper (map_sum (\<lambda>e. e) (web_CreateDbRequest E ref w) bound) (Some a) s =
     (case bound of
        Inl e \<Rightarrow> (Ok (Some (Responded 400 [ErrorBody (error_text e)])), s)
      | Inr None \<Rightarrow> (Panicked, s)
      | Inr (Some q) \<Rightarrow>
          if \<not> ValidateScope a ''db:write''
          then (Ok (Some (Responded 403 [ErrorBody ''no scope permission''])), s)
          else if \<not> ValidateResource a (''db:'' @ rq_Name q)
          then (Ok (Some (Responded 403 [ErrorBody ''no resource permission''])), s)
          else (Ok (Some (create_answer E w q s)), snd (web_create_Process E ref w (Some q) s)))"
proof (cases bound)
  case (Inr r)
  then show ?thesis
    using create_request.wrapped[of E ref w _ a s]
    by (cases r) (simp_all add: web_CreateDbRequest_def db_resource_def WebHandleWrapper_def authCheck_def
        FetchAuthInfo_def no_permission_def single_scope del: append_Cons)
qed (simp add: WebHandleWrapper_def)

lemma WebHandleWrapper_ready:
  "WebHandleWrapper (map_sum (\<lambda>e. e) web_IsDbReadyRequest bound) (Some a) s =
     (case bound of
        Inl e \<Rightarrow> (Ok (Some (Responded 400 [ErrorBody (error_text e)])), s)
      | Inr r \<Rightarrow>
          if \<not> ValidateScope a ''db:read''
          then (Ok (Some (Responded 403 [ErrorBody ''no scope permission''])), s)
          else if \<not> ValidateResource a (''db:'' @ ir_Name r)
          then (Ok (Some (Responded 403 [ErrorBody ''no resource permission''])), s)
          else (Ok (Some (Responded 200 [ReadyBody (source_IsReady (ir_Name r) (ir_InstanceName r) s)])), s))"
  using ready_request.wrapped[of _ a s]
  by (cases bound) (simp_all add: WebHandleWrapper_def[of "Inl _"] web_IsDbReadyRequest_def del: append_Cons)

section \<open>Properties\<close>

lemma serve_create:
  assumes "hq_path h = ''/api/v1/db''" and "hq_method h = ''POST''"
  shows "serve_http W ref w h cfg s =
    (case GinAuth_Parse (we_lib W) (hq_ctx h) cfg of
       (Ok a, cfg1) \<Rightarrow>
         (case WebHandleWrapper (map_sum (\<lambda>e. e) (web_CreateDbRequest (we_sources W) ref w) (we_bind_create W h)) (Some a) s of
            (r, s1) \<Rightarrow> (gin_reply r, cfg1, s1))
     | (Fail e, cfg1) \<Rightarrow> (Responded 401 [ErrorBody (error_text e)], cfg1, s)
     | (Panicked, cfg1) \<Rightarrow> (Responded 500 [], cfg1, s))"
  using assms by (simp add: serve_http_def registerRoutes_def AuthMiddleware_def gin_reply_def split: prod.splits outcome.splits)

lemma serve_ready:
  assumes "hq_path h = ''/api/v1/db/ready''" and "hq_method h = ''GET''"
  shows "serve_http W ref w h cfg s =
    (case GinAuth_Parse (we_lib W) (hq_ctx h) cfg of
       (Ok a, cfg1) \<Rightarrow>
         (case WebHandleWrapper (map_sum (\<lambda>e. e) web_IsDbReadyRequest (we_bind_ready W h)) (Some a) s of
            (r, s1) \<Rightarrow> (gin_reply r, cfg1, s1))
     | (Fail e, cfg1) \<Rightarrow> (Responded 401 [ErrorBody (error_text e)], cfg1, s)
     | (Panicked, cfg1) \<Rightarrow> (Responded 500 [], cfg1, s))"
  using assms by (simp add: serve_http_def registerRoutes_def AuthMiddleware_def gin_reply_def split: prod.splits outcome.splits)

lemma serve_other:
  assumes "\<not> (hq_path h = ''/api/v1/db'' \<and> hq_method h = ''POST'')"
    and "\<not> (hq_path h = ''/api/v1/db/ready'' \<and> hq_method h = ''GET'')"
  shows "serve_http W ref w h cfg s = (Responded 404 [], cfg, s)"
  using assms by (auto simp: serve_http_def registerRoutes_def)

text \<open>The request was granted, or it had no effect and no positive answer.\<close>

definition refused :: "web_reply \<Rightarrow> sources \<Rightarrow> sources \<Rightarrow> bool" where
  "refused reply s s' \<longleftrightarrow> s' = s \<and> (case reply of Responded code bodies \<Rightarrow> code \<ge> 400 | WaitingReady w \<Rightarrow> False)"


text \<open>
  What a request to create a database answers, on every branch: 401 without an identity, 400 when
  it cannot be bound, 500 when the body set no field (the nil request is dereferenced and the panic
  recovered), 403 without the scope or the resource, 500 when the source is refused, and otherwise
  that the database is ready, at once or after waiting.
\<close>

theorem web_create_reply:
  assumes "hq_path h = ''/api/v1/db''" and "hq_method h = ''POST''"
  shows "fst (serve_http W ref w h cfg s) =
    (case fst (GinAuth_Parse (we_lib W) (hq_ctx h) cfg) of
       Fail e \<Rightarrow> Responded 401 [ErrorBody (error_text e)]
     | Panicked \<Rightarrow> Responded 500 []
     | Ok a \<Rightarrow>
         (case we_bind_create W h of
            Inl e \<Rightarrow> Responded 400 [ErrorBody (error_text e)]
          | Inr None \<Rightarrow> Responded 500 []
          | Inr (Some q) \<Rightarrow>
              if \<not> ValidateScope a ''db:write'' then Responded 403 [ErrorBody ''no scope permission'']
              else if \<not> ValidateResource a (''db:'' @ rq_Name q) then Responded 403 [ErrorBody ''no resource permission'']
              else (case se_validate (we_sources W) (new_web_source q) of
                      Some err \<Rightarrow> Responded 500 [ErrorBody (error_text err)]
                    | None \<Rightarrow> if isReady (rq_InstanceName q) (rq_Name q) (mv_manager (sh_manager s))
                              then Responded 200 [ReadyBody True] else WaitingReady w)))"
  unfolding serve_create[OF assms] WebHandleWrapper_create create_answer_def
  by (simp add: gin_reply_def del: append_Cons split: prod.split outcome.split sum.split option.split)

text \<open>
  C21. No request to create a database whose body is JSON ever succeeds: the JSON of a request leaves
  the password file empty, \<open>AddDatabaseSource\<close> validates the rules of a file source, which require
  one, and the answer is never a success, nor is the source stored or queued.
\<close>

theorem json_create_never_succeeds:
  assumes "se_validate (we_sources W) = validator_Struct check message" and "\<not> check ''required,file'' []"
    and "hq_path h = ''/api/v1/db''" and "hq_method h = ''POST''"
    and "\<And>q. we_bind_create W h = Inr (Some q) \<Longrightarrow> rq_PasswordFile q = []"
    and "serve_http W ref w h cfg s = (reply, cfg', s')"
  shows "\<exists>code bodies. reply = Responded code bodies \<and> code \<ge> 400 \<and>
    sh_Databases s' = sh_Databases s \<and> sh_spawned s' = sh_spawned s \<and> sh_manager s' = sh_manager s"
proof -
  have v: "se_validate (we_sources W) (new_web_source q) = Some (message q)" if "we_bind_create W h = Inr (Some q)" for q
    using assms(2) assms(5)[OF that] by (simp add: assms(1) validator_Struct_def DatabaseRequest_rules_def new_web_source_def)
  note serve = assms(6)[unfolded serve_create[OF assms(3,4)] WebHandleWrapper_create create_answer_def]
  show ?thesis
    using serve v web_create_Process_ok(3)[of "we_sources W" _ ref w s]
    by (auto simp: gin_reply_def simp del: append_Cons split: prod.splits outcome.splits sum.splits option.splits if_splits)
qed

section \<open>Samples\<close>

text \<open>One token of a writer, a body that names a database, and a server that knows no instance yet.\<close>

definition web_jwt :: "nat jwt_lib" where
  "web_jwt = sample_lib\<lparr>jwt_verify := (\<lambda>k t. if t = ''good''
     then Inr ([''sub'' \<mapsto> ClaimString ''joe'', ''aud'' \<mapsto> ClaimStrings [''pg-helper''],
               ''scope'' \<mapsto> ClaimString ''db:write'', ''resource'' \<mapsto> ClaimString ''db:app''], True)
     else Inl (ErrExt ''signature is invalid''))\<rparr>"

definition web_request_q :: "string \<Rightarrow> DatabaseRequest" where
  "web_request_q passwordFile = \<lparr>rq_Name = ''app'', rq_Owner = ''joe'', rq_PasswordFile = passwordFile,
     rq_Password = ''secret12'', rq_InstanceName = ''pg-16'', rq_MigrateFrom = [], rq_BackupPath = []\<rparr>"

definition required_check :: "string \<Rightarrow> string \<Rightarrow> bool" where
  "required_check tags v = (v \<noteq> [] \<or> has_prefix tags ''omitempty'')"

definition sample_web :: "string \<Rightarrow> nat web_env" where
  "sample_web passwordFile = \<lparr>we_lib = web_jwt, we_bind_create = \<lambda>h. Inr (Some (web_request_q passwordFile)),
     we_bind_ready = \<lambda>h. Inl (ErrNew ''no name''),
     we_sources = \<lparr>se_now = int, se_read_trimmed = \<lambda>_. Inr [], se_GetDbStatus = view_GetDbStatus,
       se_CreateDb = view_CreateDb, se_validate = validator_Struct required_check (\<lambda>q. ErrExt ''invalid''), se_DeleyDelete = 100\<rparr>\<rparr>"

definition sample_post :: "string \<Rightarrow> http_request" where
  "sample_post token = \<lparr>hq_method = ''POST'', hq_path = ''/api/v1/db'', hq_ctx = sample_gin token, hq_body = []\<rparr>"

definition sample_sources :: sources where
  "sample_sources = NewSourceHandler (\<lambda>_. new_web_source (web_request_q []))
     \<lparr>mv_manager = NewDbInstanceManager, mv_order = [], mv_uuid = (\<lambda>_. []), mv_next = 0\<rparr>"

lemma web_cache_ok: "cache_ok (jwt_load_public_key web_jwt) (jc_verify_key (ac_Jwt sample_auth))"
  by (rule sample_cache_ok)

lemma web_bad_token: "\<not> authentic web_jwt (jwtTokenFunc (sample_gin ''bad'')) sample_auth a"
  by (auto simp: authentic_def web_jwt_def sample_gin_def jwtTokenFunc_def getToken_def split: if_splits)
    (simp add: trim_prefix_def has_prefix_def)+


lemma web_good_token: "fst (GinAuth_Parse web_jwt (sample_gin ''good'') sample_auth) = Ok (sample_info [''db:write''] [''db:app''])"
  by code_simp

lemma sample_not_ready: "isReady i n (mv_manager (sh_manager sample_sources)) = False"
  by (simp add: isReady_def sample_sources_def NewSourceHandler_def NewDbInstanceManager_def GetInstance_def)

theorem web_create_reply_witness:
  "fst (serve_http (sample_web ''pw.txt'') 0 1 (sample_post ''good'') sample_auth sample_sources) = WaitingReady 1"
proof -
  have h: "hq_path (sample_post ''good'') = ''/api/v1/db''" "hq_method (sample_post ''good'') = ''POST''"
    by (simp_all add: sample_post_def)
  have g: "fst (GinAuth_Parse (we_lib (sample_web ''pw.txt'')) (hq_ctx (sample_post ''good'')) sample_auth) =
      Ok (sample_info [''db:write''] [''db:app''])"
    using web_good_token by (simp add: sample_web_def sample_post_def)
  have p: "ValidateScope (sample_info [''db:write''] [''db:app'']) ''db:write''"
    "ValidateResource (sample_info [''db:write''] [''db:app'']) ''db:app''" by code_simp+
  have q: "we_bind_create (sample_web ''pw.txt'') (sample_post ''good'') = Inr (Some (web_request_q ''pw.txt''))"
    "rq_Name (web_request_q ''pw.txt'') = ''app''" by (simp_all add: sample_web_def web_request_q_def)
  have v: "se_validate (we_sources (sample_web ''pw.txt'')) (new_web_source (web_request_q ''pw.txt'')) = None"
    by code_simp
  show ?thesis
    using web_create_reply[OF h, of "sample_web ''pw.txt''" 0 1 sample_auth sample_sources]
    by (simp add: g q v sample_not_ready p)
qed

theorem json_create_never_succeeds_witness:
  "\<exists>code bodies. fst (serve_http (sample_web []) 0 1 (sample_post ''good'') sample_auth sample_sources) = Responded code bodies \<and> code \<ge> 400"
proof -
  obtain reply cfg' s' where r: "serve_http (sample_web []) 0 1 (sample_post ''good'') sample_auth sample_sources = (reply, cfg', s')"
    using prod_cases3 by blast
  have v: "se_validate (we_sources (sample_web [])) = validator_Struct required_check (\<lambda>q. ErrExt ''invalid'')"
    by (simp add: sample_web_def)
  have f: "\<not> required_check ''required,file'' []" by code_simp
  have h: "hq_path (sample_post ''good'') = ''/api/v1/db''" "hq_method (sample_post ''good'') = ''POST''"
    by (simp_all add: sample_post_def)
  have p: "we_bind_create (sample_web []) (sample_post ''good'') = Inr (Some q) \<Longrightarrow> rq_PasswordFile q = []" for q
    by (auto simp: sample_web_def web_request_q_def)
  show ?thesis using json_create_never_succeeds[OF v f h p r] r by auto
qed

section \<open>Waiting\<close>

text \<open>Telling one subscriber makes a waiting call ready only for the database it waits for.\<close>

lemma call_subscriber_wakes:
  "call_subscriber d sub m = (keep, m') \<Longrightarrow> wait_result w m \<noteq> Some True \<Longrightarrow> wait_result w m' = Some True \<Longrightarrow>
     \<exists>i n. sub = WaitReadySub w i n \<and> ds_IsReady d n i"
  by (cases sub) (auto simp: wait_result_def split: if_splits)

lemma scan_wakes:
  "scan_keep (call_subscriber d) subs m = (subs', m') \<Longrightarrow> wait_result w m \<noteq> Some True \<Longrightarrow> wait_result w m' = Some True \<Longrightarrow>
     \<exists>i n. WaitReadySub w i n \<in> set subs \<and> ds_IsReady d n i"
proof (induction subs arbitrary: m subs')
  case (Cons sub subs)
  obtain keep m1 where c: "call_subscriber d sub m = (keep, m1)" by fastforce
  obtain rest where r: "scan_keep (call_subscriber d) subs m1 = (rest, m')"
    using Cons.prems(1) by (auto simp: c Let_def split: prod.splits)
  show ?case
  proof (cases "wait_result w m1 = Some True")
    case True
    then show ?thesis using call_subscriber_wakes[OF c Cons.prems(2)] by auto
  next
    case False
    then show ?thesis using Cons.IH[OF r False] Cons.prems(3) by auto
  qed
qed simp

lemma wait_result_cong: "mg_waiters m' = mg_waiters m \<Longrightarrow> wait_result w m' = wait_result w m"
  by (simp add: wait_result_def)

lemma OnStatusChanged_wakes:
  assumes "wait_result w m \<noteq> Some True" and "wait_result w (OnStatusChanged a db m) = Some True"
  shows "\<exists>n. WaitReadySub w (in_Name a) n \<in> set (mg_subs m) \<and> pd_Name db = n \<and> IsReadyToUse (Some db)"
proof -
  define d where "d = (Database_StatusResponse db)\<lparr>ds_InstanceName := in_Name a, ds_Version := in_PgVersion a\<rparr>"
  obtain subs' m' where s: "scan_keep (call_subscriber d) (mg_subs m) m = (subs', m')" by fastforce
  have "OnStatusChanged a db m = m'\<lparr>mg_subs := subs'\<rparr>"
    using assms by (auto simp: OnStatusChanged_def notifyStatusChanged_def scan_del_eq d_def[symmetric] s split: if_splits)
  then have "wait_result w m' = Some True" using assms(2) wait_result_cong[of "m'\<lparr>mg_subs := subs'\<rparr>" m'] by simp
  from scan_wakes[OF s assms(1) this] obtain i n where "WaitReadySub w i n \<in> set (mg_subs m)" and "ds_IsReady d n i" by blast
  moreover from \<open>ds_IsReady d n i\<close> have "i = in_Name a \<and> n = pd_Name db \<and> IsReadyToUse (Some db)"
    using stage_string_inject[of "pd_Stage db" DbStage_ReadyToUse] status_string_inject[of "pd_Status db" DbStatus_Done]
    by (simp add: ds_IsReady_def d_def Database_StatusResponse_def IsReadyToUse_def)
  ultimately show ?thesis by blast
qed

text \<open>No call is ready and still waiting.\<close>

definition waiters_ok :: "manager \<Rightarrow> bool" where
  "waiters_ok m \<longleftrightarrow> (\<forall>w. rw_ready (mg_waiters m w) \<longrightarrow> rw_done (mg_waiters m w))"

lemma waiters_ok_cong: "mg_waiters m' = mg_waiters m \<Longrightarrow> waiters_ok m \<Longrightarrow> waiters_ok m'"
  by (simp add: waiters_ok_def)

lemma waiters_ok_subs [simp]: "waiters_ok (m\<lparr>mg_subs := subs\<rparr>) = waiters_ok m"
  by (simp add: waiters_ok_def)

lemma call_subscriber_waiters: "waiters_ok m \<Longrightarrow> waiters_ok (snd (call_subscriber d sub m))"
  by (cases sub) (auto simp: waiters_ok_def)

lemma scan_waiters: "waiters_ok m \<Longrightarrow> waiters_ok (snd (scan_keep (call_subscriber d) subs m))"
proof (induction subs arbitrary: m)
  case (Cons sub subs)
  then show ?case using call_subscriber_waiters[of m d sub] by (simp add: Let_def split_beta)
qed simp

lemma OnStatusChanged_waiters: "waiters_ok m \<Longrightarrow> waiters_ok (OnStatusChanged a db m)"
  using scan_waiters[of m _ "mg_subs m"]
  by (auto simp: OnStatusChanged_def notifyStatusChanged_def scan_del_eq split_beta)

text \<open>The other calls leave the waiters alone.\<close>

lemma create_on_waiters [simp]: "mg_waiters (snd (create_on j t vo m)) = mg_waiters m"
  by (simp add: create_on_def set_instance_def split: option.split prod.split)

lemma mgr_CreateDb_waiters [simp]: "mg_waiters (snd (mgr_CreateDb order j vo m)) = mg_waiters m"
  by (simp add: mgr_CreateDb_def inst_MigrateOut_def set_instance_def Let_def split: option.split)

lemma inst_OnStatusChanged_waiters [simp]: "mg_waiters (inst_OnStatusChanged order a m) = mg_waiters m"
  by (simp add: inst_OnStatusChanged_eq)

lemma NewInstance_waiters: "NewInstance n v m = (r, m') \<Longrightarrow> mg_waiters m' = mg_waiters m"
  by (auto simp: NewInstance_def set_instance_def Let_def split: option.splits if_splits)

lemma Register_begin_waiters: "Register_begin order info r m = (Inr name, m') \<Longrightarrow> mg_waiters m' = mg_waiters m"
  by (erule Register_begin_ok) (auto simp: set_instance_def dest: NewInstance_waiters)

lemma Register_end_waiters [simp]: "mg_waiters (Register_end order name m) = mg_waiters m"
  by (simp add: Register_end_def set_instance_def Let_def split: option.split)

lemma NotifyDbStatus_waiters [simp]: "mg_waiters (snd (NotifyDbStatus info db m)) = mg_waiters m"
  by (simp add: NotifyDbStatus_def LoadAuthInfo_def set_instance_def split: option.split prod.split)

lemma run_spawned_waiters: "waiters_ok m \<Longrightarrow> waiters_ok (run_spawned j g m)"
  by (cases g) (auto intro: OnStatusChanged_waiters waiters_ok_cong[OF create_on_waiters] split: option.splits)

lemma mgr_step_waiters: "mgr_step s s' \<Longrightarrow> waiters_ok (fst s) \<Longrightarrow> waiters_ok (fst s')"
proof (induction rule: mgr_step.induct)
  case (Register order info r m name m' ss)
  then show ?case using waiters_ok_cong[OF Register_begin_waiters] by simp
next
  case (Refused order info r m e m' ss)
  then show ?case by (auto dest: Register_begin_refused)
next
  case (Spawned m xs g ys ss jobId)
  then show ?case using run_spawned_waiters[of "m\<lparr>mg_spawned := xs @ ys\<rparr>"] by (simp add: waiters_ok_def)
qed (auto simp: waiters_ok_def WaitReady_def SubscribeDbStatus_def SubscribeInstanceStatus_def wait_timeout_def)

lemma mgr_reach_waiters: "mgr_reach s \<Longrightarrow> waiters_ok (fst s)"
  by (induction rule: mgr_reach.induct) (simp add: waiters_ok_def NewDbInstanceManager_def, rule mgr_step_waiters)

text \<open>
  C27. A call that waits for a database is told that it is ready only when it is: in every reachable
  state, the step that makes the call of \<open>WaitReady\<close> return true finds the instance and the database it
  subscribed for, ready to use.
\<close>

theorem wait_ready_is_truthful:
  assumes "mgr_reach (m, ss)" and "mgr_step (m, ss) (m', ss')"
    and "wait_result w m = None" and "wait_result w m' = Some True"
  shows "\<exists>i n. WaitReadySub w i n \<in> set (mg_subs m) \<and> isReady i n m"
proof -
  have waiting: "\<not> rw_done (mg_waiters m w)" using assms(3) by (simp add: wait_result_def split: if_splits)
  from assms(2) show ?thesis
  proof (cases rule: mgr_step.cases)
    case (Register order info r name)
    then show ?thesis using wait_result_cong[OF Register_begin_waiters[OF Register(2)], of w] assms(3,4) by simp
  next
    case (Refused order info r e)
    then show ?thesis using Register_begin_refused[OF Refused(2)] assms(3,4) by simp
  next
    case (Spawned xs g ys jobId)
    let ?m = "m\<lparr>mg_spawned := xs @ ys\<rparr>"
    have n: "wait_result w ?m \<noteq> Some True" using assms(3) wait_result_cong[of ?m m w] by simp
    have y: "wait_result w (run_spawned jobId g ?m) = Some True" using assms(4) Spawned by simp
    show ?thesis
    proof (cases g)
      case (GoDbStatus inst name)
      obtain a where a: "mg_Instances m inst = Some a" using n y GoDbStatus by (auto split: option.splits)
      obtain db where db: "in_Databases a name = Some db" using n y GoDbStatus a by (auto split: option.splits)
      have y2: "wait_result w (OnStatusChanged a db ?m) = Some True" using y by (simp add: GoDbStatus a db)
      from OnStatusChanged_wakes[OF n y2]
      have s: "WaitReadySub w (in_Name a) (pd_Name db) \<in> set (mg_subs m)" and r: "IsReadyToUse (Some db)" by auto
      have wf: "in_Name a = inst" "inst_wf a" using mgr_wfD[OF _ a] mgr_reach_wf[OF assms(1)] by simp_all
      have "db \<noteq> NewDatabase" using r by (auto simp: NewDatabase_def zero_proto_def IsReadyToUse_def)
      then have "pd_Name db = name" using inst_wf_get[OF wf(2) db] by simp
      then have "isReady inst (pd_Name db) m" using r by (simp add: isReady_def GetInstance_def inst_GetDb_def a db)
      then show ?thesis using s wf(1) by blast
    next
      case (GoCreateDb t vo)
      then show ?thesis using n y wait_result_cong[OF create_on_waiters] by simp
    qed
  next
    case (Timeout w')
    then show ?thesis using assms(3,4) mgr_reach_waiters[OF assms(1)]
      by (auto simp: wait_result_def wait_timeout_def waiters_ok_def split: if_splits)
  qed (use assms(4) waiting in \<open>auto simp: wait_result_def WaitReady_def SubscribeDbStatus_def SubscribeInstanceStatus_def split: if_splits\<close>)
qed

definition reported_manager :: manager where
  "reported_manager = snd (NotifyDbStatus (Some (agent_info ''pg-15'')) (reported_db ''pg-15'' ''app2'' DbStage_ReadyToUse DbStatus_Done 2)
     (snd (WaitReady 3 ''pg-15'' ''app2'' sample_manager)))"

lemma reported_manager_reach: "mgr_reach (reported_manager, [''pg-16'', ''pg-15''])"
  unfolding reported_manager_def by (rule mgr_reach.step[OF mgr_reach.step[OF sample_manager_reach mgr_step.Wait] mgr_step.Notify])

lemma reported_manager_spawned:
  "mg_spawned reported_manager = [GoDbStatus ''pg-15'' ''app''] @ GoDbStatus ''pg-15'' ''app2'' # []"
  by code_simp

lemma reported_manager_wait: "wait_result 3 reported_manager = None"
  by code_simp

lemma reported_manager_ready:
  "wait_result 3 (run_spawned [] (GoDbStatus ''pg-15'' ''app2'')
     (reported_manager\<lparr>mg_spawned := [GoDbStatus ''pg-15'' ''app''] @ []\<rparr>)) = Some True"
  by code_simp

theorem wait_ready_is_truthful_witness: "\<exists>i n. WaitReadySub 3 i n \<in> set (mg_subs reported_manager) \<and> isReady i n reported_manager"
  by (rule wait_ready_is_truthful[OF reported_manager_reach mgr_step.Spawned[OF reported_manager_spawned]
        reported_manager_wait reported_manager_ready])

end
