(* ===== verification/Key_Files.thy ===== *)
theory Key_Files
  imports Config
begin

text \<open>
  The command that makes a key pair (\<open>cmd/pg-helper/cmd_genkey.go\<close>) over a file system of names and
  contents, and the version command. The lemmas show that no file is overwritten unless forced, and that
  the server loads the public key that was written.
\<close>

record genkey_cmd =
  gk_PublicKey :: string
  gk_PrivateKey :: string
  gk_Force :: bool

text \<open>
  The cryptography: a generated pair, the two encodings of a key (PKCS8 and PKIX), the PEM block
  of a type and bytes; and the writing of files, which may fail and then leaves the file as it was.
\<close>

record ('pub, 'priv) key_lib =
  kl_GenerateKey :: "go_error + 'pub \<times> 'priv"
  kl_MarshalPrivate :: "'priv \<Rightarrow> go_error + string"
  kl_MarshalPublic :: "'pub \<Rightarrow> go_error + string"
  kl_EncodePem :: "string \<Rightarrow> string \<Rightarrow> string"
  kl_write_error :: "string \<Rightarrow> go_error option"

type_synonym files = "string \<rightharpoonup> string"

definition WriteFile :: "('pub, 'priv) key_lib \<Rightarrow> string \<Rightarrow> string \<Rightarrow> files \<Rightarrow> go_error option \<times> files" where
  "WriteFile K name contents fs =
     (case kl_write_error K name of Some e \<Rightarrow> (Some e, fs) | None \<Rightarrow> (None, fs(name \<mapsto> contents)))"

definition write_keys :: "('pub, 'priv) key_lib \<Rightarrow> genkey_cmd \<Rightarrow> 'pub \<Rightarrow> 'priv \<Rightarrow> files \<Rightarrow> go_error option \<times> files" where
  "write_keys K g publicKey privateKey fs =
     (case kl_MarshalPrivate K privateKey of
        Inl e \<Rightarrow> (Some e, fs)
      | Inr priv \<Rightarrow>
          (case kl_MarshalPublic K publicKey of
             Inl e \<Rightarrow> (Some e, fs)
           | Inr pub \<Rightarrow>
               (case WriteFile K (gk_PrivateKey g) (kl_EncodePem K ''PRIVATE KEY'' priv) fs of
                  (Some e, fs1) \<Rightarrow> (Some e, fs1)
                | (None, fs1) \<Rightarrow> WriteFile K (gk_PublicKey g) (kl_EncodePem K ''PUBLIC KEY'' pub) fs1)))"

definition genkey_Run :: "('pub, 'priv) key_lib \<Rightarrow> genkey_cmd \<Rightarrow> files \<Rightarrow> go_error option \<times> files" where
  "genkey_Run K g fs =
     (if \<not> gk_Force g \<and> fs (gk_PublicKey g) \<noteq> None then (Some (ErrNew ''public key file already exists''), fs)
      else if \<not> gk_Force g \<and> fs (gk_PrivateKey g) \<noteq> None then (Some (ErrNew ''private key file already exists''), fs)
      else (case kl_GenerateKey K of
              Inl e \<Rightarrow> (Some e, fs)
            | Inr (publicKey, privateKey) \<Rightarrow> write_keys K g publicKey privateKey fs))"

definition version_Run :: "string \<Rightarrow> string \<Rightarrow> bool \<Rightarrow> string list" where
  "version_Run version goVersion buildInfo =
     (''pg-helper '' @ version) # (if buildInfo then [''Built by: go '' @ goVersion] else [])"

lemma write_keys_extends:
  assumes "fs (gk_PublicKey g) = None" and "fs (gk_PrivateKey g) = None" and "write_keys K g pub priv fs = (r, fs')"
  shows "fs \<subseteq>\<^sub>m fs'"
  using assms by (auto simp: write_keys_def WriteFile_def map_le_def split: sum.splits option.splits)

text \<open>Reading a file: a name that is not there is an error.\<close>

definition read_files :: "files \<Rightarrow> string \<Rightarrow> go_error + string" where
  "read_files fs name = (case fs name of None \<Rightarrow> Inl (ErrExt ''no such file'') | Some c \<Rightarrow> Inr c)"

text \<open>
  \<open>genkey\<close> overwrites no file unless it is forced, on every path, and when it succeeds the server
  loads from the public key file the key of the pair that was made: given that PEM and PKIX decode
  what they encoded, \<open>LoadPublicKey\<close> returns it.
\<close>

theorem genkey_roundtrip:
  assumes "genkey_Run K g fs = (r, fs')"
    and "\<And>t b. pem_decode (kl_EncodePem K t b) = Some \<lparr>pb_Type = t, pb_Bytes = b\<rparr>"
    and "\<And>k b. kl_MarshalPublic K k = Inr b \<Longrightarrow> parse_public_key b = Inr k"
  shows "(\<not> gk_Force g \<longrightarrow> fs \<subseteq>\<^sub>m fs') \<and>
    (r = None \<longrightarrow> (\<exists>pub priv. kl_GenerateKey K = Inr (pub, priv) \<and>
       LoadPublicKey (read_files fs') pem_decode parse_public_key (gk_PublicKey g) = Inr pub))"
proof (intro conjI impI)
  assume f: "\<not> gk_Force g"
  show "fs \<subseteq>\<^sub>m fs'"
    using assms(1) f write_keys_extends[of fs g K] by (auto simp: genkey_Run_def split: if_splits sum.splits)
next
  assume "r = None"
  then show "\<exists>pub priv. kl_GenerateKey K = Inr (pub, priv) \<and>
       LoadPublicKey (read_files fs') pem_decode parse_public_key (gk_PublicKey g) = Inr pub"
    using assms by (auto simp: genkey_Run_def write_keys_def WriteFile_def LoadPublicKey_def read_files_def
        split: if_splits sum.splits option.splits prod.splits)
qed

text \<open>A pair of numbers, with an encoding that begins with the length of the type.\<close>

definition sample_encode :: "string \<Rightarrow> string \<Rightarrow> string" where
  "sample_encode t b = replicate (length t) (CHR ''+'') @ ''-'' @ t @ b"

definition sample_decode :: "string \<Rightarrow> pem_block option" where
  "sample_decode s =
     (let n = length (takeWhile (\<lambda>c. c = CHR ''+'') s)
      in Some \<lparr>pb_Type = take n (drop (Suc n) s), pb_Bytes = drop (Suc (n + n)) s\<rparr>)"

definition sample_keys :: "(nat, nat) key_lib" where
  "sample_keys = \<lparr>kl_GenerateKey = Inr (1, 2), kl_MarshalPrivate = (\<lambda>k. Inr ''priv''),
     kl_MarshalPublic = (\<lambda>k. if k = 1 then Inr ''pub'' else Inl (ErrExt ''key'')), kl_EncodePem = sample_encode,
     kl_write_error = (\<lambda>_. None)\<rparr>"

lemma sample_decode_encode: "sample_decode (sample_encode t b) = Some \<lparr>pb_Type = t, pb_Bytes = b\<rparr>"
proof -
  have "takeWhile (\<lambda>c. c = CHR ''+'') (sample_encode t b) = replicate (length t) (CHR ''+'')"
    by (simp add: sample_encode_def takeWhile_append)
  then show ?thesis by (simp add: sample_decode_def Let_def) (simp add: sample_encode_def)
qed

theorem genkey_roundtrip_witness:
  "LoadPublicKey (read_files (snd (genkey_Run sample_keys \<lparr>gk_PublicKey = ''a.pem'', gk_PrivateKey = ''b.pem'', gk_Force = False\<rparr>
      [''c'' \<mapsto> ''x'']))) sample_decode (\<lambda>b. if b = ''pub'' then Inr 1 else Inl ErrNoRows) ''a.pem'' = Inr (1 :: nat)"
proof -
  let ?g = "\<lparr>gk_PublicKey = ''a.pem'', gk_PrivateKey = ''b.pem'', gk_Force = False\<rparr>"
  let ?parse = "\<lambda>b. if b = ''pub'' then Inr 1 else Inl ErrNoRows"
  have run: "genkey_Run sample_keys ?g [''c'' \<mapsto> ''x''] = (None, snd (genkey_Run sample_keys ?g [''c'' \<mapsto> ''x'']))"
    by (simp add: genkey_Run_def write_keys_def WriteFile_def sample_keys_def)
  have pem: "sample_decode (kl_EncodePem sample_keys t b) = Some \<lparr>pb_Type = t, pb_Bytes = b\<rparr>" for t b
    by (simp add: sample_keys_def sample_decode_encode)
  have parse: "kl_MarshalPublic sample_keys k = Inr b \<Longrightarrow> ?parse b = Inr k" for k b
    by (simp add: sample_keys_def split: if_splits)
  from genkey_roundtrip[OF run pem parse] show ?thesis by (simp add: sample_keys_def)
qed

end
